theory Spec2Isabelle
  imports Main
begin

section \<open>Strings\<close>

text \<open>
  Strings are lists of 8-bit characters. \<open>toUpperCase\<close> moves the letters a to z to A to Z
  and keeps every other character. On ASCII text that is JavaScript's
  \<open>String.prototype.toUpperCase\<close>; a character outside ASCII may have an upper case of
  its own there, so what is proved of \<open>toUpperCase\<close> is proved for ASCII strings
  (\<open>is_ascii\<close> of every character).
\<close>

definition is_ascii :: "char \<Rightarrow> bool" where
  "is_ascii c \<longleftrightarrow> (of_char c :: nat) < 128"

definition is_lower :: "char \<Rightarrow> bool" where
  "is_lower c \<longleftrightarrow> 97 \<le> (of_char c :: nat) \<and> (of_char c :: nat) \<le> 122"

definition toUpperCaseChar :: "char \<Rightarrow> char" where
  "toUpperCaseChar c = (if is_lower c then char_of ((of_char c :: nat) - 32) else c)"

definition toUpperCase :: "string \<Rightarrow> string" where
  "toUpperCase s = map toUpperCaseChar s"

section \<open>Errors\<close>

text \<open>Every exception the modelled code throws or lets through is a value of this type.\<close>

datatype error =
    IncorrectUrlFormat          \<comment> \<open>\<open>Error("URL is in incorrect format")\<close>\<close>
  | TypeError                   \<comment> \<open>reading a property of \<open>null\<close> or \<open>undefined\<close>\<close>
  | CouldNotFindHistory         \<comment> \<open>\<open>Error("Could not find history")\<close>\<close>
  | Collision                   \<comment> \<open>\<open>Error("Collision")\<close>\<close>
  | QueryResultError            \<comment> \<open>pg-promise: wrong number of rows for \<open>one\<close> / \<open>oneOrNone\<close>\<close>
  | UniqueViolation             \<comment> \<open>PostgreSQL 23505\<close>
  | UndefinedTable              \<comment> \<open>PostgreSQL 42P01\<close>
  | CouldntFetchSchemaVersion   \<comment> \<open>\<open>Error("Couldn't fetch schema version")\<close>\<close>
  | FailedToUpdateSchema        \<comment> \<open>\<open>Error("Failed to update database schema")\<close>\<close>
  | ModuleNotFound              \<comment> \<open>\<open>require\<close> of a file that does not exist\<close>
  | External string             \<comment> \<open>any failure raised by a collaborator\<close>

section \<open>SlackGhost (src/SlackGhost.ts)\<close>

record UserEntry =
  avatar_url :: "string option"
  display_name :: "string option"
  id :: string
  slack_id :: string
  team_id :: "string option"

text \<open>
  The profile of a remote user (ISlackUser of BaseSlackHandler and UsersInfoResponse of
  SlackResponses, neither among the sources; the fields are those that SlackGhost reads).
\<close>

record slack_profile =
  display_name_p :: "string option"
  real_name :: "string option"
  avatar_hash :: "string option"
  images :: "string option list"
    \<comment> \<open>\<open>image_original\<close>, \<open>image_1024\<close>, \<open>image_512\<close>, \<open>image_192\<close>, \<open>image_72\<close>, \<open>image_48\<close>\<close>

record slack_user =
  profile :: "slack_profile option"

record users_info_response =
  resp_user :: "slack_user option"

text \<open>
  \<open>userInfoLoading\<close> holds the promise of the request in flight, here by what it settles
  to: the response, or the rejection.
\<close>

record SlackGhost =
  slackId :: string
  teamId :: "string option"
  userId :: string
  displayname :: "string option"
  avatarHash :: "string option"
  updateInProgress :: bool
  userInfoCache :: "slack_user option"
  userInfoLoading :: "(error + users_info_response) option"

text \<open>
  The constructor: the parameter properties are assigned, then \<open>slackId\<close> is replaced by
  its upper case and \<open>teamId\<close> too when it is truthy (defined and not the empty string).
\<close>

definition new_SlackGhost ::
  "string \<Rightarrow> string option \<Rightarrow> string \<Rightarrow> string option \<Rightarrow> string option \<Rightarrow> SlackGhost" where
  "new_SlackGhost sid tid uid dn ah =
     \<lparr> slackId = toUpperCase sid,
       teamId = (case tid of
                   None \<Rightarrow> None
                 | Some t \<Rightarrow> if t \<noteq> [] then Some (toUpperCase t) else Some t),
       userId = uid,
       displayname = dn,
       avatarHash = ah,
       updateInProgress = False,
       userInfoCache = None,
       userInfoLoading = None \<rparr>"

definition toEntry :: "SlackGhost \<Rightarrow> UserEntry" where
  "toEntry g =
     \<lparr> avatar_url = avatarHash g,
       display_name = displayname g,
       id = userId g,
       slack_id = slackId g,
       team_id = teamId g \<rparr>"

definition fromEntry :: "UserEntry \<Rightarrow> SlackGhost" where
  "fromEntry entry =
     new_SlackGhost (slack_id entry) (team_id entry) (id entry)
       (display_name entry) (avatar_url entry)"

section \<open>The users table (src/datastore/postgres/PgDatastore.ts)\<close>

text \<open>
  A row of \<open>users\<close> is \<open>(userId, isremote, json)\<close>. Both writers use
  \<open>ON CONFLICT (userId)\<close>, which PostgreSQL accepts only with a unique index on
  \<open>userId\<close>, so the table is a map from the id to the other two columns. The json
  column holds either a serialised UserEntry or the data object of a MatrixUser;
  \<open>JSON.parse\<close> after \<open>JSON.stringify\<close> gives the document back.
\<close>

datatype user_doc = EntryDoc UserEntry | DataDoc "(string \<times> string) list"

record MatrixUser =
  mu_id :: string
  mu_data :: user_doc

type_synonym users_table = "string \<rightharpoonup> (bool \<times> user_doc)"

text \<open>
  \<open>INSERT INTO users VALUES(id, flag, json) ON CONFLICT (userId) DO UPDATE SET json = json\<close>:
  a new row gets the flag, an existing row keeps its flag and takes the new json.
\<close>

definition insert_user :: "string \<Rightarrow> bool \<Rightarrow> user_doc \<Rightarrow> users_table \<Rightarrow> users_table" where
  "insert_user k flag doc tbl =
     (case tbl k of
        None \<Rightarrow> tbl(k \<mapsto> (flag, doc))
      | Some (old_flag, _) \<Rightarrow> tbl(k \<mapsto> (old_flag, doc)))"

definition upsertUser :: "SlackGhost \<Rightarrow> users_table \<Rightarrow> users_table" where
  "upsertUser user tbl = (let entry = toEntry user in insert_user (id entry) True (EntryDoc entry) tbl)"

definition storeMatrixUser :: "MatrixUser \<Rightarrow> users_table \<Rightarrow> users_table" where
  "storeMatrixUser user tbl = insert_user (mu_id user) False (mu_data user) tbl"

text \<open>\<open>SELECT * FROM users WHERE userId = id\<close>, with no condition on the flag.\<close>

definition getUser :: "users_table \<Rightarrow> string \<Rightarrow> user_doc option" where
  "getUser tbl k = (case tbl k of None \<Rightarrow> None | Some (_, doc) \<Rightarrow> Some doc)"

text \<open>
  \<open>getMatrixUser\<close> first passes the id through the MatrixUser constructor of the bridge
  library (\<open>new MatrixUser(userId).getId()\<close>); that normalisation is the parameter
  \<open>norm\<close>.
\<close>

definition getMatrixUser :: "(string \<Rightarrow> string) \<Rightarrow> users_table \<Rightarrow> string \<Rightarrow> MatrixUser option" where
  "getMatrixUser norm tbl uid =
     (let uid' = norm uid in
      case getUser tbl uid' of
        None \<Rightarrow> None
      | Some userData \<Rightarrow> Some \<lparr> mu_id = uid', mu_data = userData \<rparr>)"

datatype user_op = UpsertUser SlackGhost | StoreMatrixUser MatrixUser

fun apply_user_op :: "user_op \<Rightarrow> users_table \<Rightarrow> users_table" where
  "apply_user_op (UpsertUser g) tbl = upsertUser g tbl"
| "apply_user_op (StoreMatrixUser u) tbl = storeMatrixUser u tbl"

fun op_key :: "user_op \<Rightarrow> string" where
  "op_key (UpsertUser g) = userId g"
| "op_key (StoreMatrixUser u) = mu_id u"

fun op_doc :: "user_op \<Rightarrow> user_doc" where
  "op_doc (UpsertUser g) = EntryDoc (toEntry g)"
| "op_doc (StoreMatrixUser u) = mu_data u"

fun run_user_ops :: "user_op list \<Rightarrow> users_table \<Rightarrow> users_table" where
  "run_user_ops [] tbl = tbl"
| "run_user_ops (x # xs) tbl = run_user_ops xs (apply_user_op x tbl)"

fun last_stored :: "user_op list \<Rightarrow> string \<Rightarrow> user_doc option \<Rightarrow> user_doc option" where
  "last_stored [] k acc = acc"
| "last_stored (x # xs) k acc = last_stored xs k (if op_key x = k then Some (op_doc x) else acc)"

section \<open>getUrlParts (src/SlackHookHandler.ts)\<close>

text \<open>
  \<open>url.match(/^(\/?.*\/)*(.{32})(?:\/(.*))?$/)\<close>. A dot matches every character but a
  line terminator, and without the \<open>m\<close> flag \<open>$\<close> is the end of the input, so a match
  covers the whole URL and the URL holds no line terminator. Group 1 repeated matches
  exactly the empty prefix and the prefixes that end in a slash. Group 2 is the next 32
  characters, then the input ends (group 3 undefined) or a slash follows and group 3 is
  all that comes after it. The repetition and the dots are greedy, so the backtracking
  engine tries the prefixes from the longest to the shortest and the empty one last:
  \<open>url_match\<close> returns the first split that works in that order.
\<close>

definition dot :: "char \<Rightarrow> bool" where
  "dot c \<longleftrightarrow> c \<noteq> CHR 0x0A \<and> c \<noteq> CHR 0x0D"

definition prefix_ok :: "string \<Rightarrow> nat \<Rightarrow> bool" where
  "prefix_ok url p \<longleftrightarrow> p = 0 \<or> (p \<le> length url \<and> url ! (p - 1) = CHR ''/'')"

definition split_at :: "string \<Rightarrow> nat \<Rightarrow> (string \<times> string option) option" where
  "split_at url p =
     (let g2 = take 32 (drop p url); rest = drop (p + 32) url in
      if prefix_ok url p \<and> length g2 = 32 \<and> (rest = [] \<or> hd rest = CHR ''/'')
      then Some (g2, if rest = [] then None else Some (tl rest))
      else None)"

fun first_some :: "('a \<Rightarrow> 'b option) \<Rightarrow> 'a list \<Rightarrow> 'b option" where
  "first_some f [] = None"
| "first_some f (x # xs) = (case f x of Some y \<Rightarrow> Some y | None \<Rightarrow> first_some f xs)"

definition url_match :: "string \<Rightarrow> (string \<times> string option) option" where
  "url_match url =
     (if list_all dot url then first_some (split_at url) (rev [0..<Suc (length url)]) else None)"

record url_parts =
  inboundId :: string
  path :: string

text \<open>\<open>urlMatch[3] || "post"\<close>: an undefined or empty group 3 gives the default.\<close>

definition getUrlParts :: "string \<Rightarrow> error + url_parts" where
  "getUrlParts url =
     (case url_match url of
        None \<Rightarrow> Inl IncorrectUrlFormat
      | Some (g2, g3) \<Rightarrow>
          Inr \<lparr> inboundId = g2,
                path = (case g3 of None \<Rightarrow> ''post'' | Some p \<Rightarrow> if p = [] then ''post'' else p) \<rparr>)"

text \<open>
  The split that handleWebhook applies to the path of a GET request,
  \<open>path.match(/^([^?]+)(?:\?(.*))$/)\<close>: one or more characters other than the question
  mark, the question mark, and the rest of the input, which holds no line terminator.
  The result is \<open>None\<close> where \<open>match\<close> returns \<open>null\<close>.
\<close>

definition split_query :: "string \<Rightarrow> (string \<times> string) option" where
  "split_query p =
     (let g1 = takeWhile (\<lambda>c. c \<noteq> CHR ''?'') p; rest = dropWhile (\<lambda>c. c \<noteq> CHR ''?'') p in
      if g1 \<noteq> [] \<and> rest \<noteq> [] \<and> list_all dot (tl rest) then Some (g1, tl rest) else None)"

section \<open>lookupMessage (src/SlackHookHandler.ts)\<close>

record slack_file =
  file_id :: string
  public_url_shared :: bool
  permalink_public :: "string option"

datatype param = Str string | Arr "string list"

type_synonym params = "string \<rightharpoonup> param"

text \<open>
  A message of the history response. \<open>props\<close> holds the properties that handlePost
  assigns by name afterwards (the \<open>PRESERVE_KEYS\<close>).
\<close>

record slack_message =
  subtype :: "string option"
  msg_file :: "slack_file option"
  msg_text :: "string option"
  props :: params

record history_response =
  ok :: bool
  messages :: "slack_message list option"
  resp_error :: "string option"

text \<open>
  The remote calls of lookupMessage: \<open>client.conversations.history\<close> with the channel
  and the timestamp as both \<open>latest\<close> and \<open>oldest\<close> (of type \<open>'a\<close>: declared as
  strings, and handlePost passes form parameters cast to strings), and the two helpers of
  BaseSlackHandler, which is not among the sources: \<open>enablePublicSharing\<close> (given
  \<open>message.file\<close>, which may be undefined) and \<open>fetchFileContent\<close>. Each may reject.
\<close>

record 'a lookup_env =
  history :: "'a \<Rightarrow> 'a \<Rightarrow> error + history_response"
  enablePublicSharing :: "slack_file option \<Rightarrow> error + slack_file"
  fetchFileContent :: "slack_file \<Rightarrow> error + string option"

definition lookupMessage ::
  "'a lookup_env \<Rightarrow> 'a \<Rightarrow> 'a \<Rightarrow> error + (slack_message \<times> string option)" where
  "lookupMessage env channelID timestamp =
     (case history env channelID timestamp of
        Inl e \<Rightarrow> Inl e
      | Inr response \<Rightarrow>
          (case messages response of
             None \<Rightarrow> Inl CouldNotFindHistory
           | Some ms \<Rightarrow>
               if \<not> ok response \<or> length ms = 0 then Inl CouldNotFindHistory
               else if length ms \<noteq> 1 then Inl Collision
               else
                 let message = ms ! 0 in
                 if subtype message = Some ''file_share'' then
                   (case enablePublicSharing env (msg_file message) of
                      Inl err \<Rightarrow> Inr (message, None)
                    | Inr f \<Rightarrow>
                        (case fetchFileContent env f of
                           Inl err \<Rightarrow> Inr (message\<lparr>msg_file := Some f\<rparr>, None)
                         | Inr content \<Rightarrow> Inr (message\<lparr>msg_file := Some f\<rparr>, content)))
                 else Inr (message, None)))"

section \<open>handleAuthorize (src/SlackHookHandler.ts)\<close>

text \<open>
  BridgedRoom is not among the sources. The handlers read \<open>InboundId\<close>, \<open>isDirty\<close> and
  whether \<open>SlackClient\<close> is set, and assign \<open>SlackChannelName\<close>.
\<close>

record BridgedRoom =
  InboundId :: string
  SlackChannelName :: "string option"
  isDirty :: bool
  SlackClient :: bool

datatype room_or_token = Room BridgedRoom | Token string

record bot_grant =
  bot_access_token :: string

record oauth_response =
  resp_team_id :: string
  resp_user_id :: string
  access_token :: string
  resp_bot :: "bot_grant option"

record authorize_result =
  code :: "nat option"
  html :: string

text \<open>What a handler does to the outside, in order.\<close>

datatype outcome = success | fail | dropped

datatype effect =
    Log string
  | CallExchangeCodeForToken "param option"
  | CallWillExceedTeamLimit string
  | CallCreateTeamClient string
  | CallRevoke
  | CallSetUserAccessToken string string string string bool
  | CallUpsertTeamByToken string
  | CallUpsertRoom BridgedRoom
  | IncCounter
  | CallOnSlackMessageParams params
  | CallOnSlackMessage slack_message "string option"
  | WriteHead nat string
  | Write string
  | End
  | EndTimer outcome

text \<open>
  The collaborators of handleAuthorize: \<open>main.oauth2\<close> (absent when OAuth is not
  configured) with \<open>getUserIdForPreauthToken\<close> and \<open>exchangeCodeForToken\<close>,
  \<open>main.willExceedTeamLimit\<close>, \<open>main.clientFactory.createTeamClient\<close> (the result
  stands for the client), \<open>auth.revoke\<close> on that client, \<open>main.setUserAccessToken\<close>
  and \<open>main.clientFactory.upsertTeamByToken\<close>.
\<close>

record authorize_env =
  oauth2 :: bool
  getUserIdForPreauthToken :: "string \<Rightarrow> string option"
  exchangeCodeForToken :: "param option \<Rightarrow> room_or_token \<Rightarrow> error + oauth_response"
  willExceedTeamLimit :: "string \<Rightarrow> error + bool"
  createTeamClient :: "string \<Rightarrow> error + string"
  revoke :: "string \<Rightarrow> error + unit"
  setUserAccessToken :: "string \<Rightarrow> string \<Rightarrow> string \<Rightarrow> string \<Rightarrow> bool \<Rightarrow> error + unit"
  upsertTeamByToken :: "string \<Rightarrow> error + unit"

definition html_not_configured :: string where
  "html_not_configured = ''OAuth is not configured on this bridge.''"

definition html_token_not_known :: string where
  "html_token_not_known = ''Token not known.''"

definition html_limit_reached :: string where
  "html_limit_reached = ''<h2>Integration Failed</h2>'' @ [CHR 0x0A] @
     ''<p>You have reached the limit of Slack teams that can be bridged to Matrix. Please contact your admin.</p>''"

definition html_failed :: "bool \<Rightarrow> string" where
  "html_failed is_room = ''<h2>Integration Failed</h2>'' @ [CHR 0x0A] @
     ''<p>Unfortunately, your '' @ (if is_room then ''channel integration'' else ''account'') @
     '' did not go as expected...</p>''"

definition html_successful :: "bool \<Rightarrow> string" where
  "html_successful is_room = ''<h2>Integration Successful!</h2>'' @ [CHR 0x0A] @
     ''<p>Your Matrix-Slack '' @ (if is_room then ''channel integration'' else ''account'') @
     '' is now correctly authorized.</p>''"

text \<open>The best-effort revoke inside its own try and catch.\<close>

definition revoke_token :: "authorize_env \<Rightarrow> string \<Rightarrow> effect list" where
  "revoke_token env token =
     (case createTeamClient env token of
        Inl ex \<Rightarrow> [CallCreateTeamClient token, Log ''Additionally failed to revoke the token'']
      | Inr tempClient \<Rightarrow>
          (case revoke env tempClient of
             Inl ex \<Rightarrow> [CallCreateTeamClient token, CallRevoke, Log ''Additionally failed to revoke the token'']
           | Inr _ \<Rightarrow> [CallCreateTeamClient token, CallRevoke]))"

text \<open>
  The body of the outer try for the account-linking flow, after the exchange: \<open>Inl\<close> is
  an exception on its way to the outer catch, \<open>Inr (Some r)\<close> the early return,
  \<open>Inr None\<close> falling out of the try.
\<close>

definition link_account ::
  "authorize_env \<Rightarrow> string \<Rightarrow> oauth_response \<Rightarrow> (error + authorize_result option) \<times> effect list" where
  "link_account env user response =
     (case willExceedTeamLimit env (resp_team_id response) of
        Inl err \<Rightarrow> (Inl err, [CallWillExceedTeamLimit (resp_team_id response)])
      | Inr True \<Rightarrow>
          (Inr (Some \<lparr> code = Some 403, html = html_limit_reached \<rparr>),
           [CallWillExceedTeamLimit (resp_team_id response), Log ''team limit was reached'']
             @ revoke_token env (access_token response))
      | Inr False \<Rightarrow>
          (let call = CallSetUserAccessToken user (resp_team_id response) (resp_user_id response)
                        (access_token response) (resp_bot response = None);
               pre = [CallWillExceedTeamLimit (resp_team_id response), call] in
           case setUserAccessToken env user (resp_team_id response) (resp_user_id response)
                  (access_token response) (resp_bot response = None) of
             Inl err \<Rightarrow> (Inl err, pre)
           | Inr _ \<Rightarrow>
               (case resp_bot response of
                  None \<Rightarrow> (Inr None, pre)
                | Some b \<Rightarrow>
                    (case upsertTeamByToken env (bot_access_token b) of
                       Inl err \<Rightarrow> (Inl err, pre @ [CallUpsertTeamByToken (bot_access_token b)])
                     | Inr _ \<Rightarrow> (Inr None, pre @ [CallUpsertTeamByToken (bot_access_token b)])))))"

definition handleAuthorize ::
  "authorize_env \<Rightarrow> room_or_token \<Rightarrow> params \<Rightarrow> authorize_result \<times> effect list" where
  "handleAuthorize env roomOrToken ps =
     (if \<not> oauth2 env then
        (\<lparr> code = Some 500, html = html_not_configured \<rparr>,
         [Log ''Wasn't expecting to receive /authorize without OAuth2 configured''])
      else
        let user = (case roomOrToken of Token t \<Rightarrow> getUserIdForPreauthToken env t | Room r \<Rightarrow> None);
            is_room = (case roomOrToken of Token t \<Rightarrow> False | Room r \<Rightarrow> True)
        in
        if \<not> is_room \<and> (user = None \<or> user = Some []) then
          (\<lparr> code = Some 500, html = html_token_not_known \<rparr>, [])
        else
          (case exchangeCodeForToken env (ps ''code'') roomOrToken of
             Inl err \<Rightarrow>
               (\<lparr> code = Some 403, html = html_failed is_room \<rparr>,
                [CallExchangeCodeForToken (ps ''code''), Log ''Error during handling of an oauth token''])
           | Inr response \<Rightarrow>
               if is_room then
                 (\<lparr> code = None, html = html_successful is_room \<rparr>,
                  [CallExchangeCodeForToken (ps ''code'')])
               else
                 (case link_account env (the user) response of
                    (Inl err, effs) \<Rightarrow>
                      (\<lparr> code = Some 403, html = html_failed is_room \<rparr>,
                       CallExchangeCodeForToken (ps ''code'') # effs
                         @ [Log ''Error during handling of an oauth token''])
                  | (Inr (Some result), effs) \<Rightarrow>
                      (result, CallExchangeCodeForToken (ps ''code'') # effs)
                  | (Inr None, effs) \<Rightarrow>
                      (\<lparr> code = None, html = html_successful is_room \<rparr>,
                       CallExchangeCodeForToken (ps ''code'') # effs))))"

section \<open>handlePost and handleWebhook (src/SlackHookHandler.ts)\<close>

text \<open>
  Form parameters come from \<open>qs.parse\<close>: a key is absent, or holds a string, or an array
  of strings when it was repeated. \<open>render\<close> is the interpolation of a parameter into a
  template literal, \<open>truthy\<close> its truth value in a condition.
\<close>

fun join_comma :: "string list \<Rightarrow> string" where
  "join_comma [] = []"
| "join_comma [x] = x"
| "join_comma (x # y # ys) = x @ '','' @ join_comma (y # ys)"

fun render :: "param option \<Rightarrow> string" where
  "render None = ''undefined''"
| "render (Some (Str s)) = s"
| "render (Some (Arr xs)) = join_comma xs"

fun truthy :: "param option \<Rightarrow> bool" where
  "truthy None = False"
| "truthy (Some (Str s)) = (s \<noteq> [])"
| "truthy (Some (Arr xs)) = True"

definition PRESERVE_KEYS :: "string list" where
  "PRESERVE_KEYS = [''team_domain'', ''team_id'', ''channel_name'', ''channel_id'', ''user_name'', ''user_id'']"

text \<open>
  Modelled from the spec: the setter of \<open>SlackChannelName\<close> in BridgedRoom, which is not
  among the sources ("refresh the room's cached remote-channel display name and persist
  the room if it changed"): a new name is stored and marks the room dirty.
\<close>

definition set_SlackChannelName :: "BridgedRoom \<Rightarrow> string \<Rightarrow> BridgedRoom" where
  "set_SlackChannelName room name =
     (if SlackChannelName room = Some name then room
      else room\<lparr> SlackChannelName := Some name, isDirty := True \<rparr>)"

text \<open>
  Modelled from the spec: the status codes \<open>HTTP_CODES.OK\<close> and \<open>HTTP_CODES.NOT_FOUND\<close> of
  BaseSlackHandler, which is not among the sources ("acknowledge (200)", "rejected with
  not found").
\<close>

definition HTTP_OK :: nat where
  "HTTP_OK = 200"

definition HTTP_NOT_FOUND :: nat where
  "HTTP_NOT_FOUND = 404"

text \<open>
  The collaborators of handlePost: \<open>main.datastore.upsertRoom\<close>, \<open>room.onSlackMessage\<close>
  (given the form parameters, or a looked-up message and its content), the remote calls
  of lookupMessage and \<open>doChannelUserReplacements\<close> of BaseSlackHandler. Each may reject.
\<close>

record post_env =
  upsertRoom :: "BridgedRoom \<Rightarrow> error + unit"
  onSlackMessageParams :: "params \<Rightarrow> error + unit"
  onSlackMessage :: "slack_message \<Rightarrow> string option \<Rightarrow> error + unit"
  lookup :: "param option lookup_env"
  doChannelUserReplacements :: "slack_message \<Rightarrow> param option \<Rightarrow> error + string"

text \<open>
  handlePost. The result is \<open>Inr ()\<close> when the promise resolves and \<open>Inl\<close> the exception
  when it rejects. The branch that replaces a missing looked-up message by the
  parameters is not modelled: lookupMessage returns a message or throws.
\<close>

definition handlePost :: "post_env \<Rightarrow> BridgedRoom \<Rightarrow> params \<Rightarrow> (error + unit) \<times> effect list" where
  "handlePost env room0 ps =
     (let channelName = render (ps ''team_domain'') @ ''.#'' @ render (ps ''channel_name'');
          room = set_SlackChannelName room0 channelName;
          persisted = (if isDirty room then upsertRoom env room else Inr ());
          effs = (if isDirty room then [CallUpsertRoom room] else [])
      in
      case persisted of
        Inl ex \<Rightarrow> (Inl ex, effs)
      | Inr _ \<Rightarrow>
          if ps ''user_id'' = Some (Str ''USLACKBOT'') then (Inr (), effs)
          else if \<not> SlackClient room then
            (let ps' = ps(''ts'' := (if truthy (ps ''ts'') then ps ''ts'' else ps ''timestamp'')) in
             if truthy (ps' ''text'') then
               (onSlackMessageParams env ps',
                effs @ [IncCounter, Log ''no slack token'', CallOnSlackMessageParams ps'])
             else (Inr (), effs @ [IncCounter, Log ''no slack token'']))
          else
            (case lookupMessage (lookup env) (ps ''channel_id'') (ps ''timestamp'') of
               Inl ex \<Rightarrow> (Inl ex, effs @ [IncCounter])
             | Inr (message, content) \<Rightarrow>
                 (let restored = message\<lparr> props :=
                        (\<lambda>k. if k \<in> set PRESERVE_KEYS then ps k else props message k) \<rparr> in
                  case doChannelUserReplacements env restored (ps ''text'') of
                    Inl ex \<Rightarrow> (Inl ex, effs @ [IncCounter])
                  | Inr t \<Rightarrow>
                      (onSlackMessage env (restored\<lparr> msg_text := Some t \<rparr>) content,
                       effs @ [IncCounter,
                               CallOnSlackMessage (restored\<lparr> msg_text := Some t \<rparr>) content]))))"

text \<open>
  The collaborators of handleWebhook: \<open>main.rooms.getByInboundId\<close>, \<open>qs.parse\<close>, and
  those of handleAuthorize and handlePost.
\<close>

record webhook_env =
  getByInboundId :: "string \<Rightarrow> BridgedRoom option"
  qs_parse :: "string \<Rightarrow> params"
  auth :: authorize_env
  post :: post_env

text \<open>
  handleWebhook. The first component is \<open>None\<close> when the promise resolves and the
  exception when it rejects; the second lists what was done until then. For a GET
  request the result of \<open>path.match\<close> is used without a check (\<open>result![1]\<close>), so
  a path without a match throws a TypeError there.
\<close>

definition handleWebhook ::
  "webhook_env \<Rightarrow> string \<Rightarrow> string \<Rightarrow> params \<Rightarrow> error option \<times> effect list" where
  "handleWebhook env method url ps0 =
     (case getUrlParts url of
        Inl ex \<Rightarrow>
          (None, [Log ''Ignoring message with bad slackhook URL'',
                  WriteHead HTTP_NOT_FOUND ''text/plain'', End, EndTimer dropped])
      | Inr res \<Rightarrow>
          (case (if method = ''GET''
                 then (case split_query (path res) of
                         None \<Rightarrow> None
                       | Some (p, q) \<Rightarrow> Some (p, qs_parse env q))
                 else Some (path res, ps0)) of
             None \<Rightarrow> (Some TypeError, [])
           | Some (path', ps) \<Rightarrow>
               (let room = getByInboundId env (inboundId res) in
                if method = ''GET'' \<and> path' = ''authorize'' then
                  (case handleAuthorize (auth env)
                          (case room of Some r \<Rightarrow> Room r | None \<Rightarrow> Token (inboundId res)) ps of
                     (result, effs) \<Rightarrow>
                       (None, effs @
                          [WriteHead (case code result of
                                        None \<Rightarrow> HTTP_OK
                                      | Some c \<Rightarrow> if c = 0 then HTTP_OK else c) ''text/html'',
                           Write (html result), End, EndTimer success]))
                else
                  (case room of
                     None \<Rightarrow>
                       (None, [Log ''Ignoring message from unrecognised inbound ID'', IncCounter,
                               WriteHead HTTP_OK ''text/plain'', End, EndTimer dropped])
                   | Some r \<Rightarrow>
                       if method = ''POST'' \<and> path' = ''post'' then
                         (case handlePost (post env) r ps of
                            (Inr _, effs) \<Rightarrow>
                              (None, effs @ [EndTimer success,
                                             WriteHead HTTP_OK ''application/json'', End])
                          | (Inl ex, effs) \<Rightarrow>
                              (None, effs @ [EndTimer fail, Log ''handlePost failed'',
                                             WriteHead HTTP_OK ''application/json'', End]))
                       else
                         (None, [Log ''Got call that we can't handle'',
                                 WriteHead HTTP_OK ''application/json'']
                                @ (if method \<noteq> ''HEAD'' then [Write ''{}''] else [])
                                @ [End, EndTimer dropped])))))"

fun timer_outcomes :: "effect list \<Rightarrow> outcome list" where
  "timer_outcomes [] = []"
| "timer_outcomes (EndTimer out # xs) = out # timer_outcomes xs"
| "timer_outcomes (x # xs) = timer_outcomes xs"

fun is_message_handler_call :: "effect \<Rightarrow> bool" where
  "is_message_handler_call (CallOnSlackMessageParams ps) = True"
| "is_message_handler_call (CallOnSlackMessage m c) = True"
| "is_message_handler_call x = False"

section \<open>pg-promise result checks\<close>

text \<open>
  \<open>one\<close> rejects unless the query returned exactly one row, \<open>oneOrNone\<close> rejects when
  it returned more than one. The error is a QueryResultError, whose \<open>code\<close> is a number
  of pg-promise's own and never the SQLSTATE of a PostgreSQL error.
\<close>

fun one :: "'a list \<Rightarrow> error + 'a" where
  "one [r] = Inr r"
| "one rows = Inl QueryResultError"

fun oneOrNone :: "'a list \<Rightarrow> error + 'a option" where
  "oneOrNone [] = Inr None"
| "oneOrNone [r] = Inr (Some r)"
| "oneOrNone rows = Inl QueryResultError"

section \<open>Schema migration (src/datastore/postgres/PgDatastore.ts)\<close>

text \<open>
  The database as ensureSchema sees it: the rows of the table \<open>schema\<close> (its one column
  \<open>version\<close>), or \<open>None\<close> while that table does not exist, and all the rest.
\<close>

record 'd pg_db =
  schema_table :: "int list option"
  tables :: 'd

definition LATEST_SCHEMA :: int where
  "LATEST_SCHEMA = 7"

text \<open>\<open>SELECT version FROM SCHEMA\<close> through \<open>one\<close>.\<close>

definition select_version :: "'d pg_db \<Rightarrow> error + int" where
  "select_version db =
     (case schema_table db of None \<Rightarrow> Inl UndefinedTable | Some rows \<Rightarrow> one rows)"

definition getSchemaVersion :: "'d pg_db \<Rightarrow> error + int" where
  "getSchemaVersion db =
     (case select_version db of
        Inr version \<Rightarrow> Inr version
      | Inl ex \<Rightarrow> if ex = UndefinedTable then Inr 0 else Inl CouldntFetchSchemaVersion)"

text \<open>\<open>UPDATE schema SET version = version\<close>: every row of the table takes the version.\<close>

definition updateSchemaVersion :: "int \<Rightarrow> 'd pg_db \<Rightarrow> error + 'd pg_db" where
  "updateSchemaVersion version db =
     (case schema_table db of
        None \<Rightarrow> Inl UndefinedTable
      | Some rows \<Rightarrow> Inr (db\<lparr> schema_table := Some (map (\<lambda>_. version) rows) \<rparr>))"

text \<open>
  The migration files \<open>schema/v1.ts\<close>, ... are not among the sources: they are the
  parameter \<open>schemas\<close>, from the version number to the \<open>runSchema\<close> of that file, or
  \<open>None\<close> where \<open>require\<close> finds no file. A \<open>runSchema\<close> returns the exception it
  threw, if any, and the database it left behind.

  The loop of ensureSchema carries the list of the versions it has written so far.
\<close>

type_synonym 'd migration = "'d pg_db \<Rightarrow> error option \<times> 'd pg_db"

function ensureSchema_loop ::
  "(int \<Rightarrow> 'd migration option) \<Rightarrow> int \<Rightarrow> 'd pg_db \<Rightarrow> int list \<Rightarrow> (error + unit) \<times> 'd pg_db \<times> int list" where
  "ensureSchema_loop schemas currentVersion db written =
     (if currentVersion < LATEST_SCHEMA then
        (case schemas (currentVersion + 1) of
           None \<Rightarrow> (Inl ModuleNotFound, db, written)
         | Some runSchema \<Rightarrow>
             (case runSchema db of
                (Some ex, db') \<Rightarrow> (Inl FailedToUpdateSchema, db', written)
              | (None, db') \<Rightarrow>
                  (case updateSchemaVersion (currentVersion + 1) db' of
                     Inl ex \<Rightarrow> (Inl FailedToUpdateSchema, db', written)
                   | Inr db'' \<Rightarrow>
                       ensureSchema_loop schemas (currentVersion + 1) db''
                         (written @ [currentVersion + 1]))))
      else (Inr (), db, written))"
  by pat_completeness auto
termination
  by (relation "measure (\<lambda>(schemas, currentVersion, db, written). nat (LATEST_SCHEMA - currentVersion))")
     auto

definition ensureSchema ::
  "(int \<Rightarrow> 'd migration option) \<Rightarrow> 'd pg_db \<Rightarrow> (error + unit) \<times> 'd pg_db \<times> int list" where
  "ensureSchema schemas db =
     (case getSchemaVersion db of
        Inl ex \<Rightarrow> (Inl ex, db, [])
      | Inr currentVersion \<Rightarrow> ensureSchema_loop schemas currentVersion db [])"

text \<open>
  Following the claim: one single-version step runs the migration of version \<open>k\<close> and
  stores \<open>k\<close>; it is \<open>None\<close> when the migration file is missing, the migration throws or
  the version cannot be stored. \<open>migrate_steps schemas v n\<close> is \<open>n\<close> such steps in a row,
  for the versions \<open>v + 1\<close>, ..., \<open>v + n\<close>.
\<close>

definition migrate_step :: "(int \<Rightarrow> 'd migration option) \<Rightarrow> int \<Rightarrow> 'd pg_db \<Rightarrow> 'd pg_db option" where
  "migrate_step schemas k d =
     (case schemas k of
        None \<Rightarrow> None
      | Some runSchema \<Rightarrow>
          (case runSchema d of
             (Some ex, d') \<Rightarrow> None
           | (None, d') \<Rightarrow>
               (case updateSchemaVersion k d' of Inl ex \<Rightarrow> None | Inr d'' \<Rightarrow> Some d'')))"

fun migrate_steps :: "(int \<Rightarrow> 'd migration option) \<Rightarrow> int \<Rightarrow> nat \<Rightarrow> 'd pg_db \<Rightarrow> 'd pg_db option" where
  "migrate_steps schemas v 0 d = Some d"
| "migrate_steps schemas v (Suc n) d =
     (case migrate_step schemas (v + 1) d of
        None \<Rightarrow> None
      | Some d' \<Rightarrow> migrate_steps schemas (v + 1) n d')"

section \<open>The events table (src/datastore/postgres/PgDatastore.ts)\<close>

text \<open>
  \<open>extras\<close> is the field \<open>_extras\<close> of the source, a JSON object, here a list of keys
  and values; the column stores its \<open>JSON.stringify\<close> and the getters return the
  \<open>JSON.parse\<close> of the column, which is the object again.
\<close>

type_synonym extras_json = "(string \<times> string) list"

record EventEntry =
  roomId :: string
  eventId :: string
  slackChannelId :: string
  slackTs :: string
  extras :: extras_json

record event_row =
  roomid :: string
  eventid :: string
  slackchannel :: string
  slackts :: string
  row_extras :: extras_json

datatype column = RoomidCol | EventidCol | SlackchannelCol | SlacktsCol

fun col :: "column \<Rightarrow> event_row \<Rightarrow> string" where
  "col RoomidCol r = roomid r"
| "col EventidCol r = eventid r"
| "col SlackchannelCol r = slackchannel r"
| "col SlacktsCol r = slackts r"

text \<open>
  The declaration of the table (\<open>schema/v1.ts\<close>) is not among the sources. Its unique
  constraints are parameters: the columns of \<open>cons_events_unique\<close>, which the upsert
  names, and the columns of every other unique constraint of the table.
\<close>

record events_schema =
  cons_events_unique :: "column list"
  other_unique :: "column list list"

definition agree :: "column list \<Rightarrow> event_row \<Rightarrow> event_row \<Rightarrow> bool" where
  "agree cols a b = list_all (\<lambda>c. col c a = col c b) cols"

text \<open>
  \<open>INSERT INTO events VALUES(...) ON CONFLICT ON CONSTRAINT cons_events_unique DO UPDATE
  SET extras = ...\<close>: a row that conflicts with the new one on the named constraint takes
  the new extras and nothing is inserted; otherwise a conflict on another unique
  constraint is an error; otherwise the row is added.
\<close>

definition insert_event :: "events_schema \<Rightarrow> event_row \<Rightarrow> event_row list \<Rightarrow> error + event_row list" where
  "insert_event S new tbl =
     (if list_ex (agree (cons_events_unique S) new) tbl then
        Inr (map (\<lambda>r. if agree (cons_events_unique S) new r
                       then r\<lparr> row_extras := row_extras new \<rparr> else r) tbl)
      else if list_ex (\<lambda>r. list_ex (\<lambda>u. agree u new r) (other_unique S)) tbl then
        Inl UniqueViolation
      else Inr (tbl @ [new]))"

text \<open>The two calling forms of upsertEvent: a whole entry, or the four fields and optional extras.\<close>

datatype upsert_args =
    Entry EventEntry
  | Fields string string string string "extras_json option"

fun entry_of :: "upsert_args \<Rightarrow> EventEntry" where
  "entry_of (Entry e) = e"
| "entry_of (Fields roomIdOrEntry eventId' channelId ts extras') =
     \<lparr> roomId = roomIdOrEntry, eventId = eventId', slackChannelId = channelId, slackTs = ts,
       extras = (case extras' of None \<Rightarrow> [] | Some x \<Rightarrow> x) \<rparr>"

definition row_of :: "EventEntry \<Rightarrow> event_row" where
  "row_of entry =
     \<lparr> roomid = roomId entry, eventid = eventId entry, slackchannel = slackChannelId entry,
       slackts = slackTs entry, row_extras = extras entry \<rparr>"

definition upsertEvent :: "events_schema \<Rightarrow> upsert_args \<Rightarrow> event_row list \<Rightarrow> error + event_row list" where
  "upsertEvent S args tbl = insert_event S (row_of (entry_of args)) tbl"

definition getEventByMatrixId :: "event_row list \<Rightarrow> string \<Rightarrow> string \<Rightarrow> error + EventEntry option" where
  "getEventByMatrixId tbl roomId' eventId' =
     (case oneOrNone (filter (\<lambda>r. roomid r = roomId' \<and> eventid r = eventId') tbl) of
        Inl ex \<Rightarrow> Inl ex
      | Inr None \<Rightarrow> Inr None
      | Inr (Some dbEntry) \<Rightarrow>
          Inr (Some \<lparr> roomId = roomId', eventId = eventId',
                      slackChannelId = slackchannel dbEntry, slackTs = slackts dbEntry,
                      extras = row_extras dbEntry \<rparr>))"

definition getEventBySlackId :: "event_row list \<Rightarrow> string \<Rightarrow> string \<Rightarrow> error + EventEntry option" where
  "getEventBySlackId tbl slackChannel slackTs' =
     (case oneOrNone (filter (\<lambda>r. slackchannel r = slackChannel \<and> slackts r = slackTs') tbl) of
        Inl ex \<Rightarrow> Inl ex
      | Inr None \<Rightarrow> Inr None
      | Inr (Some dbEntry) \<Rightarrow>
          Inr (Some \<lparr> roomId = roomid dbEntry, eventId = eventid dbEntry,
                      slackChannelId = slackChannel, slackTs = slackTs',
                      extras = row_extras dbEntry \<rparr>))"

definition ids :: "event_row \<Rightarrow> string \<times> string \<times> string \<times> string" where
  "ids r = (roomid r, eventid r, slackchannel r, slackts r)"

definition covers_a_key :: "column list \<Rightarrow> bool" where
  "covers_a_key cols \<longleftrightarrow>
     (RoomidCol \<in> set cols \<and> EventidCol \<in> set cols) \<or> (SlackchannelCol \<in> set cols \<and> SlacktsCol \<in> set cols)"

section \<open>Profile updates of a ghost (src/SlackGhost.ts)\<close>

record update_message =
  user_id :: "string option"
  user :: "string option"
  username :: "string option"
  user_name :: "string option"
  bot_id :: "string option"

record IConfig =
  display_name_suffix :: "string option"

record bots_info_response =
  bi_ok :: bool
  bot_name :: "string option"
  icons :: "string option list"
    \<comment> \<open>\<open>image_original\<close>, \<open>image_1024\<close>, \<open>image_512\<close>, \<open>image_192\<close>, \<open>image_72\<close>, \<open>image_48\<close>\<close>

text \<open>What a ghost does to the outside: calls of the Intent, remote requests, the datastore, the log.\<close>

datatype ghost_effect =
    GLog string
  | CallBotsInfo string
  | CallUsersInfo string
  | CallSetDisplayName string
  | CallFetch string
  | CallUploadContent "string option" string
  | CallSetAvatarUrl string
  | CallUpsertUser UserEntry

fun is_mutation :: "ghost_effect \<Rightarrow> bool" where
  "is_mutation (CallSetDisplayName n) = True"
| "is_mutation (CallUploadContent m t) = True"
| "is_mutation (CallSetAvatarUrl u) = True"
| "is_mutation (CallUpsertUser e) = True"
| "is_mutation x = False"

text \<open>
  The collaborators: \<open>client.bots.info\<close>, \<open>client.users.info\<close>, the Intent's
  \<open>setDisplayName\<close> and \<open>setAvatarUrl\<close>, the HTTP request \<open>rp\<close> (content type and
  body), the client's \<open>uploadContent\<close> (mimetype, title, body) and whether the datastore
  rejects an upsert of the user.
\<close>

record ghost_env =
  bots_info :: "string \<Rightarrow> error + bots_info_response"
  users_info :: "string \<Rightarrow> error + users_info_response"
  setDisplayName :: "string \<Rightarrow> error + unit"
  setAvatarUrl :: "string \<Rightarrow> error + unit"
  rp :: "string \<Rightarrow> error + (string option \<times> string)"
  uploadContent :: "string option \<Rightarrow> string \<Rightarrow> string \<Rightarrow> error + string"
  datastore_rejects :: "UserEntry \<Rightarrow> error option"

type_synonym world = "SlackGhost \<times> users_table"

text \<open>A string in a condition is true when it is defined and not empty; \<open>a || b\<close> on strings.\<close>

fun truthy_str :: "string option \<Rightarrow> bool" where
  "truthy_str None = False"
| "truthy_str (Some s) = (s \<noteq> [])"

definition or_else :: "string option \<Rightarrow> string option \<Rightarrow> string option" where
  "or_else a b = (if truthy_str a then a else b)"

fun first_truthy :: "string option list \<Rightarrow> string option" where
  "first_truthy [] = None"
| "first_truthy [x] = x"
| "first_truthy (x # xs) = or_else x (first_truthy xs)"

definition interpolate :: "string option \<Rightarrow> string" where
  "interpolate v = (case v of None \<Rightarrow> ''undefined'' | Some t \<Rightarrow> t)"

text \<open>
  An asynchronous method runs up to an await, is suspended there, and goes on when the
  awaited promise settles. A suspended operation is recorded as the await it stands at,
  with the values of the local variables that the rest of the method reads.

  lookupUserInfo stands at one of three awaits: in its caller after the cache answered
  (the user), on the request already in flight (\<open>existingReq\<close>, by what it settles to),
  or on the request it has just sent. The timer that empties the cache after
  \<open>USER_CACHE_TIMEOUT\<close> is left out.
\<close>

datatype lookup_await =
    FromCache slack_user
  | FromInFlight "error + users_info_response"
  | FromRequest

text \<open>
  The awaits of updateDisplayname: \<open>client.bots.info\<close> inside getBotName (the bot id),
  lookupUserInfo inside getDisplayname, \<open>intent.setDisplayName\<close> (the new name) and
  \<open>datastore.upsertUser\<close> (the entry that \<open>toEntry\<close> gave when the call was made).
\<close>

datatype name_await =
    NameBotsInfo string
  | NameUserInfo lookup_await
  | NameSetDisplayName string
  | NameUpsertUser UserEntry

text \<open>
  The awaits of updateAvatar: \<open>client.bots.info\<close> inside getBotAvatarUrl, lookupUserInfo
  inside lookupAvatarUrl, \<open>rp\<close> (url, hash, title), \<open>uploadContent\<close> (hash, mimetype,
  title, body), \<open>intent.setAvatarUrl\<close> (hash, content uri) and \<open>datastore.upsertUser\<close>.
\<close>

datatype avatar_await =
    AvatarBotsInfo string
  | AvatarUserInfo lookup_await
  | AvatarRp string "string option" string
  | AvatarUploadContent "string option" "string option" string string
  | AvatarSetAvatarUrl "string option" string
  | AvatarUpsertUser UserEntry

datatype pending = Displayname name_await | Avatar avatar_await

datatype op_kind = OpDisplayname | OpAvatar

fun kind_of :: "pending \<Rightarrow> op_kind" where
  "kind_of (Displayname a) = OpDisplayname"
| "kind_of (Avatar a) = OpAvatar"

text \<open>lookupUserInfo up to its await: the state, and what the call logged and sent.\<close>

definition lookupUserInfo_call :: "ghost_env \<Rightarrow> SlackGhost \<Rightarrow> lookup_await \<times> SlackGhost \<times> ghost_effect list" where
  "lookupUserInfo_call env g =
     (case userInfoCache g of
        Some cached \<Rightarrow> (FromCache cached, g, [GLog ''Using cached userInfo''])
      | None \<Rightarrow>
          (case userInfoLoading g of
             Some existingReq \<Rightarrow> (FromInFlight existingReq, g, [])
           | None \<Rightarrow>
               (FromRequest, g\<lparr> userInfoLoading := Some (users_info env (slackId g)) \<rparr>,
                [GLog ''Using fresh userInfo'', CallUsersInfo (slackId g)])))"

text \<open>lookupUserInfo from its await on: the user it returns, or the exception.\<close>

definition lookupUserInfo_resume ::
  "ghost_env \<Rightarrow> lookup_await \<Rightarrow> SlackGhost \<Rightarrow> (error + slack_user option) \<times> SlackGhost \<times> ghost_effect list" where
  "lookupUserInfo_resume env a g =
     (case a of
        FromCache cached \<Rightarrow> (Inr (Some cached), g, [])
      | FromInFlight existingReq \<Rightarrow>
          (case existingReq of
             Inl ex \<Rightarrow> (Inl ex, g, [])
           | Inr response \<Rightarrow> (Inr (resp_user response), g, []))
      | FromRequest \<Rightarrow>
          (case users_info env (slackId g) of
             Inl ex \<Rightarrow> (Inl ex, g, [])
           | Inr response \<Rightarrow>
               (case resp_user response of
                  None \<Rightarrow> (Inr None, g, [GLog ''Failed to get user profile''])
                | Some u \<Rightarrow>
                    if profile u = None then (Inr None, g, [GLog ''Failed to get user profile''])
                    else (Inr (Some u), g\<lparr> userInfoCache := Some u, userInfoLoading := None \<rparr>, []))))"

text \<open>What getDisplayname makes of the user that lookupUserInfo returned.\<close>

definition profile_name :: "slack_user option \<Rightarrow> string option" where
  "profile_name u =
     (case u of
        None \<Rightarrow> None
      | Some usr \<Rightarrow>
          (case profile usr of
             None \<Rightarrow> None
           | Some p \<Rightarrow> or_else (display_name_p p) (real_name p)))"

text \<open>What lookupAvatarUrl makes of it: the url and the hash, or undefined.\<close>

definition profile_avatar :: "slack_user option \<Rightarrow> (string \<times> string option) option" where
  "profile_avatar u =
     (case u of
        None \<Rightarrow> None
      | Some usr \<Rightarrow>
          (case profile usr of
             None \<Rightarrow> None
           | Some p \<Rightarrow>
               (case first_truthy (images p) of
                  None \<Rightarrow> None
                | Some url \<Rightarrow> if url = [] then None else Some (url, avatar_hash p))))"

text \<open>getBotName and getBotAvatarUrl from the await of \<open>client.bots.info\<close> on.\<close>

definition getBotName_resume :: "ghost_env \<Rightarrow> string \<Rightarrow> (error + string option) \<times> ghost_effect list" where
  "getBotName_resume env botId =
     (case bots_info env botId of
        Inl ex \<Rightarrow> (Inl ex, [])
      | Inr response \<Rightarrow>
          if \<not> bi_ok response \<or> \<not> truthy_str (bot_name response) then
            (Inr None, [GLog ''Failed to get bot name''])
          else (Inr (bot_name response), []))"

definition getBotAvatarUrl_resume :: "ghost_env \<Rightarrow> string \<Rightarrow> (error + string option) \<times> ghost_effect list" where
  "getBotAvatarUrl_resume env botId =
     (case bots_info env botId of
        Inl ex \<Rightarrow> (Inl ex, [])
      | Inr response \<Rightarrow>
          if \<not> bi_ok response then (Inr None, [GLog ''Failed to get bot name''])
          else
            (let icon = first_truthy (icons response) in
             if \<not> truthy_str icon then (Inr None, [GLog ''No suitable icon for bot''])
             else (Inr icon, [])))"

text \<open>
  updateDisplayname from the candidate name to the call of \<open>intent.setDisplayName\<close>: it
  returns, or it logs, makes the call and awaits it.
\<close>

definition setDisplayName_call :: "IConfig \<Rightarrow> string option \<Rightarrow> SlackGhost \<Rightarrow> name_await option \<times> ghost_effect list" where
  "setDisplayName_call config candidate g =
     (if \<not> truthy_str candidate then (None, [])
      else
        (let displayName = the candidate @ interpolate (display_name_suffix config) in
         if displayname g = Some displayName then (None, [])
         else (Some (NameSetDisplayName displayName),
               [GLog ''Updating displayname'', CallSetDisplayName displayName])))"

text \<open>updateDisplayname up to its first await (\<open>None\<close> when it returns before any).\<close>

definition updateDisplayname_call ::
  "ghost_env \<Rightarrow> update_message \<Rightarrow> BridgedRoom \<Rightarrow> IConfig \<Rightarrow> SlackGhost
     \<Rightarrow> name_await option \<times> SlackGhost \<times> ghost_effect list" where
  "updateDisplayname_call env message room config g =
     (let displayName = or_else (username message) (user_name message) in
      if SlackClient room then
        (if truthy_str (bot_id message) \<and> truthy_str (user_id message) then (None, g, [])
         else if truthy_str (bot_id message) then
           (Some (NameBotsInfo (the (bot_id message))), g, [CallBotsInfo (the (bot_id message))])
         else if truthy_str (user_id message) then
           (case lookupUserInfo_call env g of (a, g', effs) \<Rightarrow> (Some (NameUserInfo a), g', effs))
         else (case setDisplayName_call config displayName g of (p, effs) \<Rightarrow> (p, g, effs)))
      else (case setDisplayName_call config displayName g of (p, effs) \<Rightarrow> (p, g, effs)))"

text \<open>
  updateDisplayname from an await on, up to the next one: \<open>Inl\<close> when it throws,
  \<open>Inr None\<close> when it returns, \<open>Inr (Some a)\<close> when it is suspended again.
\<close>

definition updateDisplayname_resume ::
  "ghost_env \<Rightarrow> IConfig \<Rightarrow> name_await \<Rightarrow> world \<Rightarrow> (error + name_await option) \<times> world \<times> ghost_effect list" where
  "updateDisplayname_resume env config a w =
     (case w of (g, tbl) \<Rightarrow>
        (case a of
           NameBotsInfo botId \<Rightarrow>
             (case getBotName_resume env botId of
                (Inl ex, effs) \<Rightarrow> (Inl ex, w, effs)
              | (Inr n, effs) \<Rightarrow>
                  (case setDisplayName_call config n g of (p, effs') \<Rightarrow> (Inr p, w, effs @ effs')))
         | NameUserInfo l \<Rightarrow>
             (case lookupUserInfo_resume env l g of
                (Inl ex, g', effs) \<Rightarrow> (Inl ex, (g', tbl), effs)
              | (Inr u, g', effs) \<Rightarrow>
                  (case setDisplayName_call config (profile_name u) g' of
                     (p, effs') \<Rightarrow> (Inr p, (g', tbl), effs @ effs')))
         | NameSetDisplayName displayName \<Rightarrow>
             (case setDisplayName env displayName of
                Inl ex \<Rightarrow> (Inl ex, w, [])
              | Inr _ \<Rightarrow>
                  (Inr (Some (NameUpsertUser (toEntry (g\<lparr> displayname := Some displayName \<rparr>)))),
                   (g\<lparr> displayname := Some displayName \<rparr>, tbl),
                   [CallUpsertUser (toEntry (g\<lparr> displayname := Some displayName \<rparr>))]))
         | NameUpsertUser entry \<Rightarrow>
             (case datastore_rejects env entry of
                Some ex \<Rightarrow> (Inl ex, w, [])
              | None \<Rightarrow> (Inr None, (g, insert_user (id entry) True (EntryDoc entry) tbl), []))))"

text \<open>
  \<open>avatarUrl.match(/\/([^\/]+)$/)\<close>: the characters after the last slash, when there is a
  slash and something after it.
\<close>

definition last_segment :: "string \<Rightarrow> string option" where
  "last_segment url =
     (let seg = rev (takeWhile (\<lambda>c. c \<noteq> CHR ''/'') (rev url)) in
      if seg \<noteq> [] \<and> length seg < length url then Some seg else None)"

text \<open>
  updateAvatar from the comparison of the hashes to the call of \<open>rp\<close>. \<open>match\<close> is the
  hash itself when that is a non-empty string, and \<open>match[1]\<close> then its second character;
  with no hash, \<open>avatarUrl.match\<close> throws when the url is undefined.
\<close>

definition rp_call :: "string option \<Rightarrow> string option \<Rightarrow> SlackGhost \<Rightarrow> (error + avatar_await option) \<times> ghost_effect list" where
  "rp_call avatarUrl hash g =
     (if avatarHash g = hash then (Inr None, [])
      else
        (case (if truthy_str hash
               then (if 2 \<le> length (the hash) then Inr hash else Inr None)
               else (case avatarUrl of
                       None \<Rightarrow> Inl TypeError
                     | Some url \<Rightarrow> Inr (last_segment url))) of
           Inl ex \<Rightarrow> (Inl ex, [])
         | Inr None \<Rightarrow> (Inr None, [])
         | Inr (Some title) \<Rightarrow>
             (case avatarUrl of
                None \<Rightarrow> (Inl TypeError, [GLog ''Updating avatar''])
              | Some url \<Rightarrow>
                  (Inr (Some (AvatarRp url hash title)), [GLog ''Updating avatar'', CallFetch url]))))"

text \<open>updateAvatar up to its first await.\<close>

definition updateAvatar_call ::
  "ghost_env \<Rightarrow> update_message \<Rightarrow> BridgedRoom \<Rightarrow> SlackGhost
     \<Rightarrow> avatar_await option \<times> SlackGhost \<times> ghost_effect list" where
  "updateAvatar_call env message room g =
     (if \<not> SlackClient room then (None, g, [])
      else if truthy_str (bot_id message) \<and> truthy_str (user_id message) then (None, g, [])
      else if truthy_str (bot_id message) then
        (Some (AvatarBotsInfo (the (bot_id message))), g, [CallBotsInfo (the (bot_id message))])
      else if truthy_str (user_id message) then
        (case lookupUserInfo_call env g of (a, g', effs) \<Rightarrow> (Some (AvatarUserInfo a), g', effs))
      else (None, g, []))"

text \<open>updateAvatar from an await on, up to the next one.\<close>

definition updateAvatar_resume ::
  "ghost_env \<Rightarrow> avatar_await \<Rightarrow> world \<Rightarrow> (error + avatar_await option) \<times> world \<times> ghost_effect list" where
  "updateAvatar_resume env a w =
     (case w of (g, tbl) \<Rightarrow>
        (case a of
           AvatarBotsInfo botId \<Rightarrow>
             (case getBotAvatarUrl_resume env botId of
                (Inl ex, effs) \<Rightarrow> (Inl ex, w, effs)
              | (Inr avatarUrl, effs) \<Rightarrow>
                  (case rp_call avatarUrl avatarUrl g of (r, effs') \<Rightarrow> (r, w, effs @ effs')))
         | AvatarUserInfo l \<Rightarrow>
             (case lookupUserInfo_resume env l g of
                (Inl ex, g', effs) \<Rightarrow> (Inl ex, (g', tbl), effs)
              | (Inr u, g', effs) \<Rightarrow>
                  (case profile_avatar u of
                     None \<Rightarrow> (Inr None, (g', tbl), effs)
                   | Some (url, hash) \<Rightarrow>
                       (case rp_call (Some url) hash g' of (r, effs') \<Rightarrow> (r, (g', tbl), effs @ effs'))))
         | AvatarRp url hash title \<Rightarrow>
             (case rp env url of
                Inl ex \<Rightarrow> (Inl ex, w, [])
              | Inr (mimetype, body) \<Rightarrow>
                  (Inr (Some (AvatarUploadContent hash mimetype title body)), w,
                   [CallUploadContent mimetype title]))
         | AvatarUploadContent hash mimetype title body \<Rightarrow>
             (case uploadContent env mimetype title body of
                Inl ex \<Rightarrow> (Inl ex, w, [])
              | Inr contentUri \<Rightarrow>
                  (Inr (Some (AvatarSetAvatarUrl hash contentUri)), w,
                   [GLog ''Media uploaded'', CallSetAvatarUrl contentUri]))
         | AvatarSetAvatarUrl hash contentUri \<Rightarrow>
             (case setAvatarUrl env contentUri of
                Inl ex \<Rightarrow> (Inl ex, w, [])
              | Inr _ \<Rightarrow>
                  (Inr (Some (AvatarUpsertUser (toEntry (g\<lparr> avatarHash := hash \<rparr>)))),
                   (g\<lparr> avatarHash := hash \<rparr>, tbl),
                   [CallUpsertUser (toEntry (g\<lparr> avatarHash := hash \<rparr>))]))
         | AvatarUpsertUser entry \<Rightarrow>
             (case datastore_rejects env entry of
                Some ex \<Rightarrow> (Inl ex, w, [])
              | None \<Rightarrow> (Inr None, (g, insert_user (id entry) True (EntryDoc entry) tbl), []))))"

definition resume_op ::
  "ghost_env \<Rightarrow> IConfig \<Rightarrow> pending \<Rightarrow> world \<Rightarrow> (error + pending option) \<times> world \<times> ghost_effect list" where
  "resume_op env config p w =
     (case p of
        Displayname a \<Rightarrow>
          (case updateDisplayname_resume env config a w of
             (Inl ex, w', effs) \<Rightarrow> (Inl ex, w', effs)
           | (Inr r, w', effs) \<Rightarrow> (Inr (map_option Displayname r), w', effs))
      | Avatar a \<Rightarrow>
          (case updateAvatar_resume env a w of
             (Inl ex, w', effs) \<Rightarrow> (Inl ex, w', effs)
           | (Inr r, w', effs) \<Rightarrow> (Inr (map_option Avatar r), w', effs)))"

text \<open>The line that the \<open>catch\<close> of \<open>update\<close> logs when an operation rejects.\<close>

fun failure_log :: "op_kind \<Rightarrow> ghost_effect" where
  "failure_log OpDisplayname = GLog ''Failed to update ghost displayname''"
| "failure_log OpAvatar = GLog ''Failed to update ghost avatar''"

text \<open>
  The turns of the event loop that concern the updates of one ghost. Calls of \<open>update\<close>
  are told apart by a number.
  \<^item> \<open>Call i message\<close>: \<open>update\<close> is called and runs up to its await: the check of
    \<open>updateInProgress\<close>, and either the return, or the flag set and the two operations
    called one after the other, each running up to its first await.
  \<^item> \<open>Resume i kind\<close>: the promise that an operation of call \<open>i\<close> awaits settles (with
    what the collaborator answers) and the operation runs up to its next await or to its
    end; when it rejects, the \<open>catch\<close> logs. An operation that awaits the request in
    flight cannot go on while that request is still awaited by the operation that sent
    it.
  \<^item> \<open>Complete i\<close>: both operations of call \<open>i\<close> have ended and \<open>update\<close> goes on
    after its await: it logs and clears the flag.

  \<open>suspended\<close> lists the operations that stand at an await, \<open>started\<close> the calls
  that are past the check and not completed, \<open>trace\<close> what was done, by which call.
\<close>

datatype update_event = Call nat update_message | Resume nat op_kind | Complete nat

record ghost_sys =
  ghost :: SlackGhost
  users :: users_table
  suspended :: "(nat \<times> pending) list"
  started :: "nat list"
  trace :: "(nat \<times> ghost_effect) list"

fun awaits_in_flight :: "pending \<Rightarrow> bool" where
  "awaits_in_flight (Displayname (NameUserInfo (FromInFlight r))) = True"
| "awaits_in_flight (Avatar (AvatarUserInfo (FromInFlight r))) = True"
| "awaits_in_flight p = False"

fun awaits_request :: "pending \<Rightarrow> bool" where
  "awaits_request (Displayname (NameUserInfo FromRequest)) = True"
| "awaits_request (Avatar (AvatarUserInfo FromRequest)) = True"
| "awaits_request p = False"

definition is_op :: "nat \<Rightarrow> op_kind \<Rightarrow> nat \<times> pending \<Rightarrow> bool" where
  "is_op i kind c \<longleftrightarrow> fst c = i \<and> kind_of (snd c) = kind"

fun update_step :: "ghost_env \<Rightarrow> BridgedRoom \<Rightarrow> IConfig \<Rightarrow> update_event \<Rightarrow> ghost_sys \<Rightarrow> ghost_sys" where
  "update_step env room config (Call i message) s =
     (if updateInProgress (ghost s) then
        s\<lparr> trace := trace s @ [(i, GLog ''Not updating: Update in progress.'')] \<rparr>
      else
        (case updateDisplayname_call env message room config ((ghost s)\<lparr> updateInProgress := True \<rparr>) of
           (p1, g1, effs1) \<Rightarrow>
             (case updateAvatar_call env message room g1 of
                (p2, g2, effs2) \<Rightarrow>
                  s\<lparr> ghost := g2,
                     suspended := suspended s
                       @ (case p1 of None \<Rightarrow> [] | Some a \<Rightarrow> [(i, Displayname a)])
                       @ (case p2 of None \<Rightarrow> [] | Some a \<Rightarrow> [(i, Avatar a)]),
                     started := started s @ [i],
                     trace := trace s
                       @ map (Pair i) ([GLog ''Updating user information''] @ effs1 @ effs2) \<rparr>)))"
| "update_step env room config (Resume i kind) s =
     (case find (is_op i kind) (suspended s) of
        None \<Rightarrow> s
      | Some (_, p) \<Rightarrow>
          if awaits_in_flight p \<and> list_ex (\<lambda>c. awaits_request (snd c)) (suspended s) then s
          else
            (case resume_op env config p (ghost s, users s) of
               (r, (g, tbl), effs) \<Rightarrow>
                 s\<lparr> ghost := g,
                    users := tbl,
                    suspended := (case r of
                              Inr (Some p') \<Rightarrow> map (\<lambda>c. if is_op i kind c then (i, p') else c) (suspended s)
                            | _ \<Rightarrow> filter (\<lambda>c. \<not> is_op i kind c) (suspended s)),
                    trace := trace s
                      @ map (Pair i) (effs @ (case r of Inl ex \<Rightarrow> [failure_log kind] | Inr _ \<Rightarrow> [])) \<rparr>))"
| "update_step env room config (Complete i) s =
     (if i \<in> set (started s) \<and> \<not> list_ex (\<lambda>c. fst c = i) (suspended s) then
        s\<lparr> ghost := (ghost s)\<lparr> updateInProgress := False \<rparr>,
           started := removeAll i (started s),
           trace := trace s @ [(i, GLog ''Completed update'')] \<rparr>
      else s)"

fun run_updates :: "ghost_env \<Rightarrow> BridgedRoom \<Rightarrow> IConfig \<Rightarrow> update_event list \<Rightarrow> ghost_sys \<Rightarrow> ghost_sys" where
  "run_updates env room config [] s = s"
| "run_updates env room config (e # es) s = run_updates env room config es (update_step env room config e s)"

fun is_resume :: "update_event \<Rightarrow> bool" where
  "is_resume (Resume i kind) = True"
| "is_resume e = False"

fun is_call_of :: "nat \<Rightarrow> update_event \<Rightarrow> bool" where
  "is_call_of j (Call i message) = (i = j)"
| "is_call_of j e = False"

text \<open>The identifiers of a ghost, which no operation assigns after the constructor.\<close>

definition same_ids :: "SlackGhost \<Rightarrow> SlackGhost \<Rightarrow> bool" where
  "same_ids a b \<longleftrightarrow> slackId a = slackId b \<and> teamId a = teamId b \<and> userId a = userId b"

definition kept :: "SlackGhost \<Rightarrow> SlackGhost \<Rightarrow> bool" where
  "kept g' g \<longleftrightarrow> same_ids g' g \<and> updateInProgress g' = updateInProgress g"

text \<open>A call that has no suspended operation and is not among the started ones.\<close>

definition inactive :: "nat \<Rightarrow> ghost_sys \<Rightarrow> bool" where
  "inactive j s \<longleftrightarrow> j \<notin> set (started s) \<and> \<not> list_ex (\<lambda>c. fst c = j) (suspended s)"

fun event_call :: "update_event \<Rightarrow> nat" where
  "event_call (Call i message) = i"
| "event_call (Resume i kind) = i"
| "event_call (Complete i) = i"

section \<open>Properties\<close>

lemma of_char_upper: "is_lower c \<Longrightarrow> (of_char (toUpperCaseChar c) :: nat) = of_char c - 32"
proof -
  assume l: "is_lower c"
  define n where "n = (of_char c :: nat)"
  from l have "n \<le> 122" by (simp add: is_lower_def n_def)
  then have "(n - 32) mod 256 = n - 32" by simp
  with l show ?thesis by (simp add: toUpperCaseChar_def n_def)
qed

lemma not_lower_toUpperCaseChar: "\<not> is_lower (toUpperCaseChar c)"
proof (cases "is_lower c")
  case True
  define n where "n = (of_char c :: nat)"
  from True have eq: "(of_char (toUpperCaseChar c) :: nat) = n - 32"
    unfolding n_def by (rule of_char_upper)
  from True have "n \<le> 122" by (simp add: is_lower_def n_def)
  then have "\<not> (97 \<le> n - 32)" by arith
  with eq show ?thesis by (simp add: is_lower_def)
next
  case False
  then show ?thesis by (simp add: toUpperCaseChar_def)
qed

lemma toUpperCaseChar_fix: "\<not> is_lower c \<Longrightarrow> toUpperCaseChar c = c"
  by (simp add: toUpperCaseChar_def)

lemma toUpperCase_no_lower: "list_all (\<lambda>c. \<not> is_lower c) (toUpperCase s)"
  by (induction s) (simp_all add: toUpperCase_def not_lower_toUpperCaseChar)

lemma toUpperCase_idem: "toUpperCase (toUpperCase s) = toUpperCase s"
  by (simp add: toUpperCase_def toUpperCaseChar_fix not_lower_toUpperCaseChar)

lemma getUser_insert_same: "getUser (insert_user k flag doc tbl) k = Some doc"
  by (simp add: getUser_def insert_user_def split: option.splits prod.splits)

lemma getUser_insert_other: "k' \<noteq> k \<Longrightarrow> getUser (insert_user k flag doc tbl) k' = getUser tbl k'"
  by (simp add: getUser_def insert_user_def split: option.splits prod.splits)

lemma apply_user_op_insert: "apply_user_op x tbl = insert_user (op_key x) (case x of UpsertUser _ \<Rightarrow> True | StoreMatrixUser _ \<Rightarrow> False) (op_doc x) tbl"
  by (cases x) (simp_all add: upsertUser_def storeMatrixUser_def toEntry_def Let_def)

lemma getUser_apply_same: "getUser (apply_user_op x tbl) (op_key x) = Some (op_doc x)"
  by (simp add: apply_user_op_insert getUser_insert_same)

lemma getUser_apply_other: "k \<noteq> op_key x \<Longrightarrow> getUser (apply_user_op x tbl) k = getUser tbl k"
  by (simp add: apply_user_op_insert getUser_insert_other)

lemma getUser_run_user_ops:
  "getUser (run_user_ops ops tbl) k = last_stored ops k (getUser tbl k)"
proof (induction ops arbitrary: tbl)
  case Nil
  show ?case by simp
next
  case (Cons x xs)
  show ?case
  proof (cases "op_key x = k")
    case True
    then show ?thesis using Cons.IH [of "apply_user_op x tbl"] getUser_apply_same [of x tbl]
      by auto
  next
    case False
    then show ?thesis using Cons.IH [of "apply_user_op x tbl"] getUser_apply_other [of k x tbl]
      by auto
  qed
qed

subsection \<open>getUrlParts\<close>

lemma first_some_None: "first_some f xs = None \<longleftrightarrow> (\<forall>x\<in>set xs. f x = None)"
  by (induction xs) (auto split: option.splits)

lemma first_some_Some: "first_some f xs = Some y \<Longrightarrow> \<exists>x\<in>set xs. f x = Some y"
  by (induction xs) (auto split: option.splits)

lemma split_at_Some_decomp:
  assumes "split_at url p = Some (g2, g3)"
  shows "\<exists>pre rest. url = pre @ g2 @ rest \<and> (pre = [] \<or> last pre = CHR ''/'') \<and> length g2 = 32
           \<and> (rest = [] \<or> hd rest = CHR ''/'')
           \<and> g3 = (if rest = [] then None else Some (tl rest))"
proof -
  from assms have ok: "prefix_ok url p" and len: "length (take 32 (drop p url)) = 32"
    and g2: "g2 = take 32 (drop p url)"
    and rest: "drop (p + 32) url = [] \<or> hd (drop (p + 32) url) = CHR ''/''"
    and g3: "g3 = (if drop (p + 32) url = [] then None else Some (tl (drop (p + 32) url)))"
    by (auto simp: split_at_def Let_def split: if_splits)
  from len have p: "p + 32 \<le> length url" by simp
  have url: "url = take p url @ g2 @ drop (p + 32) url"
    unfolding g2 by (metis add.commute append_take_drop_id drop_drop)
  have pre: "take p url = [] \<or> last (take p url) = CHR ''/''"
  proof (cases "p = 0")
    case True then show ?thesis by simp
  next
    case False
    with ok have "url ! (p - 1) = CHR ''/''" by (simp add: prefix_ok_def)
    moreover have "last (take p url) = url ! (p - 1)"
    proof -
      from False p have ne: "take p url \<noteq> []" by auto
      from p have l: "length (take p url) = p" by simp
      from False have "p - 1 < p" by simp
      then have "take p url ! (p - 1) = url ! (p - 1)" by (rule nth_take)
      with ne l show ?thesis by (simp add: last_conv_nth)
    qed
    ultimately show ?thesis by simp
  qed
  from url pre len g2 rest g3 show ?thesis by blast
qed

lemma split_at_decomp_Some:
  assumes "length g2 = 32" and "pre = [] \<or> last pre = CHR ''/''" and "rest = [] \<or> hd rest = CHR ''/''"
  shows "split_at (pre @ g2 @ rest) (length pre) = Some (g2, if rest = [] then None else Some (tl rest))"
proof -
  have "prefix_ok (pre @ g2 @ rest) (length pre)"
  proof (cases "pre = []")
    case True then show ?thesis by (simp add: prefix_ok_def)
  next
    case False
    with assms(2) have "last pre = CHR ''/''" by simp
    with False have "(pre @ g2 @ rest) ! (length pre - 1) = CHR ''/''"
      by (simp add: nth_append last_conv_nth)
    then show ?thesis by (simp add: prefix_ok_def)
  qed
  with assms show ?thesis by (simp add: split_at_def Let_def)
qed

lemma url_match_None_iff:
  "url_match url = None \<longleftrightarrow>
     \<not> (list_all dot url \<and> (\<exists>pre g2 rest. url = pre @ g2 @ rest \<and> (pre = [] \<or> last pre = CHR ''/'')
           \<and> length g2 = 32 \<and> (rest = [] \<or> hd rest = CHR ''/'')))"
proof (cases "list_all dot url")
  case False
  then show ?thesis by (simp add: url_match_def)
next
  case True
  show ?thesis
  proof
    assume n: "url_match url = None"
    have "\<not> (\<exists>pre g2 rest. url = pre @ g2 @ rest \<and> (pre = [] \<or> last pre = CHR ''/'')
           \<and> length g2 = 32 \<and> (rest = [] \<or> hd rest = CHR ''/''))"
    proof
      assume "\<exists>pre g2 rest. url = pre @ g2 @ rest \<and> (pre = [] \<or> last pre = CHR ''/'')
           \<and> length g2 = 32 \<and> (rest = [] \<or> hd rest = CHR ''/'')"
      then obtain pre g2 rest where u: "url = pre @ g2 @ rest" and a: "pre = [] \<or> last pre = CHR ''/''"
        and b: "length g2 = 32" and c: "rest = [] \<or> hd rest = CHR ''/''" by blast
      from split_at_decomp_Some [OF b a c] u have s: "split_at url (length pre) \<noteq> None" by simp
      from u have "length pre \<in> set (rev [0..<Suc (length url)])" by simp
      with n True s show False by (simp add: url_match_def first_some_None del: upt_Suc)
    qed
    then show "\<not> (list_all dot url \<and> (\<exists>pre g2 rest. url = pre @ g2 @ rest \<and> (pre = [] \<or> last pre = CHR ''/'')
           \<and> length g2 = 32 \<and> (rest = [] \<or> hd rest = CHR ''/'')))" by blast
  next
    assume d: "\<not> (list_all dot url \<and> (\<exists>pre g2 rest. url = pre @ g2 @ rest \<and> (pre = [] \<or> last pre = CHR ''/'')
           \<and> length g2 = 32 \<and> (rest = [] \<or> hd rest = CHR ''/'')))"
    show "url_match url = None"
    proof (rule ccontr)
      assume "url_match url \<noteq> None"
      then obtain g2 g3 where "url_match url = Some (g2, g3)" by auto
      with True have "first_some (split_at url) (rev [0..<Suc (length url)]) = Some (g2, g3)"
        by (simp add: url_match_def)
      then obtain p where "split_at url p = Some (g2, g3)" by (blast dest: first_some_Some)
      from split_at_Some_decomp [OF this] d True show False by blast
    qed
  qed
qed

lemma getUrlParts_error_iff:
  "getUrlParts url = Inl e \<longleftrightarrow> e = IncorrectUrlFormat \<and> url_match url = None"
  by (auto simp: getUrlParts_def split: option.splits)

lemma url_match_inbound_length:
  "url_match url = Some (g2, g3) \<Longrightarrow> length g2 = 32"
  by (auto simp: url_match_def split_at_def Let_def split: if_splits dest!: first_some_Some)

text \<open>
  Claim C7, as stated, fails: for \<open>/abc/<32 characters>/authorize?x=1\<close> the path that
  getUrlParts returns still carries the query string, and a URL of 32 characters made of
  short slash-separated pieces is accepted whole as the inbound id.
\<close>

theorem getUrlParts_authorize_counterexample:
  "getUrlParts ''/abc/01234567890123456789012345678901/authorize?x=1''
     \<noteq> Inr \<lparr> inboundId = ''01234567890123456789012345678901'', path = ''authorize'' \<rparr>
   \<and> getUrlParts ''/aaa/bbb/ccc/ddd/eee/fff/ggg/hhh''
     = Inr \<lparr> inboundId = ''/aaa/bbb/ccc/ddd/eee/fff/ggg/hhh'', path = ''post'' \<rparr>"
proof -
  have "getUrlParts ''/abc/01234567890123456789012345678901/authorize?x=1''
     = Inr \<lparr> inboundId = ''01234567890123456789012345678901'', path = ''authorize?x=1'' \<rparr>"
    by code_simp
  moreover have "getUrlParts ''/aaa/bbb/ccc/ddd/eee/fff/ggg/hhh''
     = Inr \<lparr> inboundId = ''/aaa/bbb/ccc/ddd/eee/fff/ggg/hhh'', path = ''post'' \<rparr>"
    by code_simp
  ultimately show ?thesis by simp
qed

text \<open>
  Claim C7, amended. For \<open>/abc/01234567890123456789012345678901/authorize?x=1\<close>
  getUrlParts returns the 32 characters as inbound id and \<open>authorize?x=1\<close> as path; the
  split that handleWebhook applies to a GET path then gives \<open>authorize\<close> and the query
  \<open>x=1\<close>. getUrlParts throws the incorrect-format error exactly when the URL holds a
  line terminator or cannot be cut into a prefix that is empty or ends in a slash, then
  32 characters (any characters, slashes too), then nothing or a slash and the rest; so
  it throws for every URL shorter than 32 characters, and an inbound id it returns has
  32 characters.
\<close>

theorem getUrlParts_amended:
  "getUrlParts ''/abc/01234567890123456789012345678901/authorize?x=1''
     = Inr \<lparr> inboundId = ''01234567890123456789012345678901'', path = ''authorize?x=1'' \<rparr>
   \<and> split_query ''authorize?x=1'' = Some (''authorize'', ''x=1'')
   \<and> (getUrlParts url = Inl IncorrectUrlFormat \<longleftrightarrow>
        \<not> (list_all dot url \<and>
           (\<exists>pre g2 rest. url = pre @ g2 @ rest \<and> (pre = [] \<or> last pre = CHR ''/'')
              \<and> length g2 = 32 \<and> (rest = [] \<or> hd rest = CHR ''/''))))
   \<and> (length url < 32 \<longrightarrow> getUrlParts url = Inl IncorrectUrlFormat)
   \<and> (\<forall>parts. getUrlParts url = Inr parts \<longrightarrow> length (inboundId parts) = 32)"
proof -
  have a: "getUrlParts ''/abc/01234567890123456789012345678901/authorize?x=1''
     = Inr \<lparr> inboundId = ''01234567890123456789012345678901'', path = ''authorize?x=1'' \<rparr>"
    by code_simp
  have b: "split_query ''authorize?x=1'' = Some (''authorize'', ''x=1'')"
    by code_simp
  have c: "getUrlParts url = Inl IncorrectUrlFormat \<longleftrightarrow>
        \<not> (list_all dot url \<and>
           (\<exists>pre g2 rest. url = pre @ g2 @ rest \<and> (pre = [] \<or> last pre = CHR ''/'')
              \<and> length g2 = 32 \<and> (rest = [] \<or> hd rest = CHR ''/'')))"
    unfolding getUrlParts_error_iff url_match_None_iff by simp
  have d: "length url < 32 \<Longrightarrow> getUrlParts url = Inl IncorrectUrlFormat"
  proof -
    assume "length url < 32"
    then have "\<not> (\<exists>pre g2 rest. url = pre @ g2 @ rest \<and> length (g2 :: string) = 32)" by auto
    then show ?thesis unfolding c by blast
  qed
  have e: "\<forall>parts. getUrlParts url = Inr parts \<longrightarrow> length (inboundId parts) = 32"
    by (auto simp: getUrlParts_def split: option.splits dest: url_match_inbound_length)
  from a b c d e show ?thesis by blast
qed

theorem getUrlParts_amended_witness:
  "getUrlParts ''/slack/post'' = Inl IncorrectUrlFormat
   \<and> length (inboundId \<lparr> inboundId = ''01234567890123456789012345678901'', path = ''authorize?x=1'' \<rparr>) = 32"
proof -
  have "length ''/slack/post'' < 32" by simp
  then show ?thesis using getUrlParts_amended [of "''/slack/post''"]
    by simp
qed

subsection \<open>Ghost identifiers\<close>

lemma kept_refl: "kept g g"
  by (simp add: kept_def same_ids_def)

lemma kept_trans: "kept a b \<Longrightarrow> kept b c \<Longrightarrow> kept a c"
  by (simp add: kept_def same_ids_def)

lemma lookupUserInfo_call_kept:
  "lookupUserInfo_call env g = (a, g', effs) \<Longrightarrow> kept g' g"
  by (auto simp: lookupUserInfo_call_def kept_def same_ids_def split: option.splits)

lemma lookupUserInfo_resume_kept:
  "lookupUserInfo_resume env a g = (r, g', effs) \<Longrightarrow> kept g' g"
  by (auto simp: lookupUserInfo_resume_def kept_def same_ids_def
      split: lookup_await.splits option.splits sum.splits if_splits)

lemma updateDisplayname_call_kept:
  "updateDisplayname_call env message room config g = (p, g', effs) \<Longrightarrow> kept g' g"
  by (auto simp: updateDisplayname_call_def Let_def kept_refl
      split: if_splits prod.splits dest: lookupUserInfo_call_kept)

lemma updateAvatar_call_kept:
  "updateAvatar_call env message room g = (p, g', effs) \<Longrightarrow> kept g' g"
  by (auto simp: updateAvatar_call_def kept_refl
      split: if_splits prod.splits dest: lookupUserInfo_call_kept)

lemma updateDisplayname_resume_kept:
  "updateDisplayname_resume env config a (g, tbl) = (r, (g', tbl'), effs) \<Longrightarrow> kept g' g"
  by (auto simp: updateDisplayname_resume_def kept_refl
      split: name_await.splits prod.splits sum.splits option.splits
      dest: lookupUserInfo_resume_kept)
     (simp_all add: kept_def same_ids_def)

lemma updateAvatar_resume_kept:
  "updateAvatar_resume env a (g, tbl) = (r, (g', tbl'), effs) \<Longrightarrow> kept g' g"
  by (auto simp: updateAvatar_resume_def kept_refl
      split: avatar_await.splits prod.splits sum.splits option.splits
      dest: lookupUserInfo_resume_kept)
     (simp_all add: kept_def same_ids_def)

lemma resume_op_kept:
  "resume_op env config p (g, tbl) = (r, (g', tbl'), effs) \<Longrightarrow> kept g' g"
  by (auto simp: resume_op_def split: pending.splits prod.splits sum.splits
      dest: updateDisplayname_resume_kept updateAvatar_resume_kept)

lemma update_step_resume_kept: "kept (ghost (update_step env room config (Resume i kind) s)) (ghost s)"
proof (cases "find (is_op i kind) (suspended s)")
  case None
  then show ?thesis by (simp add: kept_refl)
next
  case (Some c)
  obtain i' p where c: "c = (i', p)" by (cases c)
  obtain r g tbl effs where ro: "resume_op env config p (ghost s, users s) = (r, (g, tbl), effs)"
    by (metis prod.collapse)
  from resume_op_kept [OF ro] Some c ro show ?thesis
    by (simp add: kept_refl)
qed

lemma update_step_same_ids: "same_ids (ghost (update_step env room config ev s)) (ghost s)"
proof (cases ev)
  case (Call i message)
  show ?thesis
  proof (cases "updateInProgress (ghost s)")
    case True
    with Call show ?thesis by (simp add: same_ids_def)
  next
    case False
    obtain p1 g1 effs1 where a: "updateDisplayname_call env message room config ((ghost s)\<lparr> updateInProgress := True \<rparr>) = (p1, g1, effs1)"
      by (metis prod.collapse)
    obtain p2 g2 effs2 where b: "updateAvatar_call env message room g1 = (p2, g2, effs2)"
      by (metis prod.collapse)
    from updateDisplayname_call_kept [OF a] updateAvatar_call_kept [OF b]
    have "same_ids g2 (ghost s)" by (simp add: kept_def same_ids_def)
    with Call False a b show ?thesis by simp
  qed
next
  case (Resume i kind)
  with update_step_resume_kept [of env room config i kind s] show ?thesis by (simp add: kept_def)
next
  case (Complete i)
  then show ?thesis by (simp add: same_ids_def)
qed

lemma run_updates_same_ids: "same_ids (ghost (run_updates env room config evs s)) (ghost s)"
proof (induction evs arbitrary: s)
  case Nil
  show ?case by (simp add: same_ids_def)
next
  case (Cons e es)
  from Cons.IH [of "update_step env room config e s"] update_step_same_ids [of env room config e s]
  show ?case by (simp add: same_ids_def)
qed

text \<open>
  Claim C6. A ghost constructed from any ASCII slack id and team id holds the upper case
  of both (an absent team id stays absent): the entry that \<open>toEntry\<close> produces carries
  \<open>toUpperCase\<close> of the ids given to the constructor, neither contains a lower-case
  letter, upper-casing them again changes nothing, and \<open>upsertUser\<close> persists exactly
  that entry under the ghost's user id. The same holds for a ghost built by
  \<open>fromEntry\<close> from an entry with ASCII ids, and after any sequence of turns of profile
  updates the entry of the ghost still carries these ids.
\<close>

theorem ghost_ids_uppercase:
  assumes "list_all is_ascii sid" and "\<forall>t. tid = Some t \<longrightarrow> list_all is_ascii t"
    and "list_all is_ascii (slack_id entry)"
    and "\<forall>t. team_id entry = Some t \<longrightarrow> list_all is_ascii t"
  shows "slack_id (toEntry (new_SlackGhost sid tid uid dn ah)) = toUpperCase sid
   \<and> list_all (\<lambda>c. \<not> is_lower c) (slack_id (toEntry (new_SlackGhost sid tid uid dn ah)))
   \<and> toUpperCase (slack_id (toEntry (new_SlackGhost sid tid uid dn ah))) = slack_id (toEntry (new_SlackGhost sid tid uid dn ah))
   \<and> team_id (toEntry (new_SlackGhost sid tid uid dn ah)) = map_option toUpperCase tid
   \<and> (case team_id (toEntry (new_SlackGhost sid tid uid dn ah)) of None \<Rightarrow> tid = None
        | Some t \<Rightarrow> list_all (\<lambda>c. \<not> is_lower c) t \<and> toUpperCase t = t)
   \<and> getUser (upsertUser (new_SlackGhost sid tid uid dn ah) tbl) uid = Some (EntryDoc (toEntry (new_SlackGhost sid tid uid dn ah)))
   \<and> slack_id (toEntry (fromEntry entry)) = toUpperCase (slack_id entry)
   \<and> team_id (toEntry (fromEntry entry)) = map_option toUpperCase (team_id entry)
   \<and> (\<forall>s. ghost s = (new_SlackGhost sid tid uid dn ah) \<longrightarrow>
         slack_id (toEntry (ghost (run_updates env room config evs s))) = toUpperCase sid
         \<and> team_id (toEntry (ghost (run_updates env room config evs s))) = map_option toUpperCase tid)"
proof -
  define e where "e = toEntry (new_SlackGhost sid tid uid dn ah)"
  have s: "slack_id e = toUpperCase sid"
    by (simp add: e_def toEntry_def new_SlackGhost_def)
  have t: "team_id e = map_option toUpperCase tid"
    by (cases tid) (simp_all add: e_def toEntry_def new_SlackGhost_def toUpperCase_def)
  have c: "(case team_id e of None \<Rightarrow> tid = None
            | Some t \<Rightarrow> list_all (\<lambda>c. \<not> is_lower c) t \<and> toUpperCase t = t)"
    unfolding t by (cases tid) (simp_all add: toUpperCase_no_lower toUpperCase_idem)
  have u: "getUser (upsertUser (new_SlackGhost sid tid uid dn ah) tbl) uid = Some (EntryDoc e)"
    by (simp add: upsertUser_def Let_def e_def getUser_insert_same toEntry_def new_SlackGhost_def)
  have f1: "slack_id (toEntry (fromEntry entry)) = toUpperCase (slack_id entry)"
    by (simp add: fromEntry_def toEntry_def new_SlackGhost_def)
  have f2: "team_id (toEntry (fromEntry entry)) = map_option toUpperCase (team_id entry)"
    by (cases "team_id entry") (simp_all add: fromEntry_def toEntry_def new_SlackGhost_def toUpperCase_def)
  have r: "slack_id (toEntry (ghost (run_updates env room config evs s))) = toUpperCase sid
         \<and> team_id (toEntry (ghost (run_updates env room config evs s))) = map_option toUpperCase tid"
    if "ghost s = new_SlackGhost sid tid uid dn ah" for s
  proof -
    from run_updates_same_ids [of env room config evs s] that
    have "slackId (ghost (run_updates env room config evs s)) = slackId (new_SlackGhost sid tid uid dn ah)"
      and "teamId (ghost (run_updates env room config evs s)) = teamId (new_SlackGhost sid tid uid dn ah)"
      by (simp_all add: same_ids_def)
    with s t show ?thesis by (simp add: toEntry_def e_def)
  qed
  from s t c u f1 f2 r show ?thesis
    unfolding e_def by (simp add: toUpperCase_no_lower toUpperCase_idem)
qed

theorem ghost_ids_uppercase_witness:
  "slack_id (toEntry (new_SlackGhost ''u01aBc'' (Some ''t9xyZ'') ''@slack_u01abc:hs'' None None)) = ''U01ABC''
   \<and> team_id (toEntry (new_SlackGhost ''u01aBc'' (Some ''t9xyZ'') ''@slack_u01abc:hs'' None None)) = Some ''T9XYZ''
   \<and> slack_id (toEntry (fromEntry
        \<lparr> avatar_url = None, display_name = None, id = ''@slack_u01abc:hs'',
          slack_id = ''u01aBc'', team_id = Some ''t9xyZ'' \<rparr>)) = ''U01ABC''"
proof -
  let ?e = "\<lparr> avatar_url = None, display_name = None, id = ''@slack_u01abc:hs'',
          slack_id = ''u01aBc'', team_id = Some ''t9xyZ'' \<rparr>"
  have v1: "toUpperCase ''u01aBc'' = ''U01ABC''" by code_simp
  have v2: "toUpperCase ''t9xyZ'' = ''T9XYZ''" by code_simp
  have a1: "list_all is_ascii ''u01aBc''" by code_simp
  have a2: "\<forall>t. Some ''t9xyZ'' = Some t \<longrightarrow> list_all is_ascii t"
  proof -
    have "list_all is_ascii ''t9xyZ''" by code_simp
    then show ?thesis by simp
  qed
  have a3: "list_all is_ascii (slack_id ?e)"
  proof -
    have "list_all is_ascii ''u01aBc''" by code_simp
    then show ?thesis by simp
  qed
  have a4: "\<forall>t. team_id ?e = Some t \<longrightarrow> list_all is_ascii t"
    using a2 by simp
  show ?thesis
    using ghost_ids_uppercase [OF a1 a2 a3 a4, where uid = "''@slack_u01abc:hs''" and dn = None and ah = None
        and tbl = Map.empty]
    by (simp add: v1 v2)
qed

subsection \<open>Point lookup of users\<close>

text \<open>
  Claim C9. \<open>getUser\<close> does not look at the kind flag: after \<open>upsertUser\<close> it returns the
  ghost's entry, after \<open>storeMatrixUser\<close> it returns the matrix user's data, after any
  sequence of the two it returns the document of the last one that wrote under the id
  (or what was there before, when none did), and \<open>getMatrixUser\<close> returns a ghost's
  entry written by \<open>upsertUser\<close> when the normalised id is the ghost's user id.
\<close>

theorem getUser_ignores_kind_flag:
  "getUser (upsertUser g tbl) (userId g) = Some (EntryDoc (toEntry g))
   \<and> getUser (storeMatrixUser u tbl) (mu_id u) = Some (mu_data u)
   \<and> getUser (run_user_ops ops tbl) k = last_stored ops k (getUser tbl k)
   \<and> (norm uid = userId g \<longrightarrow>
        getMatrixUser norm (upsertUser g tbl) uid
          = Some \<lparr> mu_id = userId g, mu_data = EntryDoc (toEntry g) \<rparr>)"
proof -
  have a: "getUser (upsertUser g tbl) (userId g) = Some (EntryDoc (toEntry g))"
    using getUser_apply_same [of "UpsertUser g" tbl] by simp
  have b: "getUser (storeMatrixUser u tbl) (mu_id u) = Some (mu_data u)"
    using getUser_apply_same [of "StoreMatrixUser u" tbl] by simp
  have d: "norm uid = userId g \<Longrightarrow>
        getMatrixUser norm (upsertUser g tbl) uid
          = Some \<lparr> mu_id = userId g, mu_data = EntryDoc (toEntry g) \<rparr>"
    using a by (simp add: getMatrixUser_def Let_def)
  from a b d show ?thesis
    by (simp add: getUser_run_user_ops)
qed

theorem getUser_ignores_kind_flag_witness:
  "getUser (storeMatrixUser \<lparr> mu_id = ''@a:hs'', mu_data = DataDoc [(''localpart'', ''a'')] \<rparr>
      (upsertUser (new_SlackGhost ''u1'' None ''@a:hs'' None None) Map.empty)) ''@a:hs''
     = Some (DataDoc [(''localpart'', ''a'')])
   \<and> getMatrixUser (\<lambda>x. x) (upsertUser (new_SlackGhost ''u1'' None ''@a:hs'' None None) Map.empty) ''@a:hs''
     = Some \<lparr> mu_id = ''@a:hs'',
              mu_data = EntryDoc (toEntry (new_SlackGhost ''u1'' None ''@a:hs'' None None)) \<rparr>"
  using getUser_ignores_kind_flag
    [of "new_SlackGhost ''u1'' None ''@a:hs'' None None" Map.empty
        "\<lparr> mu_id = ''@a:hs'', mu_data = DataDoc [(''localpart'', ''a'')] \<rparr>"
        "[UpsertUser (new_SlackGhost ''u1'' None ''@a:hs'' None None),
          StoreMatrixUser \<lparr> mu_id = ''@a:hs'', mu_data = DataDoc [(''localpart'', ''a'')] \<rparr>]"
        "''@a:hs''" "\<lambda>x. x" "''@a:hs''"]
  by (simp add: new_SlackGhost_def)

subsection \<open>History lookup\<close>

text \<open>
  Claim C2. When the history query answers: a response that is not \<open>ok\<close>, or carries
  no message list, or an empty one, makes lookupMessage fail with the
  could-not-find-history error; an \<open>ok\<close> response with two or more messages makes it
  fail with the collision error; an \<open>ok\<close> response with exactly one message makes it
  return that message and never fail. A message that is not a file share comes back
  as it is with no content. For a file share, when making the file public fails the
  message comes back as it is with no content; when that succeeds the message comes back
  with the shared file in its \<open>file\<close> field (nothing else changes), together with
  the fetched content, or with no content when the fetch fails.
\<close>

theorem lookupMessage_cases:
  assumes "history env channelID timestamp = Inr response"
  shows "(\<not> ok response \<or> messages response = None \<or> messages response = Some []
            \<longrightarrow> lookupMessage env channelID timestamp = Inl CouldNotFindHistory)
       \<and> (\<forall>ms. ok response \<and> messages response = Some ms \<and> 2 \<le> length ms
            \<longrightarrow> lookupMessage env channelID timestamp = Inl Collision)
       \<and> (\<forall>m. ok response \<and> messages response = Some [m] \<longrightarrow>
            (\<exists>m' content. lookupMessage env channelID timestamp = Inr (m', content)
                \<and> m'\<lparr>msg_file := msg_file m\<rparr> = m)
          \<and> (subtype m \<noteq> Some ''file_share'' \<longrightarrow>
                lookupMessage env channelID timestamp = Inr (m, None))
          \<and> (subtype m = Some ''file_share'' \<longrightarrow>
               (case enablePublicSharing env (msg_file m) of
                  Inl err \<Rightarrow> lookupMessage env channelID timestamp = Inr (m, None)
                | Inr f \<Rightarrow>
                   (case fetchFileContent env f of
                      Inl err \<Rightarrow> lookupMessage env channelID timestamp = Inr (m\<lparr>msg_file := Some f\<rparr>, None)
                    | Inr content \<Rightarrow>
                        lookupMessage env channelID timestamp = Inr (m\<lparr>msg_file := Some f\<rparr>, content)))))"
proof -
  have zero: "\<not> ok response \<or> messages response = None \<or> messages response = Some []
      \<Longrightarrow> lookupMessage env channelID timestamp = Inl CouldNotFindHistory"
    using assms by (auto simp add: lookupMessage_def split: option.splits)
  have many: "ok response \<and> messages response = Some ms \<and> 2 \<le> length ms
      \<Longrightarrow> lookupMessage env channelID timestamp = Inl Collision" for ms
    using assms by (auto simp add: lookupMessage_def)
  have one: "lookupMessage env channelID timestamp =
      (if subtype m = Some ''file_share'' then
         (case enablePublicSharing env (msg_file m) of
            Inl err \<Rightarrow> Inr (m, None)
          | Inr f \<Rightarrow>
              (case fetchFileContent env f of
                 Inl err \<Rightarrow> Inr (m\<lparr>msg_file := Some f\<rparr>, None)
               | Inr content \<Rightarrow> Inr (m\<lparr>msg_file := Some f\<rparr>, content)))
       else Inr (m, None))" if "ok response \<and> messages response = Some [m]" for m
    using assms that by (simp add: lookupMessage_def Let_def)
  have same: "\<exists>m' content. lookupMessage env channelID timestamp = Inr (m', content)
                \<and> m'\<lparr>msg_file := msg_file m\<rparr> = m" if "ok response \<and> messages response = Some [m]" for m
    unfolding one [OF that] by (auto split: sum.splits)
  have plain: "subtype m \<noteq> Some ''file_share'' \<Longrightarrow>
                lookupMessage env channelID timestamp = Inr (m, None)"
    if "ok response \<and> messages response = Some [m]" for m
    unfolding one [OF that] by simp
  have share: "subtype m = Some ''file_share'' \<Longrightarrow>
               (case enablePublicSharing env (msg_file m) of
                  Inl err \<Rightarrow> lookupMessage env channelID timestamp = Inr (m, None)
                | Inr f \<Rightarrow>
                   (case fetchFileContent env f of
                      Inl err \<Rightarrow> lookupMessage env channelID timestamp = Inr (m\<lparr>msg_file := Some f\<rparr>, None)
                    | Inr content \<Rightarrow>
                        lookupMessage env channelID timestamp = Inr (m\<lparr>msg_file := Some f\<rparr>, content)))"
    if "ok response \<and> messages response = Some [m]" for m
    unfolding one [OF that] by (simp split: sum.splits)
  from zero many same plain share show ?thesis by blast
qed

theorem lookupMessage_cases_witness:
  "lookupMessage
     \<lparr> history = (\<lambda>c t. Inr \<lparr> ok = True,
              messages = Some [\<lparr> subtype = Some ''file_share'', msg_file = None,
                                 msg_text = Some ''hello'', props = Map.empty \<rparr>],
              resp_error = None \<rparr>),
       enablePublicSharing = (\<lambda>f. Inl TypeError),
       fetchFileContent = (\<lambda>f. Inr None) \<rparr> ''C123'' ''1585000000.000100''
   = Inr (\<lparr> subtype = Some ''file_share'', msg_file = None,
             msg_text = Some ''hello'', props = Map.empty \<rparr>, None)
   \<and> lookupMessage
     \<lparr> history = (\<lambda>c t. Inr \<lparr> ok = True, messages = Some [], resp_error = None \<rparr>),
       enablePublicSharing = (\<lambda>f. Inl TypeError),
       fetchFileContent = (\<lambda>f. Inr None) \<rparr> ''C123'' ''1585000000.000100''
   = Inl CouldNotFindHistory"
  using lookupMessage_cases
     [of "\<lparr> history = (\<lambda>c t. Inr \<lparr> ok = True,
              messages = Some [\<lparr> subtype = Some ''file_share'', msg_file = None,
                                 msg_text = Some ''hello'', props = Map.empty \<rparr>],
              resp_error = None \<rparr>),
       enablePublicSharing = (\<lambda>f. Inl TypeError),
       fetchFileContent = (\<lambda>f. Inr None) \<rparr>" "''C123''" "''1585000000.000100''"
       "\<lparr> ok = True,
              messages = Some [\<lparr> subtype = Some ''file_share'', msg_file = None,
                                 msg_text = Some ''hello'', props = Map.empty \<rparr>],
              resp_error = None \<rparr>"]
    lookupMessage_cases
     [of "\<lparr> history = (\<lambda>c t. Inr \<lparr> ok = True, messages = Some [], resp_error = None \<rparr>),
       enablePublicSharing = (\<lambda>f. Inl TypeError),
       fetchFileContent = (\<lambda>f. Inr None) \<rparr>" "''C123''" "''1585000000.000100''"
       "\<lparr> ok = True, messages = Some [], resp_error = None \<rparr>"]
  by simp

subsection \<open>Team limit on account linking\<close>

text \<open>
  Claim C5. In the account-linking flow (a pre-auth token that resolves to a user, OAuth
  configured), when the code exchange succeeds and \<open>willExceedTeamLimit\<close> answers true,
  handleAuthorize returns code 403 with the limit page; it tries to revoke the token
  (it asks for a client with the access token and, when it gets one, calls revoke); a
  failure of either step only adds a log line and changes nothing of the result; and it
  calls neither \<open>setUserAccessToken\<close> nor \<open>upsertTeamByToken\<close>.
\<close>

theorem handleAuthorize_team_limit:
  assumes "oauth2 env"
    and "getUserIdForPreauthToken env tok = Some linker" and "linker \<noteq> []"
    and "exchangeCodeForToken env (ps ''code'') (Token tok) = Inr response"
    and "willExceedTeamLimit env (resp_team_id response) = Inr True"
  shows "fst (handleAuthorize env (Token tok) ps) = \<lparr> code = Some 403, html = html_limit_reached \<rparr>
       \<and> snd (handleAuthorize env (Token tok) ps) =
           [CallExchangeCodeForToken (ps ''code''), CallWillExceedTeamLimit (resp_team_id response),
            Log ''team limit was reached''] @ revoke_token env (access_token response)
       \<and> CallCreateTeamClient (access_token response) \<in> set (snd (handleAuthorize env (Token tok) ps))
       \<and> (\<forall>c. createTeamClient env (access_token response) = Inr c \<longrightarrow>
              CallRevoke \<in> set (snd (handleAuthorize env (Token tok) ps)))
       \<and> (\<forall>c e. createTeamClient env (access_token response) = Inl e
               \<or> (createTeamClient env (access_token response) = Inr c \<and> revoke env c = Inl e) \<longrightarrow>
              Log ''Additionally failed to revoke the token'' \<in> set (snd (handleAuthorize env (Token tok) ps)))
       \<and> (\<forall>x \<in> set (snd (handleAuthorize env (Token tok) ps)).
             (\<forall>a b c d e. x \<noteq> CallSetUserAccessToken a b c d e) \<and> (\<forall>t. x \<noteq> CallUpsertTeamByToken t))"
proof -
  have r: "handleAuthorize env (Token tok) ps =
      (\<lparr> code = Some 403, html = html_limit_reached \<rparr>,
       [CallExchangeCodeForToken (ps ''code''), CallWillExceedTeamLimit (resp_team_id response),
            Log ''team limit was reached''] @ revoke_token env (access_token response))"
    using assms by (simp add: handleAuthorize_def link_account_def Let_def)
  have t: "set (revoke_token env token) \<subseteq>
      {CallCreateTeamClient token, CallRevoke, Log ''Additionally failed to revoke the token''}" for token
    by (auto simp: revoke_token_def split: sum.splits)
  have c: "CallCreateTeamClient token \<in> set (revoke_token env token)" for token
    by (auto simp: revoke_token_def split: sum.splits)
  have v: "createTeamClient env token = Inr c \<Longrightarrow> CallRevoke \<in> set (revoke_token env token)" for token c
    by (auto simp: revoke_token_def split: sum.splits)
  have l: "createTeamClient env token = Inl e
               \<or> (createTeamClient env token = Inr c \<and> revoke env c = Inl e) \<Longrightarrow>
              Log ''Additionally failed to revoke the token'' \<in> set (revoke_token env token)" for token c e
    by (auto simp: revoke_token_def split: sum.splits)
  have n: "\<forall>x \<in> set (revoke_token env token).
             (\<forall>a b c d e. x \<noteq> CallSetUserAccessToken a b c d e) \<and> (\<forall>t. x \<noteq> CallUpsertTeamByToken t)" for token
    using t [of token] by auto
  show ?thesis
    unfolding r using c v l n by (simp (no_asm_simp))
qed

theorem handleAuthorize_team_limit_witness:
  "handleAuthorize
     \<lparr> oauth2 = True,
       getUserIdForPreauthToken = (\<lambda>t. if t = ''0123456789abcdef0123456789abcdef'' then Some ''@alice:hs'' else None),
       exchangeCodeForToken = (\<lambda>c r. Inr \<lparr> resp_team_id = ''T1'', resp_user_id = ''U1'',
                                            access_token = ''xoxp-1'', resp_bot = Some \<lparr> bot_access_token = ''xoxb-1'' \<rparr> \<rparr>),
       willExceedTeamLimit = (\<lambda>t. Inr True),
       createTeamClient = (\<lambda>t. Inr t),
       revoke = (\<lambda>c. Inl (External ''revoke failed'')),
       setUserAccessToken = (\<lambda>a b c d e. Inr ()),
       upsertTeamByToken = (\<lambda>t. Inr ()) \<rparr>
     (Token ''0123456789abcdef0123456789abcdef'') [''code'' \<mapsto> Str ''abc'']
   = (\<lparr> code = Some 403, html = html_limit_reached \<rparr>,
      [CallExchangeCodeForToken (Some (Str ''abc'')), CallWillExceedTeamLimit ''T1'',
       Log ''team limit was reached'', CallCreateTeamClient ''xoxp-1'', CallRevoke,
       Log ''Additionally failed to revoke the token''])"
proof -
  let ?env = "\<lparr> oauth2 = True,
       getUserIdForPreauthToken = (\<lambda>t. if t = ''0123456789abcdef0123456789abcdef'' then Some ''@alice:hs'' else None),
       exchangeCodeForToken = (\<lambda>c r. Inr \<lparr> resp_team_id = ''T1'', resp_user_id = ''U1'',
                                            access_token = ''xoxp-1'', resp_bot = Some \<lparr> bot_access_token = ''xoxb-1'' \<rparr> \<rparr>),
       willExceedTeamLimit = (\<lambda>t. Inr True),
       createTeamClient = (\<lambda>t. Inr t),
       revoke = (\<lambda>c. Inl (External ''revoke failed'')),
       setUserAccessToken = (\<lambda>a b c d e. Inr ()),
       upsertTeamByToken = (\<lambda>t. Inr ()) \<rparr>"
  have h1: "oauth2 ?env" by simp
  have h2: "getUserIdForPreauthToken ?env ''0123456789abcdef0123456789abcdef'' = Some ''@alice:hs''" by simp
  have h3: "''@alice:hs'' \<noteq> []" by simp
  have h4: "exchangeCodeForToken ?env ([''code'' \<mapsto> Str ''abc''] ''code'') (Token ''0123456789abcdef0123456789abcdef'')
     = Inr \<lparr> resp_team_id = ''T1'', resp_user_id = ''U1'',
                                            access_token = ''xoxp-1'', resp_bot = Some \<lparr> bot_access_token = ''xoxb-1'' \<rparr> \<rparr>" by simp
  have h5: "willExceedTeamLimit ?env (resp_team_id \<lparr> resp_team_id = ''T1'', resp_user_id = ''U1'',
                                            access_token = ''xoxp-1'', resp_bot = Some \<lparr> bot_access_token = ''xoxb-1'' \<rparr> \<rparr>) = Inr True" by simp
  show ?thesis
    using handleAuthorize_team_limit [where env = ?env and tok = "''0123456789abcdef0123456789abcdef''"
        and linker = "''@alice:hs''" and ps = "[''code'' \<mapsto> Str ''abc'']", OF h1 h2 h3 h4 h5]
    by (simp add: revoke_token_def prod_eq_iff)
qed


subsection \<open>The request timer\<close>

lemma timer_outcomes_append: "timer_outcomes (xs @ ys) = timer_outcomes xs @ timer_outcomes ys"
  by (induction xs rule: timer_outcomes.induct) simp_all

lemma timer_outcomes_revoke_token: "timer_outcomes (revoke_token env token) = []"
  by (simp add: revoke_token_def split: sum.splits)

lemma timer_outcomes_link_account: "timer_outcomes (snd (link_account env u response)) = []"
  by (simp add: link_account_def Let_def timer_outcomes_append timer_outcomes_revoke_token
      split: sum.splits bool.splits option.splits)

lemma timer_outcomes_handleAuthorize: "timer_outcomes (snd (handleAuthorize env rt ps)) = []"
proof -
  have "timer_outcomes effs = []" if "link_account env u response = (r, effs)" for u response r effs
    using timer_outcomes_link_account [of env u response] that by simp
  then show ?thesis
    by (auto simp: handleAuthorize_def Let_def timer_outcomes_append
        split: sum.splits prod.splits option.splits)
qed

lemma timer_outcomes_handlePost: "timer_outcomes (snd (handlePost env room ps)) = []"
  by (simp add: handlePost_def Let_def timer_outcomes_append split: sum.splits prod.splits)

lemma handleWebhook_timer:
  assumes "handleWebhook env method url ps = (err, effs)"
  shows "(err = None \<and> length (timer_outcomes effs) = 1)
       \<or> (err = Some TypeError \<and> effs = [] \<and> method = ''GET''
            \<and> (\<exists>res. getUrlParts url = Inr res \<and> split_query (path res) = None))"
proof (cases "getUrlParts url")
  case (Inl ex)
  with assms show ?thesis by (auto simp: handleWebhook_def)
next
  case (Inr res)
  show ?thesis
  proof (cases "method = ''GET'' \<and> split_query (path res) = None")
    case True
    with assms Inr show ?thesis by (auto simp: handleWebhook_def)
  next
    case False
    have a: "timer_outcomes effs' = []" if "handleAuthorize e rt p = (r, effs')" for e rt p r effs'
      using timer_outcomes_handleAuthorize [of e rt p] that by simp
    have b: "timer_outcomes effs' = []" if "handlePost e rm p = (r, effs')" for e rm p r effs'
      using timer_outcomes_handlePost [of e rm p] that by simp
    from False assms Inr have "err = None \<and> length (timer_outcomes effs) = 1"
      by (auto simp: handleWebhook_def Let_def timer_outcomes_append a b
          split: if_splits option.splits prod.splits sum.splits)
    then show ?thesis by simp
  qed
qed

text \<open>
  Claim C8 holds on every branch but one: a GET request whose path carries no query
  string. For \<open>GET /01234567890123456789012345678901/authorize\<close> handleWebhook throws a
  TypeError before any branch is taken: no response is written and the timer is never
  ended. (\<open>handleWebhook_timer\<close> above: in every other case the timer is ended exactly
  once.)
\<close>

theorem handleWebhook_get_without_query:
  "handleWebhook env ''GET'' ''/01234567890123456789012345678901/authorize'' ps = (Some TypeError, [])
   \<and> timer_outcomes (snd (handleWebhook env ''GET'' ''/01234567890123456789012345678901/authorize'' ps)) = []"
proof -
  have u: "getUrlParts ''/01234567890123456789012345678901/authorize''
     = Inr \<lparr> inboundId = ''01234567890123456789012345678901'', path = ''authorize'' \<rparr>"
    by code_simp
  have q: "split_query ''authorize'' = None" by code_simp
  show ?thesis by (simp add: handleWebhook_def u q)
qed

subsection \<open>A legacy post without text\<close>

lemma no_handler_call_handlePost:
  assumes "\<not> SlackClient room" and "\<not> truthy (ps ''text'')"
  shows "\<not> list_ex is_message_handler_call (snd (handlePost env room ps))"
proof -
  have t: "\<not> truthy ((ps(''ts'' := v)) ''text'')" for v
    using assms(2) by simp
  have c: "\<not> SlackClient (set_SlackChannelName room n)" for n
    using assms(1) by (simp add: set_SlackChannelName_def)
  show ?thesis
    using t c by (simp add: handlePost_def Let_def split: sum.splits)
qed

text \<open>
  Claim C10, amended. For a POST to \<open>.../post\<close> resolved to a room without a Slack client,
  whose parameters hold no text (absent or empty), and for which persisting the room
  does not fail (the room is not dirty after the channel-name refresh, or \<open>upsertRoom\<close>
  resolves): handlePost returns without calling the room's message handler, the
  response is 200 and the one timer outcome is \<open>success\<close>.
\<close>

theorem handlePost_no_text:
  assumes "method = ''POST''"
    and "getUrlParts url = Inr res" and "path res = ''post''"
    and "getByInboundId env (inboundId res) = Some room"
    and "\<not> SlackClient room" and "\<not> truthy (ps ''text'')"
    and "isDirty (set_SlackChannelName room (render (ps ''team_domain'') @ ''.#'' @ render (ps ''channel_name'')))
         \<Longrightarrow> upsertRoom (post env)
           (set_SlackChannelName room (render (ps ''team_domain'') @ ''.#'' @ render (ps ''channel_name'')))
         = Inr ()"
  shows "fst (handlePost (post env) room ps) = Inr ()
       \<and> \<not> list_ex is_message_handler_call (snd (handlePost (post env) room ps))
       \<and> fst (handleWebhook env method url ps) = None
       \<and> snd (handleWebhook env method url ps) =
           snd (handlePost (post env) room ps)
             @ [EndTimer success, WriteHead 200 ''application/json'', End]
       \<and> timer_outcomes (snd (handleWebhook env method url ps)) = [success]"
proof -
  have t: "\<not> truthy ((ps(''ts'' := v)) ''text'')" for v
    using assms(6) by simp
  have c: "\<not> SlackClient (set_SlackChannelName room n)" for n
    using assms(5) by (simp add: set_SlackChannelName_def)
  have p: "fst (handlePost (post env) room ps) = Inr ()"
    using assms(7) t c by (simp add: handlePost_def Let_def)
  have n: "\<not> list_ex is_message_handler_call (snd (handlePost (post env) room ps))"
    using assms(5,6) by (rule no_handler_call_handlePost)
  have w: "handleWebhook env method url ps =
      (None, snd (handlePost (post env) room ps)
             @ [EndTimer success, WriteHead 200 ''application/json'', End])"
    using assms(1-4) p
    by (cases "handlePost (post env) room ps")
       (auto simp add: handleWebhook_def Let_def HTTP_OK_def split: prod.splits sum.splits)
  from p n w show ?thesis
    by (simp add: timer_outcomes_append timer_outcomes_handlePost)
qed

theorem handlePost_no_text_witness:
  "timer_outcomes (snd (handleWebhook
      \<lparr> getByInboundId = (\<lambda>i. Some \<lparr> InboundId = i, SlackChannelName = None, isDirty = False, SlackClient = False \<rparr>),
        qs_parse = (\<lambda>q. Map.empty),
        auth = \<lparr> oauth2 = False, getUserIdForPreauthToken = (\<lambda>t. None),
                 exchangeCodeForToken = (\<lambda>c r. Inl TypeError), willExceedTeamLimit = (\<lambda>t. Inr False),
                 createTeamClient = (\<lambda>t. Inr t), revoke = (\<lambda>c. Inr ()),
                 setUserAccessToken = (\<lambda>a b c d e. Inr ()), upsertTeamByToken = (\<lambda>t. Inr ()) \<rparr>,
        post = \<lparr> upsertRoom = (\<lambda>r. Inr ()), onSlackMessageParams = (\<lambda>p. Inr ()),
                 onSlackMessage = (\<lambda>m c. Inr ()),
                 lookup = \<lparr> history = (\<lambda>c t. Inl TypeError), enablePublicSharing = (\<lambda>f. Inl TypeError),
                            fetchFileContent = (\<lambda>f. Inr None) \<rparr>,
                 doChannelUserReplacements = (\<lambda>m t. Inr []) \<rparr> \<rparr>
      ''POST'' ''/01234567890123456789012345678901/post''
      [''team_domain'' \<mapsto> Str ''acme'', ''channel_name'' \<mapsto> Str ''general'', ''user_id'' \<mapsto> Str ''U1''])) = [success]"
proof -
  let ?env = "\<lparr> getByInboundId = (\<lambda>i. Some \<lparr> InboundId = i, SlackChannelName = None, isDirty = False, SlackClient = False \<rparr>),
        qs_parse = (\<lambda>q. Map.empty),
        auth = \<lparr> oauth2 = False, getUserIdForPreauthToken = (\<lambda>t. None),
                 exchangeCodeForToken = (\<lambda>c r. Inl TypeError), willExceedTeamLimit = (\<lambda>t. Inr False),
                 createTeamClient = (\<lambda>t. Inr t), revoke = (\<lambda>c. Inr ()),
                 setUserAccessToken = (\<lambda>a b c d e. Inr ()), upsertTeamByToken = (\<lambda>t. Inr ()) \<rparr>,
        post = \<lparr> upsertRoom = (\<lambda>r. Inr ()), onSlackMessageParams = (\<lambda>p. Inr ()),
                 onSlackMessage = (\<lambda>m c. Inr ()),
                 lookup = \<lparr> history = (\<lambda>c t. Inl TypeError), enablePublicSharing = (\<lambda>f. Inl TypeError),
                            fetchFileContent = (\<lambda>f. Inr None) \<rparr>,
                 doChannelUserReplacements = (\<lambda>m t. Inr []) \<rparr> \<rparr>"
  let ?ps = "[''team_domain'' \<mapsto> Str ''acme'', ''channel_name'' \<mapsto> Str ''general'', ''user_id'' \<mapsto> Str ''U1'']"
  let ?room = "\<lparr> InboundId = ''01234567890123456789012345678901'', SlackChannelName = None, isDirty = False, SlackClient = False \<rparr>"
  let ?res = "\<lparr> inboundId = ''01234567890123456789012345678901'', path = ''post'' \<rparr>"
  have u: "getUrlParts ''/01234567890123456789012345678901/post'' = Inr ?res"
    by code_simp
  have r: "getByInboundId ?env (inboundId ?res) = Some ?room" by simp
  have p: "path ?res = ''post''" by simp
  have c: "\<not> SlackClient ?room" by simp
  have t: "\<not> truthy (?ps ''text'')" by simp
  have s: "isDirty (set_SlackChannelName ?room (render (?ps ''team_domain'') @ ''.#'' @ render (?ps ''channel_name'')))
         \<Longrightarrow> upsertRoom (post ?env)
           (set_SlackChannelName ?room (render (?ps ''team_domain'') @ ''.#'' @ render (?ps ''channel_name'')))
         = Inr ()" by simp
  from handlePost_no_text [where ps = ?ps, OF refl u p r c t s]
  show ?thesis by blast
qed

text \<open>
  Claim C10, as stated, fails: when the room is dirty and \<open>upsertRoom\<close> rejects,
  handlePost throws and the timer outcome is \<open>fail\<close>.
\<close>

theorem handlePost_no_text_counterexample:
  "handleWebhook
      \<lparr> getByInboundId = (\<lambda>i. Some \<lparr> InboundId = i, SlackChannelName = None, isDirty = True, SlackClient = False \<rparr>),
        qs_parse = (\<lambda>q. Map.empty),
        auth = \<lparr> oauth2 = False, getUserIdForPreauthToken = (\<lambda>t. None),
                 exchangeCodeForToken = (\<lambda>c r. Inl TypeError), willExceedTeamLimit = (\<lambda>t. Inr False),
                 createTeamClient = (\<lambda>t. Inr t), revoke = (\<lambda>c. Inr ()),
                 setUserAccessToken = (\<lambda>a b c d e. Inr ()), upsertTeamByToken = (\<lambda>t. Inr ()) \<rparr>,
        post = \<lparr> upsertRoom = (\<lambda>r. Inl (External ''connection terminated'')),
                 onSlackMessageParams = (\<lambda>p. Inr ()),
                 onSlackMessage = (\<lambda>m c. Inr ()),
                 lookup = \<lparr> history = (\<lambda>c t. Inl TypeError), enablePublicSharing = (\<lambda>f. Inl TypeError),
                            fetchFileContent = (\<lambda>f. Inr None) \<rparr>,
                 doChannelUserReplacements = (\<lambda>m t. Inr []) \<rparr> \<rparr>
      ''POST'' ''/01234567890123456789012345678901/post''
      [''team_domain'' \<mapsto> Str ''acme'', ''channel_name'' \<mapsto> Str ''general'', ''user_id'' \<mapsto> Str ''U1'']
   = (None,
      [CallUpsertRoom \<lparr> InboundId = ''01234567890123456789012345678901'',
          SlackChannelName = Some ''acme.#general'', isDirty = True, SlackClient = False \<rparr>,
       EndTimer fail, Log ''handlePost failed'', WriteHead 200 ''application/json'', End])"
proof -
  have u: "getUrlParts ''/01234567890123456789012345678901/post''
      = Inr \<lparr> inboundId = ''01234567890123456789012345678901'', path = ''post'' \<rparr>"
    by code_simp
  show ?thesis
    by (simp add: handleWebhook_def u handlePost_def set_SlackChannelName_def Let_def HTTP_OK_def)
qed


subsection \<open>Schema migration\<close>

lemma one_error: "one rows = Inl e \<Longrightarrow> e = QueryResultError"
  by (cases rows rule: one.cases) simp_all

lemma getSchemaVersion_after_update:
  assumes "getSchemaVersion d = Inr v" and "updateSchemaVersion k d = Inr d'"
  shows "getSchemaVersion d' = Inr k"
proof -
  from assms(2) obtain rows where r: "schema_table d = Some rows"
    and d': "d' = d\<lparr> schema_table := Some (map (\<lambda>_. k) rows) \<rparr>"
    by (auto simp: updateSchemaVersion_def split: option.splits)
  from assms(1) r have "one rows = Inr v"
    by (auto simp: getSchemaVersion_def select_version_def split: sum.splits if_splits dest: one_error)
  then have "rows = [v]" by (cases rows rule: one.cases) simp_all
  with d' show ?thesis by (simp add: getSchemaVersion_def select_version_def)
qed

lemma migrate_step_cases:
  "migrate_step schemas k d = Some d2 \<longleftrightarrow>
     (\<exists>m d1. schemas k = Some m \<and> m d = (None, d1) \<and> updateSchemaVersion k d1 = Inr d2)"
  by (auto simp: migrate_step_def split: option.splits prod.splits sum.splits)

lemma getSchemaVersion_not_one:
  assumes "schema_table db = Some rows" and "length rows \<noteq> 1"
  shows "getSchemaVersion db = Inl CouldntFetchSchemaVersion"
proof -
  from assms(2) have "one rows = Inl QueryResultError"
    by (cases rows rule: one.cases) simp_all
  with assms(1) show ?thesis by (simp add: getSchemaVersion_def select_version_def)
qed

lemma ensureSchema_loop_run:
  assumes "ensureSchema_loop schemas cv db w = (res, db', w')"
  shows "\<exists>n dk. migrate_steps schemas cv n db = Some dk
           \<and> w' = w @ [cv + 1..cv + int n]
           \<and> ((res = Inr () \<and> db' = dk \<and> n = nat (LATEST_SCHEMA - cv))
              \<or> (cv + int n < LATEST_SCHEMA \<and> schemas (cv + int n + 1) = None
                   \<and> res = Inl ModuleNotFound \<and> db' = dk)
              \<or> (cv + int n < LATEST_SCHEMA \<and> res = Inl FailedToUpdateSchema
                   \<and> (\<exists>m ex. schemas (cv + int n + 1) = Some m \<and> m dk = (Some ex, db')))
              \<or> (cv + int n < LATEST_SCHEMA \<and> res = Inl FailedToUpdateSchema
                   \<and> (\<exists>m ex. schemas (cv + int n + 1) = Some m \<and> m dk = (None, db')
                         \<and> updateSchemaVersion (cv + int n + 1) db' = Inl ex)))"
  using assms
proof (induction schemas cv db w rule: ensureSchema_loop.induct)
  case (1 schemas cv db w)
  show ?case
  proof (cases "cv < LATEST_SCHEMA")
    case False
    with "1.prems" have "res = Inr ()" "db' = db" "w' = w" by simp_all
    with False show ?thesis by (intro exI [of _ 0] exI [of _ db]) simp
  next
    case lt: True
    show ?thesis
    proof (cases "schemas (cv + 1)")
      case None
      with lt "1.prems" have "res = Inl ModuleNotFound" "db' = db" "w' = w" by simp_all
      with lt None show ?thesis by (intro exI [of _ 0] exI [of _ db]) simp
    next
      case (Some m)
      obtain ex d1 where m: "m db = (ex, d1)" by (cases "m db")
      show ?thesis
      proof (cases ex)
        case (Some e)
        with lt \<open>schemas (cv + 1) = Some m\<close> m "1.prems"
        have "res = Inl FailedToUpdateSchema" "db' = d1" "w' = w" by simp_all
        with lt \<open>schemas (cv + 1) = Some m\<close> m Some show ?thesis
          by (intro exI [of _ 0] exI [of _ db]) simp
      next
        case None
        show ?thesis
        proof (cases "updateSchemaVersion (cv + 1) d1")
          case (Inl e)
          with lt \<open>schemas (cv + 1) = Some m\<close> m None "1.prems"
          have "res = Inl FailedToUpdateSchema" "db' = d1" "w' = w" by simp_all
          with lt \<open>schemas (cv + 1) = Some m\<close> m None Inl show ?thesis
            by (intro exI [of _ 0] exI [of _ db]) simp
        next
          case (Inr d2)
          from \<open>schemas (cv + 1) = Some m\<close> m None Inr
          have st: "migrate_step schemas (cv + 1) db = Some d2"
            by (simp add: migrate_step_def)
          from lt \<open>schemas (cv + 1) = Some m\<close> m None Inr "1.prems"
          have rec: "ensureSchema_loop schemas (cv + 1) d2 (w @ [cv + 1]) = (res, db', w')"
            by simp
          from "1.IH" [OF lt \<open>schemas (cv + 1) = Some m\<close> m [symmetric] None Inr rec]
          obtain n dk where s: "migrate_steps schemas (cv + 1) n d2 = Some dk"
            "w' = (w @ [cv + 1]) @ [cv + 1 + 1..cv + 1 + int n]"
            "(res = Inr () \<and> db' = dk \<and> n = nat (LATEST_SCHEMA - (cv + 1)))
              \<or> (cv + 1 + int n < LATEST_SCHEMA \<and> schemas (cv + 1 + int n + 1) = None
                   \<and> res = Inl ModuleNotFound \<and> db' = dk)
              \<or> (cv + 1 + int n < LATEST_SCHEMA \<and> res = Inl FailedToUpdateSchema
                   \<and> (\<exists>m ex. schemas (cv + 1 + int n + 1) = Some m \<and> m dk = (Some ex, db')))
              \<or> (cv + 1 + int n < LATEST_SCHEMA \<and> res = Inl FailedToUpdateSchema
                   \<and> (\<exists>m ex. schemas (cv + 1 + int n + 1) = Some m \<and> m dk = (None, db')
                         \<and> updateSchemaVersion (cv + 1 + int n + 1) db' = Inl ex))"
            by blast
          have e: "cv + 1 + int n = cv + int (Suc n)" by simp
          have "[cv + 1..cv + 1 + int n] = (cv + 1) # [cv + 1 + 1..cv + 1 + int n]"
            by (rule upto_rec1) simp
          with s(2) have "w' = w @ [cv + 1..cv + 1 + int n]" by simp
          then have w: "w' = w @ [cv + 1..cv + int (Suc n)]" unfolding e .
          from st s(1) have ms: "migrate_steps schemas cv (Suc n) db = Some dk" by simp
          from lt have nn: "n = nat (LATEST_SCHEMA - (cv + 1)) \<Longrightarrow> Suc n = nat (LATEST_SCHEMA - cv)"
            by simp
          from s(3) nn
          have c: "(res = Inr () \<and> db' = dk \<and> Suc n = nat (LATEST_SCHEMA - cv))
              \<or> (cv + int (Suc n) < LATEST_SCHEMA \<and> schemas (cv + int (Suc n) + 1) = None
                   \<and> res = Inl ModuleNotFound \<and> db' = dk)
              \<or> (cv + int (Suc n) < LATEST_SCHEMA \<and> res = Inl FailedToUpdateSchema
                   \<and> (\<exists>m ex. schemas (cv + int (Suc n) + 1) = Some m \<and> m dk = (Some ex, db')))
              \<or> (cv + int (Suc n) < LATEST_SCHEMA \<and> res = Inl FailedToUpdateSchema
                   \<and> (\<exists>m ex. schemas (cv + int (Suc n) + 1) = Some m \<and> m dk = (None, db')
                         \<and> updateSchemaVersion (cv + int (Suc n) + 1) db' = Inl ex))"
            unfolding e [symmetric] by blast
          from ms w c show ?thesis by blast
        qed
      qed
    qed
  qed
qed

lemma ensureSchema_loop_succeeds:
  assumes "migrate_steps schemas cv (nat (LATEST_SCHEMA - cv)) db = Some dk"
  shows "ensureSchema_loop schemas cv db w = (Inr (), dk, w @ [cv + 1..LATEST_SCHEMA])"
  using assms
proof (induction schemas cv db w rule: ensureSchema_loop.induct)
  case (1 schemas cv db w)
  show ?case
  proof (cases "cv < LATEST_SCHEMA")
    case False
    with "1.prems" show ?thesis by simp
  next
    case lt: True
    then have n: "nat (LATEST_SCHEMA - cv) = Suc (nat (LATEST_SCHEMA - (cv + 1)))" by simp
    from "1.prems" obtain d2 where st: "migrate_step schemas (cv + 1) db = Some d2"
      and rest: "migrate_steps schemas (cv + 1) (nat (LATEST_SCHEMA - (cv + 1))) d2 = Some dk"
      unfolding n by (auto split: option.splits)
    from st obtain m d1 where m: "schemas (cv + 1) = Some m" "m db = (None, d1)"
      "updateSchemaVersion (cv + 1) d1 = Inr d2"
      unfolding migrate_step_cases by blast
    from lt have u: "[cv + 1..LATEST_SCHEMA] = (cv + 1) # [cv + 1 + 1..LATEST_SCHEMA]"
      by (simp add: upto_rec1)
    from "1.IH" [OF lt m(1) m(2) [symmetric] refl m(3) rest] lt m u show ?thesis by simp
  qed
qed

lemma ensureSchema_loop_throws:
  assumes "migrate_steps schemas cv n db = Some dk" and "cv + int n < LATEST_SCHEMA"
    and "schemas (cv + int n + 1) = Some mk" and "mk dk = (Some ex, d1)"
  shows "ensureSchema_loop schemas cv db w = (Inl FailedToUpdateSchema, d1, w @ [cv + 1..cv + int n])"
  using assms
proof (induction n arbitrary: cv db w)
  case 0
  then show ?case by simp
next
  case (Suc n)
  from Suc.prems(2) have lt: "cv < LATEST_SCHEMA" by simp
  from Suc.prems(1) obtain d2 where st: "migrate_step schemas (cv + 1) db = Some d2"
    and rest: "migrate_steps schemas (cv + 1) n d2 = Some dk"
    by (auto split: option.splits)
  from st obtain m d0 where m: "schemas (cv + 1) = Some m" "m db = (None, d0)"
    "updateSchemaVersion (cv + 1) d0 = Inr d2"
    unfolding migrate_step_cases by blast
  have e: "cv + 1 + int n = cv + int (Suc n)" by simp
  from Suc.prems(2,3) have p: "cv + 1 + int n < LATEST_SCHEMA" "schemas (cv + 1 + int n + 1) = Some mk"
    unfolding e by simp_all
  have "[cv + 1..cv + 1 + int n] = (cv + 1) # [cv + 1 + 1..cv + 1 + int n]"
    by (rule upto_rec1) simp
  then have u: "[cv + 1..cv + int (Suc n)] = (cv + 1) # [cv + 1 + 1..cv + 1 + int n]"
    unfolding e .
  have l: "ensureSchema_loop schemas cv db w = ensureSchema_loop schemas (cv + 1) d2 (w @ [cv + 1])"
    using lt m by simp
  from Suc.IH [OF rest p Suc.prems(4), of "w @ [cv + 1]"] show ?case
    unfolding l u by simp
qed

lemma migrate_steps_version:
  assumes "\<forall>k m d. schemas k = Some m \<longrightarrow> getSchemaVersion (snd (m d)) = getSchemaVersion d"
    and "getSchemaVersion db = Inr v" and "migrate_steps schemas v k db = Some d"
  shows "getSchemaVersion d = Inr (v + int k)"
  using assms(2,3)
proof (induction k arbitrary: v db)
  case 0
  then show ?case by simp
next
  case (Suc k)
  from Suc.prems(2) obtain d2 where st: "migrate_step schemas (v + 1) db = Some d2"
    and rest: "migrate_steps schemas (v + 1) k d2 = Some d"
    by (auto split: option.splits)
  from st obtain m d1 where m: "schemas (v + 1) = Some m" "m db = (None, d1)"
    "updateSchemaVersion (v + 1) d1 = Inr d2"
    unfolding migrate_step_cases by blast
  from assms(1) m(1,2) Suc.prems(1) have "getSchemaVersion d1 = Inr v" by (metis snd_conv)
  from this m(3) have "getSchemaVersion d2 = Inr (v + 1)" by (rule getSchemaVersion_after_update)
  from Suc.IH [OF this rest] show ?case by (simp add: add.assoc)
qed

text \<open>
  Claim C3, as stated, fails: a \<open>schema\<close> table that exists and holds no version record is
  not treated as version 0; ensureSchema fails and runs no migration.
\<close>

theorem ensureSchema_no_record_counterexample:
  "ensureSchema (\<lambda>k. Some (\<lambda>d. (None, d))) \<lparr> schema_table = Some [], tables = () \<rparr>
     = (Inl CouldntFetchSchemaVersion, \<lparr> schema_table = Some [], tables = () \<rparr>, [])"
  by (simp add: ensureSchema_def getSchemaVersion_def select_version_def)

text \<open>
  Claim C3, amended. A \<open>schema\<close> table that exists without exactly one version record
  makes ensureSchema fail with \<open>Couldn't fetch schema version\<close>: nothing runs and the
  database is unchanged. Otherwise the current version \<open>v\<close> is 0 when the table does not
  exist and the version of the one record when it does, and the run is a number \<open>n\<close> of
  completed single-version steps, for the versions \<open>v + 1\<close>, ..., \<open>v + n\<close>, which are the
  versions written, in that order, followed by one of four ends:
  \<^item> success, with all the \<open>LATEST_SCHEMA - v\<close> steps completed (none when \<open>v\<close> is already
    at \<open>LATEST_SCHEMA\<close> or beyond) and the database that the last of them left;
  \<^item> the migration file of version \<open>v + n + 1\<close> is missing: the error of \<open>require\<close>, and
    the database as step \<open>n\<close> left it;
  \<^item> the migration of version \<open>v + n + 1\<close> throws, on the database that step \<open>n\<close> left:
    \<open>Failed to update database schema\<close>, the database as that migration left it, and
    the version \<open>v + n + 1\<close> not written;
  \<^item> the migration returns but the version cannot be stored: the same error.

  With migrations that leave the stored version alone (creating the table with version 0
  included), the version stored after \<open>k\<close> completed steps is \<open>v + k\<close>, and the version
  stored at the end is \<open>v + n\<close>, the version of the last completed step.

  Conversely, which end it is depends on the run alone: when all the steps up to
  \<open>LATEST_SCHEMA\<close> complete on the databases they meet, the call succeeds; when the
  migration of version \<open>v + n + 1\<close> throws on the database that \<open>n\<close> completed steps left,
  the call fails with exactly the versions up to \<open>v + n\<close> written.
\<close>

theorem ensureSchema_amended:
  assumes "ensureSchema schemas db = (res, db', written)"
  shows "(\<forall>rows. schema_table db = Some rows \<and> length rows \<noteq> 1
            \<longrightarrow> res = Inl CouldntFetchSchemaVersion \<and> db' = db \<and> written = [])
       \<and> (\<forall>v. (schema_table db = None \<and> v = 0) \<or> schema_table db = Some [v]
            \<longrightarrow> getSchemaVersion db = Inr v
              \<and> (\<exists>n dk. migrate_steps schemas v n db = Some dk
                \<and> written = [v + 1..v + int n]
                \<and> ((res = Inr () \<and> db' = dk \<and> n = nat (LATEST_SCHEMA - v))
                   \<or> (v + int n < LATEST_SCHEMA \<and> schemas (v + int n + 1) = None
                        \<and> res = Inl ModuleNotFound \<and> db' = dk)
                   \<or> (v + int n < LATEST_SCHEMA \<and> res = Inl FailedToUpdateSchema
                        \<and> (\<exists>m ex. schemas (v + int n + 1) = Some m \<and> m dk = (Some ex, db')))
                   \<or> (v + int n < LATEST_SCHEMA \<and> res = Inl FailedToUpdateSchema
                        \<and> (\<exists>m ex. schemas (v + int n + 1) = Some m \<and> m dk = (None, db')
                              \<and> updateSchemaVersion (v + int n + 1) db' = Inl ex)))
                \<and> ((\<forall>k m d. schemas k = Some m \<longrightarrow> getSchemaVersion (snd (m d)) = getSchemaVersion d)
                     \<longrightarrow> getSchemaVersion db' = Inr (v + int n)
                         \<and> (\<forall>k\<le>n. \<forall>d. migrate_steps schemas v k db = Some d
                                \<longrightarrow> getSchemaVersion d = Inr (v + int k))))
              \<and> (\<forall>dk. migrate_steps schemas v (nat (LATEST_SCHEMA - v)) db = Some dk
                \<longrightarrow> res = Inr () \<and> db' = dk \<and> written = [v + 1..LATEST_SCHEMA])
              \<and> (\<forall>n dk m ex d1. migrate_steps schemas v n db = Some dk \<and> v + int n < LATEST_SCHEMA
                  \<and> schemas (v + int n + 1) = Some m \<and> m dk = (Some ex, d1)
                \<longrightarrow> res = Inl FailedToUpdateSchema \<and> db' = d1 \<and> written = [v + 1..v + int n]))"
proof -
  have a: "res = Inl CouldntFetchSchemaVersion \<and> db' = db \<and> written = []"
    if "schema_table db = Some rows \<and> length rows \<noteq> 1" for rows
  proof -
    from that have "getSchemaVersion db = Inl CouldntFetchSchemaVersion"
      by (auto intro: getSchemaVersion_not_one)
    with assms show ?thesis by (simp add: ensureSchema_def)
  qed
  have b: "getSchemaVersion db = Inr v
              \<and> (\<exists>n dk. migrate_steps schemas v n db = Some dk
                \<and> written = [v + 1..v + int n]
                \<and> ((res = Inr () \<and> db' = dk \<and> n = nat (LATEST_SCHEMA - v))
                   \<or> (v + int n < LATEST_SCHEMA \<and> schemas (v + int n + 1) = None
                        \<and> res = Inl ModuleNotFound \<and> db' = dk)
                   \<or> (v + int n < LATEST_SCHEMA \<and> res = Inl FailedToUpdateSchema
                        \<and> (\<exists>m ex. schemas (v + int n + 1) = Some m \<and> m dk = (Some ex, db')))
                   \<or> (v + int n < LATEST_SCHEMA \<and> res = Inl FailedToUpdateSchema
                        \<and> (\<exists>m ex. schemas (v + int n + 1) = Some m \<and> m dk = (None, db')
                              \<and> updateSchemaVersion (v + int n + 1) db' = Inl ex)))
                \<and> ((\<forall>k m d. schemas k = Some m \<longrightarrow> getSchemaVersion (snd (m d)) = getSchemaVersion d)
                     \<longrightarrow> getSchemaVersion db' = Inr (v + int n)
                         \<and> (\<forall>k\<le>n. \<forall>d. migrate_steps schemas v k db = Some d
                                \<longrightarrow> getSchemaVersion d = Inr (v + int k))))
              \<and> (\<forall>dk. migrate_steps schemas v (nat (LATEST_SCHEMA - v)) db = Some dk
                \<longrightarrow> res = Inr () \<and> db' = dk \<and> written = [v + 1..LATEST_SCHEMA])
              \<and> (\<forall>n dk m ex d1. migrate_steps schemas v n db = Some dk \<and> v + int n < LATEST_SCHEMA
                  \<and> schemas (v + int n + 1) = Some m \<and> m dk = (Some ex, d1)
                \<longrightarrow> res = Inl FailedToUpdateSchema \<and> db' = d1 \<and> written = [v + 1..v + int n])"
    if h: "(schema_table db = None \<and> v = 0) \<or> schema_table db = Some [v]" for v
  proof -
    from h have v: "getSchemaVersion db = Inr v"
      by (auto simp: getSchemaVersion_def select_version_def)
    with assms have loop: "ensureSchema_loop schemas v db [] = (res, db', written)"
      by (simp add: ensureSchema_def)
    from ensureSchema_loop_run [OF loop]
    obtain n dk where s: "migrate_steps schemas v n db = Some dk" "written = [v + 1..v + int n]"
      and c: "(res = Inr () \<and> db' = dk \<and> n = nat (LATEST_SCHEMA - v))
                   \<or> (v + int n < LATEST_SCHEMA \<and> schemas (v + int n + 1) = None
                        \<and> res = Inl ModuleNotFound \<and> db' = dk)
                   \<or> (v + int n < LATEST_SCHEMA \<and> res = Inl FailedToUpdateSchema
                        \<and> (\<exists>m ex. schemas (v + int n + 1) = Some m \<and> m dk = (Some ex, db')))
                   \<or> (v + int n < LATEST_SCHEMA \<and> res = Inl FailedToUpdateSchema
                        \<and> (\<exists>m ex. schemas (v + int n + 1) = Some m \<and> m dk = (None, db')
                              \<and> updateSchemaVersion (v + int n + 1) db' = Inl ex))"
      by auto
    have neu: "getSchemaVersion db' = Inr (v + int n)
                \<and> (\<forall>k\<le>n. \<forall>d. migrate_steps schemas v k db = Some d
                       \<longrightarrow> getSchemaVersion d = Inr (v + int k))"
      if nt: "(\<forall>k m d. schemas k = Some m \<longrightarrow> getSchemaVersion (snd (m d)) = getSchemaVersion d)"
    proof -
      from migrate_steps_version [OF nt v s(1)] have dk: "getSchemaVersion dk = Inr (v + int n)" .
      from nt have keep: "schemas k = Some m \<Longrightarrow> m d = (x, d'') \<Longrightarrow> getSchemaVersion d'' = getSchemaVersion d"
        for k m d x d'' by (metis snd_conv)
      from c dk have "getSchemaVersion db' = Inr (v + int n)"
        by (auto dest: keep)
      moreover have "\<forall>k\<le>n. \<forall>d. migrate_steps schemas v k db = Some d
                       \<longrightarrow> getSchemaVersion d = Inr (v + int k)"
        using migrate_steps_version [OF nt v] by blast
      ultimately show ?thesis by blast
    qed
    have b1: "(\<exists>n dk. migrate_steps schemas v n db = Some dk
                \<and> written = [v + 1..v + int n]
                \<and> ((res = Inr () \<and> db' = dk \<and> n = nat (LATEST_SCHEMA - v))
                   \<or> (v + int n < LATEST_SCHEMA \<and> schemas (v + int n + 1) = None
                        \<and> res = Inl ModuleNotFound \<and> db' = dk)
                   \<or> (v + int n < LATEST_SCHEMA \<and> res = Inl FailedToUpdateSchema
                        \<and> (\<exists>m ex. schemas (v + int n + 1) = Some m \<and> m dk = (Some ex, db')))
                   \<or> (v + int n < LATEST_SCHEMA \<and> res = Inl FailedToUpdateSchema
                        \<and> (\<exists>m ex. schemas (v + int n + 1) = Some m \<and> m dk = (None, db')
                              \<and> updateSchemaVersion (v + int n + 1) db' = Inl ex)))
                \<and> ((\<forall>k m d. schemas k = Some m \<longrightarrow> getSchemaVersion (snd (m d)) = getSchemaVersion d)
                     \<longrightarrow> getSchemaVersion db' = Inr (v + int n)
                         \<and> (\<forall>k\<le>n. \<forall>d. migrate_steps schemas v k db = Some d
                                \<longrightarrow> getSchemaVersion d = Inr (v + int k))))"
      by (rule exI [of _ n], rule exI [of _ dk]) (insert s c neu, blast)
    have b3: "(\<forall>dk. migrate_steps schemas v (nat (LATEST_SCHEMA - v)) db = Some dk
                \<longrightarrow> res = Inr () \<and> db' = dk \<and> written = [v + 1..LATEST_SCHEMA])"
      using ensureSchema_loop_succeeds [of schemas v db _ "[]"] loop by auto
    have b2: "(\<forall>n dk m ex d1. migrate_steps schemas v n db = Some dk \<and> v + int n < LATEST_SCHEMA
                  \<and> schemas (v + int n + 1) = Some m \<and> m dk = (Some ex, d1)
                \<longrightarrow> res = Inl FailedToUpdateSchema \<and> db' = d1 \<and> written = [v + 1..v + int n])"
      using ensureSchema_loop_throws [of schemas v _ db _ _ _ _ "[]"] loop by auto
    from v b1 b3 b2 show ?thesis by blast
  qed
  from a b show ?thesis by blast
qed

theorem ensureSchema_amended_witness:
  "ensureSchema
     (\<lambda>k. if 1 \<le> k \<and> k \<le> 7
               then Some (\<lambda>d. (None, d\<lparr> schema_table :=
                      (case schema_table d of None \<Rightarrow> Some [0] | Some rows \<Rightarrow> Some rows) \<rparr>))
               else None)
     \<lparr> schema_table = None, tables = () \<rparr>
     = (Inr (), \<lparr> schema_table = Some [7], tables = () \<rparr>, [1, 2, 3, 4, 5, 6, 7])
   \<and> ensureSchema
     (\<lambda>k. if k = 3 then Some (\<lambda>d. (Some (External ''v3''), d))
               else if 1 \<le> k \<and> k \<le> 7
               then Some (\<lambda>d. (None, d\<lparr> schema_table :=
                      (case schema_table d of None \<Rightarrow> Some [0] | Some rows \<Rightarrow> Some rows) \<rparr>))
               else None)
     \<lparr> schema_table = None, tables = () \<rparr>
     = (Inl FailedToUpdateSchema, \<lparr> schema_table = Some [2], tables = () \<rparr>, [1, 2])
   \<and> getSchemaVersion (fst (snd (ensureSchema
     (\<lambda>k. if k = 3 then Some (\<lambda>d. (Some (External ''v3''), d))
               else if 1 \<le> k \<and> k \<le> 7
               then Some (\<lambda>d. (None, d\<lparr> schema_table :=
                      (case schema_table d of None \<Rightarrow> Some [0] | Some rows \<Rightarrow> Some rows) \<rparr>))
               else None)
     \<lparr> schema_table = None, tables = () \<rparr>))) = Inr 2
   \<and> ensureSchema
     (\<lambda>k. if 1 \<le> k \<and> k \<le> 7
               then Some (\<lambda>d. (None, d\<lparr> schema_table :=
                      (case schema_table d of None \<Rightarrow> Some [0] | Some rows \<Rightarrow> Some rows) \<rparr>))
               else None)
     \<lparr> schema_table = Some [3, 3], tables = () \<rparr>
     = (Inl CouldntFetchSchemaVersion, \<lparr> schema_table = Some [3, 3], tables = () \<rparr>, [])"
proof -
  let ?S = "\<lambda>k::int. if 1 \<le> k \<and> k \<le> 7
               then Some (\<lambda>d::unit pg_db. (None :: error option, d\<lparr> schema_table :=
                      (case schema_table d of None \<Rightarrow> Some [0] | Some rows \<Rightarrow> Some rows) \<rparr>))
               else None"
  let ?T = "\<lambda>k::int. if k = 3 then Some (\<lambda>d::unit pg_db. (Some (External ''v3''), d))
               else if 1 \<le> k \<and> k \<le> 7
               then Some (\<lambda>d. (None, d\<lparr> schema_table :=
                      (case schema_table d of None \<Rightarrow> Some [0] | Some rows \<Rightarrow> Some rows) \<rparr>))
               else None"
  let ?db = "\<lparr> schema_table = None, tables = () \<rparr>"
  let ?two = "\<lparr> schema_table = Some [3, 3], tables = () \<rparr>"
  have u17: "[1..7] = [1, 2, 3, 4, 5, 6, 7 :: int]" by code_simp
  have u12: "[1..2] = [1, 2 :: int]" by code_simp
  obtain r1 d1 w1 where e1: "ensureSchema ?S ?db = (r1, d1, w1)"
    by (cases "ensureSchema ?S ?db") auto
  have s1: "migrate_steps ?S 0 (nat (LATEST_SCHEMA - 0)) ?db = Some \<lparr> schema_table = Some [7], tables = () \<rparr>"
    by (simp add: LATEST_SCHEMA_def eval_nat_numeral migrate_step_def updateSchemaVersion_def)
  from ensureSchema_amended [OF e1] s1
  have "r1 = Inr () \<and> d1 = \<lparr> schema_table = Some [7], tables = () \<rparr> \<and> w1 = [0 + 1..LATEST_SCHEMA]"
    by simp
  with e1 have a: "ensureSchema ?S ?db = (Inr (), \<lparr> schema_table = Some [7], tables = () \<rparr>, [1, 2, 3, 4, 5, 6, 7])"
    by (simp add: LATEST_SCHEMA_def u17)
  obtain r2 d2 w2 where e2: "ensureSchema ?T ?db = (r2, d2, w2)"
    by (cases "ensureSchema ?T ?db") auto
  have s2: "migrate_steps ?T 0 2 ?db = Some \<lparr> schema_table = Some [2], tables = () \<rparr>
      \<and> 0 + int 2 < LATEST_SCHEMA
      \<and> ?T (0 + int 2 + 1) = Some (\<lambda>d. (Some (External ''v3''), d))
      \<and> (\<lambda>d::unit pg_db. (Some (External ''v3''), d)) \<lparr> schema_table = Some [2], tables = () \<rparr>
          = (Some (External ''v3''), \<lparr> schema_table = Some [2], tables = () \<rparr>)"
    by (simp add: LATEST_SCHEMA_def eval_nat_numeral migrate_step_def updateSchemaVersion_def)
  have h: "(schema_table ?db = None \<and> (0::int) = 0) \<or> schema_table ?db = Some [0]" by simp
  note throws = ensureSchema_amended [OF e2, THEN conjunct2, rule_format, OF h,
      THEN conjunct2, THEN conjunct2, THEN conjunct2, rule_format, OF s2]
  from throws
  have "r2 = Inl FailedToUpdateSchema \<and> d2 = \<lparr> schema_table = Some [2], tables = () \<rparr> \<and> w2 = [0 + 1..0 + int 2]" .
  with e2 have b: "ensureSchema ?T ?db = (Inl FailedToUpdateSchema, \<lparr> schema_table = Some [2], tables = () \<rparr>, [1, 2])"
    by (simp add: u12)
  have neutral: "\<forall>k m d. ?T k = Some m \<longrightarrow> getSchemaVersion (snd (m d)) = getSchemaVersion d"
    by (auto simp: getSchemaVersion_def select_version_def split: option.splits if_splits)
  from ensureSchema_amended [OF e2, THEN conjunct2, rule_format, OF h, THEN conjunct2, THEN conjunct1]
  obtain n where n: "w2 = [0 + 1..0 + int n]"
    and stored: "(\<forall>k m d. ?T k = Some m \<longrightarrow> getSchemaVersion (snd (m d)) = getSchemaVersion d)
                    \<longrightarrow> getSchemaVersion d2 = Inr (0 + int n)"
    by blast
  from n throws have "length [0 + 1..0 + int n] = length [0 + 1..0 + int 2]" by simp
  then have "n = 2" by simp
  with stored neutral have "getSchemaVersion d2 = Inr 2" by simp
  with e2 have d: "getSchemaVersion (fst (snd (ensureSchema ?T ?db))) = Inr 2" by simp
  obtain r3 d3 w3 where e3: "ensureSchema ?S ?two = (r3, d3, w3)"
    by (cases "ensureSchema ?S ?two") auto
  from ensureSchema_amended [OF e3]
  have "r3 = Inl CouldntFetchSchemaVersion \<and> d3 = ?two \<and> w3 = []"
    by simp
  with e3 have c: "ensureSchema ?S ?two = (Inl CouldntFetchSchemaVersion, ?two, [])"
    by simp
  from a b d c show ?thesis by (intro conjI)
qed


subsection \<open>Event round trip\<close>

lemma filter_distinct_key:
  "distinct (map f xs) \<Longrightarrow> x \<in> set xs \<Longrightarrow> filter (\<lambda>y. f y = f x) xs = [x]"
proof (induction xs)
  case Nil
  then show ?case by simp
next
  case (Cons a xs)
  show ?case
  proof (cases "x = a")
    case True
    from Cons.prems(1) have "\<forall>y\<in>set xs. f y \<noteq> f a" by (auto simp: image_iff)
    then have "filter (\<lambda>y. f y = f a) xs = []" by (simp add: filter_empty_conv)
    with True show ?thesis by simp
  next
    case False
    with Cons.prems have x: "x \<in> set xs" by simp
    with Cons.prems(1) have "f a \<noteq> f x" by (auto simp: image_iff)
    with Cons.IH Cons.prems(1) x show ?thesis by simp
  qed
qed

lemma ids_eq_agree: "ids a = ids b \<Longrightarrow> agree cols a b"
proof -
  assume "ids a = ids b"
  then have "col c a = col c b" for c by (cases c) (simp_all add: ids_def)
  then show ?thesis by (simp add: agree_def list_all_iff)
qed

lemma agree_shares_key:
  assumes "covers_a_key cols" and "agree cols a b"
  shows "(roomid a = roomid b \<and> eventid a = eventid b) \<or> (slackchannel a = slackchannel b \<and> slackts a = slackts b)"
proof -
  from assms(2) have c: "c \<in> set cols \<Longrightarrow> col c a = col c b" for c
    by (simp add: agree_def list_all_iff)
  from assms(1) c [of RoomidCol] c [of EventidCol] c [of SlackchannelCol] c [of SlacktsCol]
  show ?thesis by (auto simp: covers_a_key_def)
qed

lemma row_eq_new: "ids r = ids new \<Longrightarrow> r\<lparr> row_extras := row_extras new \<rparr> = (new :: event_row)"
  by (simp add: ids_def)

lemma filter_after_insert:
  fixes P :: "event_row \<Rightarrow> bool"
  assumes ins: "insert_event S new tbl = Inr tbl'"
    and cov: "covers_a_key (cons_events_unique S)"
    and dist: "distinct (map ids tbl)"
    and other: "\<forall>r\<in>set tbl. (roomid r = roomid new \<and> eventid r = eventid new)
                  \<or> (slackchannel r = slackchannel new \<and> slackts r = slackts new) \<longrightarrow> ids r = ids new"
    and Pids: "\<And>r. P r \<longleftrightarrow> k (ids r)"
    and Pnew: "P new"
    and Pkey: "\<And>r. P r \<Longrightarrow> (roomid r = roomid new \<and> eventid r = eventid new)
                  \<or> (slackchannel r = slackchannel new \<and> slackts r = slackts new)"
  shows "filter P tbl' = [new]"
proof -
  let ?K = "cons_events_unique S"
  let ?upd = "\<lambda>r. if agree ?K new r then r\<lparr> row_extras := row_extras new \<rparr> else r"
  have same: "r \<in> set tbl \<Longrightarrow> P r \<longleftrightarrow> ids r = ids new" for r
    using other Pkey [of r] Pids [of r] Pids [of new] Pnew by auto
  have Pupd: "P (?upd r) = P r" for r
    by (simp add: Pids ids_def)
  show ?thesis
  proof (cases "list_ex (agree ?K new) tbl")
    case True
    then obtain r0 where r0: "r0 \<in> set tbl" "agree ?K new r0" by (auto simp: list_ex_iff)
    from agree_shares_key [OF cov r0(2)] other r0(1) have i0: "ids r0 = ids new" by auto
    from True ins have t: "tbl' = map ?upd tbl" by (simp add: insert_event_def)
    have "filter P tbl = filter (\<lambda>y. ids y = ids r0) tbl"
      by (rule filter_cong) (simp_all add: same i0)
    also have "\<dots> = [r0]" using dist r0(1) by (rule filter_distinct_key)
    finally have f: "filter P tbl = [r0]" .
    have "filter P tbl' = map ?upd (filter (P \<circ> ?upd) tbl)"
      unfolding t by (simp add: filter_map)
    also have "P \<circ> ?upd = P" by (rule ext) (simp add: Pupd)
    finally have "filter P tbl' = [?upd r0]" using f by simp
    with r0(2) i0 show ?thesis by (simp add: row_eq_new)
  next
    case False
    with ins have t: "tbl' = tbl @ [new]"
      by (auto simp: insert_event_def split: if_splits)
    have "\<forall>r\<in>set tbl. \<not> P r"
    proof
      fix r assume r: "r \<in> set tbl"
      show "\<not> P r"
      proof
        assume "P r"
        with same [OF r] have "ids new = ids r" by simp
        then have "agree ?K new r" by (rule ids_eq_agree)
        with r False show False by (auto simp: list_ex_iff)
      qed
    qed
    then have "filter P tbl = []" by (simp add: filter_empty_conv)
    with t Pnew show ?thesis by simp
  qed
qed

text \<open>
  Claim C1, as stated, fails. With \<open>cons_events_unique\<close> over the four id columns, a
  second entry for the same (roomId, eventId) with another Slack timestamp is stored
  beside the first and getEventByMatrixId then rejects (two rows); a second Matrix
  event for the same (slackChannelId, slackTs) makes getEventBySlackId reject in the
  same way. With \<open>cons_events_unique\<close> over (roomid, eventid) only, the second upsert
  rewrites nothing but the extras and getEventByMatrixId returns the first timestamp.
\<close>

theorem upsertEvent_roundtrip_counterexample:
  "upsertEvent \<lparr> cons_events_unique = [EventidCol, RoomidCol, SlackchannelCol, SlacktsCol], other_unique = [] \<rparr>
      (Fields ''!r'' ''$e1'' ''C1'' ''2.0'' None)
      [\<lparr> roomid = ''!r'', eventid = ''$e1'', slackchannel = ''C1'', slackts = ''1.0'', row_extras = [] \<rparr>]
    = Inr [\<lparr> roomid = ''!r'', eventid = ''$e1'', slackchannel = ''C1'', slackts = ''1.0'', row_extras = [] \<rparr>,
           \<lparr> roomid = ''!r'', eventid = ''$e1'', slackchannel = ''C1'', slackts = ''2.0'', row_extras = [] \<rparr>]
   \<and> getEventByMatrixId
        [\<lparr> roomid = ''!r'', eventid = ''$e1'', slackchannel = ''C1'', slackts = ''1.0'', row_extras = [] \<rparr>,
         \<lparr> roomid = ''!r'', eventid = ''$e1'', slackchannel = ''C1'', slackts = ''2.0'', row_extras = [] \<rparr>]
        ''!r'' ''$e1'' = Inl QueryResultError
   \<and> upsertEvent \<lparr> cons_events_unique = [EventidCol, RoomidCol, SlackchannelCol, SlacktsCol], other_unique = [] \<rparr>
      (Fields ''!r'' ''$e2'' ''C1'' ''1.0'' None)
      [\<lparr> roomid = ''!r'', eventid = ''$e1'', slackchannel = ''C1'', slackts = ''1.0'', row_extras = [] \<rparr>]
    = Inr [\<lparr> roomid = ''!r'', eventid = ''$e1'', slackchannel = ''C1'', slackts = ''1.0'', row_extras = [] \<rparr>,
           \<lparr> roomid = ''!r'', eventid = ''$e2'', slackchannel = ''C1'', slackts = ''1.0'', row_extras = [] \<rparr>]
   \<and> getEventBySlackId
        [\<lparr> roomid = ''!r'', eventid = ''$e1'', slackchannel = ''C1'', slackts = ''1.0'', row_extras = [] \<rparr>,
         \<lparr> roomid = ''!r'', eventid = ''$e2'', slackchannel = ''C1'', slackts = ''1.0'', row_extras = [] \<rparr>]
        ''C1'' ''1.0'' = Inl QueryResultError
   \<and> upsertEvent \<lparr> cons_events_unique = [RoomidCol, EventidCol], other_unique = [] \<rparr>
      (Fields ''!r'' ''$e1'' ''C1'' ''2.0'' None)
      [\<lparr> roomid = ''!r'', eventid = ''$e1'', slackchannel = ''C1'', slackts = ''1.0'', row_extras = [] \<rparr>]
    = Inr [\<lparr> roomid = ''!r'', eventid = ''$e1'', slackchannel = ''C1'', slackts = ''1.0'', row_extras = [] \<rparr>]
   \<and> getEventByMatrixId
        [\<lparr> roomid = ''!r'', eventid = ''$e1'', slackchannel = ''C1'', slackts = ''1.0'', row_extras = [] \<rparr>]
        ''!r'' ''$e1''
    = Inr (Some \<lparr> roomId = ''!r'', eventId = ''$e1'', slackChannelId = ''C1'', slackTs = ''1.0'', extras = [] \<rparr>)"
  by (simp add: upsertEvent_def insert_event_def row_of_def agree_def
        getEventByMatrixId_def getEventBySlackId_def)

text \<open>
  Claim C1, amended. Let the constraint \<open>cons_events_unique\<close> cover (roomid, eventid) or
  (slackchannel, slackts), and let the table hold no two rows with the same four ids.
  When upsertEvent, in either calling form, stores an entry while every row that shares
  its (roomId, eventId) or its (slackChannelId, slackTs) has the same four ids (no
  other entry uses either key), then getEventByMatrixId with its (roomId, eventId) and
  getEventBySlackId with its (slackChannelId, slackTs) both return the entry. The
  positional form stores what the entry form stores for the entry built from the fields.
\<close>

theorem upsertEvent_roundtrip:
  assumes "covers_a_key (cons_events_unique S)"
    and "distinct (map ids tbl)"
    and "\<forall>r\<in>set tbl.
           (roomid r = roomId (entry_of args) \<and> eventid r = eventId (entry_of args))
           \<or> (slackchannel r = slackChannelId (entry_of args) \<and> slackts r = slackTs (entry_of args))
           \<longrightarrow> ids r = ids (row_of (entry_of args))"
    and "upsertEvent S args tbl = Inr tbl'"
  shows "getEventByMatrixId tbl' (roomId (entry_of args)) (eventId (entry_of args)) = Inr (Some (entry_of args))
       \<and> getEventBySlackId tbl' (slackChannelId (entry_of args)) (slackTs (entry_of args)) = Inr (Some (entry_of args))
       \<and> upsertEvent S (Entry (entry_of args)) tbl = upsertEvent S args tbl"
proof -
  let ?e = "entry_of args"
  let ?new = "row_of ?e"
  from assms(4) have ins: "insert_event S ?new tbl = Inr tbl'" by (simp add: upsertEvent_def)
  from assms(3) have other: "\<forall>r\<in>set tbl. (roomid r = roomid ?new \<and> eventid r = eventid ?new)
                  \<or> (slackchannel r = slackchannel ?new \<and> slackts r = slackts ?new) \<longrightarrow> ids r = ids ?new"
    by (simp add: row_of_def)
  have m: "filter (\<lambda>r. roomid r = roomId ?e \<and> eventid r = eventId ?e) tbl' = [?new]"
    by (rule filter_after_insert [OF ins assms(1,2) other,
          where k = "\<lambda>(a, b, c, d). a = roomId ?e \<and> b = eventId ?e"])
       (simp_all add: ids_def row_of_def)
  have sl: "filter (\<lambda>r. slackchannel r = slackChannelId ?e \<and> slackts r = slackTs ?e) tbl' = [?new]"
    by (rule filter_after_insert [OF ins assms(1,2) other,
          where k = "\<lambda>(a, b, c, d). c = slackChannelId ?e \<and> d = slackTs ?e"])
       (simp_all add: ids_def row_of_def)
  have a: "getEventByMatrixId tbl' (roomId ?e) (eventId ?e) = Inr (Some ?e)"
    by (simp add: getEventByMatrixId_def m row_of_def)
  have b: "getEventBySlackId tbl' (slackChannelId ?e) (slackTs ?e) = Inr (Some ?e)"
    by (simp add: getEventBySlackId_def sl row_of_def)
  have c: "upsertEvent S (Entry ?e) tbl = upsertEvent S args tbl"
    by (simp add: upsertEvent_def)
  from a b c show ?thesis by simp
qed

theorem upsertEvent_roundtrip_witness:
  "getEventByMatrixId
      [\<lparr> roomid = ''!r'', eventid = ''$e1'', slackchannel = ''C1'', slackts = ''1.0'', row_extras = [] \<rparr>,
       \<lparr> roomid = ''!r'', eventid = ''$e2'', slackchannel = ''C1'', slackts = ''2.0'', row_extras = [] \<rparr>]
      ''!r'' ''$e2''
     = Inr (Some \<lparr> roomId = ''!r'', eventId = ''$e2'', slackChannelId = ''C1'', slackTs = ''2.0'', extras = [] \<rparr>)
   \<and> getEventBySlackId
      [\<lparr> roomid = ''!r'', eventid = ''$e1'', slackchannel = ''C1'', slackts = ''1.0'', row_extras = [] \<rparr>,
       \<lparr> roomid = ''!r'', eventid = ''$e2'', slackchannel = ''C1'', slackts = ''2.0'', row_extras = [] \<rparr>]
      ''C1'' ''2.0''
     = Inr (Some \<lparr> roomId = ''!r'', eventId = ''$e2'', slackChannelId = ''C1'', slackTs = ''2.0'', extras = [] \<rparr>)"
proof -
  let ?S = "\<lparr> cons_events_unique = [EventidCol, RoomidCol, SlackchannelCol, SlacktsCol], other_unique = [] \<rparr>"
  let ?tbl = "[\<lparr> roomid = ''!r'', eventid = ''$e1'', slackchannel = ''C1'', slackts = ''1.0'', row_extras = [] \<rparr>]"
  let ?args = "Fields ''!r'' ''$e2'' ''C1'' ''2.0'' None"
  have h1: "covers_a_key (cons_events_unique ?S)" by (simp add: covers_a_key_def)
  have h2: "distinct (map ids ?tbl)" by simp
  have h3: "\<forall>r\<in>set ?tbl.
           (roomid r = roomId (entry_of ?args) \<and> eventid r = eventId (entry_of ?args))
           \<or> (slackchannel r = slackChannelId (entry_of ?args) \<and> slackts r = slackTs (entry_of ?args))
           \<longrightarrow> ids r = ids (row_of (entry_of ?args))" by simp
  have h4: "upsertEvent ?S ?args ?tbl =
      Inr [\<lparr> roomid = ''!r'', eventid = ''$e1'', slackchannel = ''C1'', slackts = ''1.0'', row_extras = [] \<rparr>,
       \<lparr> roomid = ''!r'', eventid = ''$e2'', slackchannel = ''C1'', slackts = ''2.0'', row_extras = [] \<rparr>]"
    by (simp add: upsertEvent_def insert_event_def row_of_def agree_def)
  from upsertEvent_roundtrip [OF h1 h2 h3 h4] show ?thesis by simp
qed


subsection \<open>Overlapping profile updates\<close>

lemma run_resumes_flag:
  "list_all is_resume evs \<Longrightarrow>
     updateInProgress (ghost (run_updates env room config evs s)) = updateInProgress (ghost s)"
proof (induction evs arbitrary: s)
  case Nil
  show ?case by simp
next
  case (Cons e es)
  from Cons.prems obtain i kind where e: "e = Resume i kind" by (cases e) simp_all
  from Cons.prems have "list_all is_resume es" by simp
  from Cons.IH [OF this, of "update_step env room config e s"]
    update_step_resume_kept [of env room config i kind s] e
  show ?case by (simp add: kept_def)
qed

lemma update_step_inactive_noop:
  assumes "inactive j s" and "ev = Resume j kind \<or> ev = Complete j"
  shows "update_step env room config ev s = s"
proof -
  from assms(1) have n: "find (is_op j kind) (suspended s) = None"
    by (auto simp: inactive_def list_ex_iff find_None_iff is_op_def)
  from assms n show ?thesis by (auto simp: inactive_def)
qed

lemma update_step_other:
  assumes "inactive j s" and "event_call ev \<noteq> j"
  shows "inactive j (update_step env room config ev s)
       \<and> filter (\<lambda>c. fst c = j) (trace (update_step env room config ev s)) = filter (\<lambda>c. fst c = j) (trace s)"
proof (cases ev)
  case (Call i message)
  with assms(2) have ij: "i \<noteq> j" by simp
  show ?thesis
  proof (cases "updateInProgress (ghost s)")
    case True
    with Call ij assms(1) show ?thesis by (simp add: inactive_def)
  next
    case False
    obtain p1 g1 effs1 where a: "updateDisplayname_call env message room config ((ghost s)\<lparr> updateInProgress := True \<rparr>) = (p1, g1, effs1)"
      by (metis prod.collapse)
    obtain p2 g2 effs2 where b: "updateAvatar_call env message room g1 = (p2, g2, effs2)"
      by (metis prod.collapse)
    from Call False a b ij assms(1) show ?thesis
      by (auto simp: inactive_def list_ex_iff filter_empty_conv split: option.splits)
  qed
next
  case (Resume i kind)
  with assms(2) have ij: "i \<noteq> j" by simp
  show ?thesis
  proof (cases "find (is_op i kind) (suspended s)")
    case None
    with Resume assms(1) show ?thesis by simp
  next
    case (Some c)
    obtain i' p where c: "c = (i', p)" by (cases c)
    obtain r g tbl effs where ro: "resume_op env config p (ghost s, users s) = (r, (g, tbl), effs)"
      by (metis prod.collapse)
    from Resume Some c ro ij assms(1) show ?thesis
      by (auto simp: inactive_def list_ex_iff filter_empty_conv is_op_def split: sum.splits option.splits)
  qed
next
  case (Complete i)
  with assms(2) have ij: "i \<noteq> j" by simp
  with Complete assms(1) show ?thesis by (auto simp: inactive_def)
qed

lemma run_updates_dropped:
  assumes "inactive j s" and "list_all (\<lambda>ev. \<not> is_call_of j ev) evs"
  shows "filter (\<lambda>c. fst c = j) (trace (run_updates env room config evs s)) = filter (\<lambda>c. fst c = j) (trace s)"
  using assms
proof (induction evs arbitrary: s)
  case Nil
  show ?case by simp
next
  case (Cons e es)
  from Cons.prems(2) have es: "list_all (\<lambda>ev. \<not> is_call_of j ev) es" and e: "\<not> is_call_of j e"
    by simp_all
  show ?case
  proof (cases "event_call e = j")
    case True
    with e have "(\<exists>kind. e = Resume j kind) \<or> e = Complete j" by (cases e) auto
    with Cons.prems(1) have "update_step env room config e s = s"
      by (auto intro: update_step_inactive_noop)
    with Cons.IH [OF Cons.prems(1) es] show ?thesis by simp
  next
    case False
    from update_step_other [OF Cons.prems(1) False, of env room config]
    have i: "inactive j (update_step env room config e s)"
      and f: "filter (\<lambda>c. fst c = j) (trace (update_step env room config e s)) = filter (\<lambda>c. fst c = j) (trace s)"
      by simp_all
    from Cons.IH [OF i es] f show ?thesis by simp
  qed
qed

lemma scenario_no_client:
  assumes "\<not> updateInProgress (ghost s)" and "suspended s = []" and "started s = []" and "i \<noteq> j"
    and "\<not> SlackClient room"
    and "or_else (username m1) (user_name m1) = Some n" and "n \<noteq> []"
    and "displayname (ghost s) \<noteq> Some (n @ interpolate (display_name_suffix config))"
    and "setDisplayName env (n @ interpolate (display_name_suffix config)) = Inr ()"
    and "datastore_rejects env
           \<lparr> avatar_url = avatarHash (ghost s),
             display_name = Some (n @ interpolate (display_name_suffix config)),
             id = userId (ghost s), slack_id = slackId (ghost s), team_id = teamId (ghost s) \<rparr> = None"
  shows "trace (update_step env room config (Call i m1) s)
           = trace s @ [(i, GLog ''Updating user information''),
                        (i, GLog ''Updating displayname''),
                        (i, CallSetDisplayName (n @ interpolate (display_name_suffix config)))]"
    and "trace (run_updates env room config
            [Call i m1, Call j m2, Resume i OpDisplayname, Resume i OpDisplayname, Complete i] s)
           = trace s @ [(i, GLog ''Updating user information''),
                        (i, GLog ''Updating displayname''),
                        (i, CallSetDisplayName (n @ interpolate (display_name_suffix config))),
                        (j, GLog ''Not updating: Update in progress.''),
                        (i, CallUpsertUser
                           \<lparr> avatar_url = avatarHash (ghost s),
                             display_name = Some (n @ interpolate (display_name_suffix config)),
                             id = userId (ghost s), slack_id = slackId (ghost s), team_id = teamId (ghost s) \<rparr>),
                        (i, GLog ''Completed update'')]"
    and "displayname (ghost (run_updates env room config
            [Call i m1, Call j m2, Resume i OpDisplayname, Resume i OpDisplayname, Complete i] s))
           = Some (n @ interpolate (display_name_suffix config))"
    and "\<not> updateInProgress (ghost (run_updates env room config
            [Call i m1, Call j m2, Resume i OpDisplayname, Resume i OpDisplayname, Complete i] s))"
  using assms
  by (simp_all add: updateDisplayname_call_def updateAvatar_call_def setDisplayName_call_def Let_def
      is_op_def resume_op_def updateDisplayname_resume_def toEntry_def)

lemma scenario_user_profile:
  assumes idle: "\<not> updateInProgress (ghost s)" "suspended s = []" "started s = []" and ij: "i \<noteq> j"
    and room: "SlackClient room"
    and msg: "\<not> truthy_str (bot_id m1)" "truthy_str (user_id m1)"
    and cache: "userInfoCache (ghost s) = None" "userInfoLoading (ghost s) = None"
    and info: "users_info env (slackId (ghost s)) = Inr \<lparr> resp_user = Some u \<rparr>"
    and prof: "profile u = Some p"
    and name: "or_else (display_name_p p) (real_name p) = Some n" "n \<noteq> []"
      "displayname (ghost s) \<noteq> Some (n @ interpolate (display_name_suffix config))"
    and image: "first_truthy (images p) = Some url" "url \<noteq> []"
    and hash: "avatar_hash p = Some h" "2 \<le> length h" "avatarHash (ghost s) \<noteq> Some h"
    and answers: "setDisplayName env (n @ interpolate (display_name_suffix config)) = Inr ()"
      "rp env url = Inr (mimetype, body)"
      "uploadContent env mimetype h body = Inr contentUri"
      "setAvatarUrl env contentUri = Inr ()"
      "\<forall>e. datastore_rejects env e = None"
  shows "trace (run_updates env room config
            [Call i m1, Call j m2,
             Resume i OpDisplayname, Resume i OpAvatar,
             Resume i OpDisplayname, Resume i OpAvatar,
             Resume i OpDisplayname, Resume i OpAvatar,
             Resume i OpAvatar, Resume i OpAvatar, Complete i] s)
           = trace s @ [(i, GLog ''Updating user information''),
                        (i, GLog ''Using fresh userInfo''),
                        (i, CallUsersInfo (slackId (ghost s))),
                        (j, GLog ''Not updating: Update in progress.''),
                        (i, GLog ''Updating displayname''),
                        (i, CallSetDisplayName (n @ interpolate (display_name_suffix config))),
                        (i, GLog ''Updating avatar''),
                        (i, CallFetch url),
                        (i, CallUpsertUser
                           \<lparr> avatar_url = avatarHash (ghost s),
                             display_name = Some (n @ interpolate (display_name_suffix config)),
                             id = userId (ghost s), slack_id = slackId (ghost s), team_id = teamId (ghost s) \<rparr>),
                        (i, CallUploadContent mimetype h),
                        (i, GLog ''Media uploaded''),
                        (i, CallSetAvatarUrl contentUri),
                        (i, CallUpsertUser
                           \<lparr> avatar_url = Some h,
                             display_name = Some (n @ interpolate (display_name_suffix config)),
                             id = userId (ghost s), slack_id = slackId (ghost s), team_id = teamId (ghost s) \<rparr>),
                        (i, GLog ''Completed update'')]"
    (is "trace (run_updates env room config ?evs s) = ?tr")
    and "displayname (ghost (run_updates env room config
            [Call i m1, Call j m2,
             Resume i OpDisplayname, Resume i OpAvatar,
             Resume i OpDisplayname, Resume i OpAvatar,
             Resume i OpDisplayname, Resume i OpAvatar,
             Resume i OpAvatar, Resume i OpAvatar, Complete i] s))
           = Some (n @ interpolate (display_name_suffix config))"
    and "avatarHash (ghost (run_updates env room config
            [Call i m1, Call j m2,
             Resume i OpDisplayname, Resume i OpAvatar,
             Resume i OpDisplayname, Resume i OpAvatar,
             Resume i OpDisplayname, Resume i OpAvatar,
             Resume i OpAvatar, Resume i OpAvatar, Complete i] s)) = Some h"
    and "\<not> updateInProgress (ghost (run_updates env room config
            [Call i m1, Call j m2,
             Resume i OpDisplayname, Resume i OpAvatar,
             Resume i OpDisplayname, Resume i OpAvatar,
             Resume i OpDisplayname, Resume i OpAvatar,
             Resume i OpAvatar, Resume i OpAvatar, Complete i] s))"
proof -
  let ?n = "n @ interpolate (display_name_suffix config)"
  let ?r = "Inr \<lparr> resp_user = Some u \<rparr> :: error + users_info_response"
  let ?g1 = "(ghost s)\<lparr> updateInProgress := True, userInfoLoading := Some ?r \<rparr>"
  let ?g2 = "?g1\<lparr> userInfoCache := Some u, userInfoLoading := None \<rparr>"
  let ?g3 = "?g2\<lparr> displayname := Some ?n \<rparr>"
  let ?g4 = "?g3\<lparr> avatarHash := Some h \<rparr>"
  let ?e1 = "\<lparr> avatar_url = avatarHash (ghost s), display_name = Some ?n,
               id = userId (ghost s), slack_id = slackId (ghost s), team_id = teamId (ghost s) \<rparr>"
  let ?e2 = "\<lparr> avatar_url = Some h, display_name = Some ?n,
               id = userId (ghost s), slack_id = slackId (ghost s), team_id = teamId (ghost s) \<rparr>"
  let ?join = "Avatar (AvatarUserInfo (FromInFlight ?r))"
  let ?t1 = "trace s @ [(i, GLog ''Updating user information''), (i, GLog ''Using fresh userInfo''),
                        (i, CallUsersInfo (slackId (ghost s)))]"
  let ?t2 = "?t1 @ [(j, GLog ''Not updating: Update in progress.'')]"
  let ?t3 = "?t2 @ [(i, GLog ''Updating displayname''), (i, CallSetDisplayName ?n)]"
  let ?t4 = "?t3 @ [(i, GLog ''Updating avatar''), (i, CallFetch url)]"
  let ?t5 = "?t4 @ [(i, CallUpsertUser ?e1)]"
  let ?t6 = "?t5 @ [(i, CallUploadContent mimetype h)]"
  let ?t8 = "?t6 @ [(i, GLog ''Media uploaded''), (i, CallSetAvatarUrl contentUri)]"
  let ?t9 = "?t8 @ [(i, CallUpsertUser ?e2)]"
  let ?s1 = "s\<lparr> ghost := ?g1, suspended := [(i, Displayname (NameUserInfo FromRequest)), (i, ?join)],
               started := [i], trace := ?t1 \<rparr>"
  let ?s2 = "?s1\<lparr> trace := ?t2 \<rparr>"
  let ?s3 = "?s2\<lparr> ghost := ?g2, suspended := [(i, Displayname (NameSetDisplayName ?n)), (i, ?join)], trace := ?t3 \<rparr>"
  let ?s4 = "?s3\<lparr> suspended := [(i, Displayname (NameSetDisplayName ?n)), (i, Avatar (AvatarRp url (Some h) h))],
                trace := ?t4 \<rparr>"
  let ?s5 = "?s4\<lparr> ghost := ?g3,
                suspended := [(i, Displayname (NameUpsertUser ?e1)), (i, Avatar (AvatarRp url (Some h) h))],
                trace := ?t5 \<rparr>"
  let ?s6 = "?s5\<lparr> suspended := [(i, Displayname (NameUpsertUser ?e1)),
                        (i, Avatar (AvatarUploadContent (Some h) mimetype h body))],
                trace := ?t6 \<rparr>"
  let ?s7 = "?s6\<lparr> users := insert_user (userId (ghost s)) True (EntryDoc ?e1) (users s),
                suspended := [(i, Avatar (AvatarUploadContent (Some h) mimetype h body))] \<rparr>"
  let ?s8 = "?s7\<lparr> suspended := [(i, Avatar (AvatarSetAvatarUrl (Some h) contentUri))], trace := ?t8 \<rparr>"
  let ?s9 = "?s8\<lparr> ghost := ?g4, suspended := [(i, Avatar (AvatarUpsertUser ?e2))], trace := ?t9 \<rparr>"
  let ?s10 = "?s9\<lparr> users := insert_user (userId (ghost s)) True (EntryDoc ?e2)
                          (insert_user (userId (ghost s)) True (EntryDoc ?e1) (users s)),
                 suspended := [] \<rparr>"
  let ?s11 = "?s10\<lparr> ghost := ?g4\<lparr> updateInProgress := False \<rparr>, started := [],
                  trace := ?t9 @ [(i, GLog ''Completed update'')] \<rparr>"
  have 1: "update_step env room config (Call i m1) s = ?s1"
    using idle room msg cache info
    by (simp add: updateDisplayname_call_def updateAvatar_call_def lookupUserInfo_call_def Let_def)
  have 2: "update_step env room config (Call j m2) ?s1 = ?s2" by simp
  have 3: "update_step env room config (Resume i OpDisplayname) ?s2 = ?s3"
    using info prof name
    by (simp add: is_op_def resume_op_def updateDisplayname_resume_def lookupUserInfo_resume_def
        profile_name_def setDisplayName_call_def Let_def)
  have hne: "h \<noteq> []" using hash(2) by auto
  have 4: "update_step env room config (Resume i OpAvatar) ?s3 = ?s4"
    using prof image hash hne
    by (simp add: is_op_def resume_op_def updateAvatar_resume_def lookupUserInfo_resume_def
        profile_avatar_def rp_call_def)
  have 5: "update_step env room config (Resume i OpDisplayname) ?s4 = ?s5"
    using answers(1)
    by (simp add: is_op_def resume_op_def updateDisplayname_resume_def toEntry_def)
  have 6: "update_step env room config (Resume i OpAvatar) ?s5 = ?s6"
    using answers(2)
    by (simp add: is_op_def resume_op_def updateAvatar_resume_def)
  have 7: "update_step env room config (Resume i OpDisplayname) ?s6 = ?s7"
    using answers(5)
    by (simp add: is_op_def resume_op_def updateDisplayname_resume_def)
  have 8: "update_step env room config (Resume i OpAvatar) ?s7 = ?s8"
    using answers(3)
    by (simp add: is_op_def resume_op_def updateAvatar_resume_def)
  have 9: "update_step env room config (Resume i OpAvatar) ?s8 = ?s9"
    using answers(4)
    by (simp add: is_op_def resume_op_def updateAvatar_resume_def toEntry_def)
  have 10: "update_step env room config (Resume i OpAvatar) ?s9 = ?s10"
    using answers(5)
    by (simp add: is_op_def resume_op_def updateAvatar_resume_def)
  have 11: "update_step env room config (Complete i) ?s10 = ?s11" by simp
  have run: "run_updates env room config ?evs s = ?s11"
    by (simp only: run_updates.simps 1 2 3 4 5 6 7 8 9 10 11)
  show "trace (run_updates env room config ?evs s) = ?tr"
    unfolding run by simp
  show "displayname (ghost (run_updates env room config ?evs s)) = Some ?n"
    unfolding run by simp
  show "avatarHash (ghost (run_updates env room config ?evs s)) = Some h"
    unfolding run by simp
  show "\<not> updateInProgress (ghost (run_updates env room config ?evs s))"
    unfolding run by simp
qed


lemma run_updates_append:
  "run_updates env room config (xs @ ys) s = run_updates env room config ys (run_updates env room config xs s)"
  by (induction xs arbitrary: s) simp_all

lemma update_step_call_sets_flag:
  "updateInProgress (ghost (update_step env room config (Call i message) s))"
proof (cases "updateInProgress (ghost s)")
  case True
  then show ?thesis by simp
next
  case False
  obtain p1 g1 effs1 where a: "updateDisplayname_call env message room config ((ghost s)\<lparr> updateInProgress := True \<rparr>) = (p1, g1, effs1)"
    by (metis prod.collapse)
  obtain p2 g2 effs2 where b: "updateAvatar_call env message room g1 = (p2, g2, effs2)"
    by (metis prod.collapse)
  from updateDisplayname_call_kept [OF a] updateAvatar_call_kept [OF b]
  have "updateInProgress g2" by (simp add: kept_def)
  with False a b show ?thesis by simp
qed

lemma update_step_trace_extends:
  "\<exists>new. trace (update_step env room config ev s) = trace s @ new"
proof (cases ev)
  case (Call i message)
  obtain p1 g1 effs1 where a: "updateDisplayname_call env message room config ((ghost s)\<lparr> updateInProgress := True \<rparr>) = (p1, g1, effs1)"
    by (metis prod.collapse)
  obtain p2 g2 effs2 where b: "updateAvatar_call env message room g1 = (p2, g2, effs2)"
    by (metis prod.collapse)
  from Call a b show ?thesis by simp
next
  case (Resume i kind)
  show ?thesis
  proof (cases "find (is_op i kind) (suspended s)")
    case None
    with Resume show ?thesis by simp
  next
    case (Some c)
    obtain i' p where c: "c = (i', p)" by (cases c)
    obtain r g tbl effs where ro: "resume_op env config p (ghost s, users s) = (r, (g, tbl), effs)"
      by (metis prod.collapse)
    from Resume Some c ro show ?thesis by simp
  qed
next
  case (Complete i)
  then show ?thesis by simp
qed

lemma run_updates_trace_extends:
  "\<exists>new. trace (run_updates env room config evs s) = trace s @ new"
proof (induction evs arbitrary: s)
  case Nil
  show ?case by simp
next
  case (Cons e es)
  from Cons.IH [of "update_step env room config e s"] update_step_trace_extends [of env room config e s]
  show ?case by auto
qed

lemma update_step_apart_from_trace:
  assumes "ghost s = ghost s'" and "users s = users s'" and "suspended s = suspended s'" and "started s = started s'"
  shows "ghost (update_step env room config ev s) = ghost (update_step env room config ev s')
       \<and> users (update_step env room config ev s) = users (update_step env room config ev s')
       \<and> suspended (update_step env room config ev s) = suspended (update_step env room config ev s')
       \<and> started (update_step env room config ev s) = started (update_step env room config ev s')
       \<and> (\<exists>new. trace (update_step env room config ev s) = trace s @ new
              \<and> trace (update_step env room config ev s') = trace s' @ new)"
proof (cases ev)
  case (Call i message)
  obtain p1 g1 effs1 where a: "updateDisplayname_call env message room config ((ghost s')\<lparr> updateInProgress := True \<rparr>) = (p1, g1, effs1)"
    by (metis prod.collapse)
  obtain p2 g2 effs2 where b: "updateAvatar_call env message room g1 = (p2, g2, effs2)"
    by (metis prod.collapse)
  from Call a b assms show ?thesis by simp
next
  case (Resume i kind)
  show ?thesis
  proof (cases "find (is_op i kind) (suspended s')")
    case None
    with Resume assms show ?thesis by simp
  next
    case (Some c)
    obtain i' p where c: "c = (i', p)" by (cases c)
    obtain r g tbl effs where ro: "resume_op env config p (ghost s', users s') = (r, (g, tbl), effs)"
      by (metis prod.collapse)
    from Resume Some c ro assms show ?thesis by (simp split: sum.splits option.splits)
  qed
next
  case (Complete i)
  with assms show ?thesis by simp
qed

lemma run_updates_apart_from_trace:
  assumes "ghost s = ghost s'" and "users s = users s'" and "suspended s = suspended s'" and "started s = started s'"
    and "filter P (trace s) = filter P (trace s')"
  shows "ghost (run_updates env room config evs s) = ghost (run_updates env room config evs s')
       \<and> users (run_updates env room config evs s) = users (run_updates env room config evs s')
       \<and> suspended (run_updates env room config evs s) = suspended (run_updates env room config evs s')
       \<and> started (run_updates env room config evs s) = started (run_updates env room config evs s')
       \<and> filter P (trace (run_updates env room config evs s))
           = filter P (trace (run_updates env room config evs s'))"
  using assms
proof (induction evs arbitrary: s s')
  case Nil
  then show ?case by simp
next
  case (Cons e es)
  from update_step_apart_from_trace [OF Cons.prems(1-4), of env room config e]
  obtain new where g: "ghost (update_step env room config e s) = ghost (update_step env room config e s')"
    and u: "users (update_step env room config e s) = users (update_step env room config e s')"
    and o: "suspended (update_step env room config e s) = suspended (update_step env room config e s')"
    and st: "started (update_step env room config e s) = started (update_step env room config e s')"
    and t: "trace (update_step env room config e s) = trace s @ new"
           "trace (update_step env room config e s') = trace s' @ new"
    by blast
  from t Cons.prems(5)
  have f: "filter P (trace (update_step env room config e s)) = filter P (trace (update_step env room config e s'))"
    by simp
  from Cons.IH [OF g u o st f] show ?case by simp
qed

lemma run_updates_inactive:
  assumes "inactive j s" and "list_all (\<lambda>ev. \<not> is_call_of j ev) evs"
  shows "inactive j (run_updates env room config evs s)"
  using assms
proof (induction evs arbitrary: s)
  case Nil
  then show ?case by simp
next
  case (Cons e es)
  from Cons.prems(2) have es: "list_all (\<lambda>ev. \<not> is_call_of j ev) es" and e: "\<not> is_call_of j e"
    by simp_all
  show ?case
  proof (cases "event_call e = j")
    case True
    with e have "(\<exists>kind. e = Resume j kind) \<or> e = Complete j" by (cases e) auto
    with Cons.prems(1) have "update_step env room config e s = s"
      by (auto intro: update_step_inactive_noop)
    with Cons.IH [OF Cons.prems(1) es] show ?thesis by simp
  next
    case False
    from update_step_other [OF Cons.prems(1) False, of env room config]
    have i: "inactive j (update_step env room config e s)" by simp
    from Cons.IH [OF i es] show ?thesis by simp
  qed
qed

lemma is_resume_not_call: "list_all is_resume evs \<Longrightarrow> list_all (\<lambda>ev. \<not> is_call_of j ev) evs"
proof (induction evs)
  case Nil
  show ?case by simp
next
  case (Cons e es)
  then show ?case by (cases e) simp_all
qed

lemma second_call_dropped:
  assumes idle: "\<not> updateInProgress (ghost s)" and fresh: "inactive j s" and ij: "i \<noteq> j"
    and evs1: "list_all is_resume evs1"
    and evs2: "list_all (\<lambda>ev. \<not> is_call_of j ev) evs2"
  shows "updateInProgress (ghost (run_updates env room config (Call i m1 # evs1) s))"
    and "filter (\<lambda>c. fst c = j)
           (trace (run_updates env room config (Call i m1 # evs1 @ Call j m2 # evs2) s))
         = filter (\<lambda>c. fst c = j) (trace s) @ [(j, GLog ''Not updating: Update in progress.'')]"
    and "list_all (\<lambda>c. fst c = j \<longrightarrow> \<not> is_mutation (snd c))
           (drop (length (trace s))
              (trace (run_updates env room config (Call i m1 # evs1 @ Call j m2 # evs2) s)))"
    and "ghost (run_updates env room config (Call i m1 # evs1 @ Call j m2 # evs2) s)
           = ghost (run_updates env room config (Call i m1 # evs1 @ evs2) s)
       \<and> users (run_updates env room config (Call i m1 # evs1 @ Call j m2 # evs2) s)
           = users (run_updates env room config (Call i m1 # evs1 @ evs2) s)
       \<and> suspended (run_updates env room config (Call i m1 # evs1 @ Call j m2 # evs2) s)
           = suspended (run_updates env room config (Call i m1 # evs1 @ evs2) s)
       \<and> started (run_updates env room config (Call i m1 # evs1 @ Call j m2 # evs2) s)
           = started (run_updates env room config (Call i m1 # evs1 @ evs2) s)
       \<and> filter (\<lambda>c. fst c \<noteq> j)
            (trace (run_updates env room config (Call i m1 # evs1 @ Call j m2 # evs2) s))
           = filter (\<lambda>c. fst c \<noteq> j)
               (trace (run_updates env room config (Call i m1 # evs1 @ evs2) s))"
proof -
  let ?s1 = "run_updates env room config (Call i m1 # evs1) s"
  let ?log = "(j, GLog ''Not updating: Update in progress.'')"
  let ?s2 = "?s1\<lparr> trace := trace ?s1 @ [?log] \<rparr>"
  let ?with = "run_updates env room config (Call i m1 # evs1 @ Call j m2 # evs2) s"
  let ?without = "run_updates env room config (Call i m1 # evs1 @ evs2) s"
  from run_resumes_flag [OF evs1, of env room config "update_step env room config (Call i m1) s"]
    update_step_call_sets_flag [of env room config i m1 s]
  show flag: "updateInProgress (ghost ?s1)" by simp
  have nc: "list_all (\<lambda>ev. \<not> is_call_of j ev) (Call i m1 # evs1)"
    using ij is_resume_not_call [OF evs1, of j] by simp
  from run_updates_inactive [OF fresh nc] have in1: "inactive j ?s1" .
  from run_updates_dropped [OF fresh nc]
  have f1: "filter (\<lambda>c. fst c = j) (trace ?s1) = filter (\<lambda>c. fst c = j) (trace s)" .
  have w: "?with = run_updates env room config evs2 ?s2"
    using flag run_updates_append [of env room config "Call i m1 # evs1" "Call j m2 # evs2" s]
    by simp
  have wo: "?without = run_updates env room config evs2 ?s1"
    using run_updates_append [of env room config "Call i m1 # evs1" evs2 s] by simp
  from in1 have in2: "inactive j ?s2" by (simp add: inactive_def)
  from run_updates_dropped [OF in2 evs2, of env room config] f1
  show f: "filter (\<lambda>c. fst c = j) (trace ?with)
         = filter (\<lambda>c. fst c = j) (trace s) @ [?log]"
    unfolding w by simp
  from run_updates_trace_extends [of env room config "Call i m1 # evs1 @ Call j m2 # evs2" s]
  obtain new where new: "trace ?with = trace s @ new" by blast
  from f new have fn: "filter (\<lambda>c. fst c = j) new = [?log]" by simp
  have "\<forall>c\<in>set new. fst c = j \<longrightarrow> c \<in> set (filter (\<lambda>c. fst c = j) new)" by simp
  then have "\<forall>c\<in>set new. fst c = j \<longrightarrow> c = ?log" unfolding fn by simp
  then have "list_all (\<lambda>c. fst c = j \<longrightarrow> \<not> is_mutation (snd c)) new"
    by (auto simp: list_all_iff)
  with new show "list_all (\<lambda>c. fst c = j \<longrightarrow> \<not> is_mutation (snd c)) (drop (length (trace s)) (trace ?with))"
    by simp
  have "ghost ?s2 = ghost ?s1" "users ?s2 = users ?s1" "suspended ?s2 = suspended ?s1" "started ?s2 = started ?s1"
    "filter (\<lambda>c. fst c \<noteq> j) (trace ?s2) = filter (\<lambda>c. fst c \<noteq> j) (trace ?s1)"
    by simp_all
  from run_updates_apart_from_trace [OF this, of env room config evs2]
  show "ghost ?with = ghost ?without \<and> users ?with = users ?without \<and> suspended ?with = suspended ?without
      \<and> started ?with = started ?without
      \<and> filter (\<lambda>c. fst c \<noteq> j) (trace ?with) = filter (\<lambda>c. fst c \<noteq> j) (trace ?without)"
    unfolding w wo .
qed

text \<open>
  Claim C4. A call of \<open>update\<close> that finds \<open>updateInProgress\<close> set writes one log line and
  changes nothing else: the ghost, the datastore, the suspended operations and the
  started calls stay as they are. Let a call \<open>i\<close> pass the check, then operations resume,
  then \<open>update\<close> is called again as \<open>j\<close> (a number not in use), and the run goes on in
  any way that does not call \<open>j\<close> again. Then the flag is still set when \<open>j\<close> is called;
  all that the trace holds of \<open>j\<close> is that log line, so no mutation call is made under
  \<open>j\<close>; and the run ends with the same ghost, datastore, suspended operations and
  started calls, and the same trace of every other call, as the run without the call
  \<open>j\<close>: nothing of \<open>j\<close> is queued or tried again.

  The mutation calls are those of \<open>i\<close>. Without a Slack client and with a new name in
  the message, the turn of the call \<open>i\<close> itself logs and calls \<open>setDisplayName\<close>, and the
  run makes that call and one \<open>upsertUser\<close>. With a client and a user whose profile has a
  new name and a new avatar, the two operations of \<open>i\<close> share one \<open>users.info\<close> request
  and, taking turns, call \<open>setDisplayName\<close>, fetch the image, store the ghost, upload the
  image, call \<open>setAvatarUrl\<close> and store the ghost again; the ghost ends with the new name
  and avatar hash and the flag clear.
\<close>

theorem update_in_progress_drops:
  assumes "\<not> updateInProgress (ghost s)" and "inactive j s" and "i \<noteq> j"
    and "list_all is_resume evs1"
    and "list_all (\<lambda>ev. \<not> is_call_of j ev) evs2"
  shows "(\<forall>s'. updateInProgress (ghost s') \<longrightarrow>
            update_step env room config (Call j m2) s'
              = s'\<lparr> trace := trace s' @ [(j, GLog ''Not updating: Update in progress.'')] \<rparr>)
       \<and> updateInProgress (ghost (run_updates env room config (Call i m1 # evs1) s))
       \<and> filter (\<lambda>c. fst c = j) (trace (run_updates env room config (Call i m1 # evs1 @ Call j m2 # evs2) s))
           = filter (\<lambda>c. fst c = j) (trace s) @ [(j, GLog ''Not updating: Update in progress.'')]
       \<and> list_all (\<lambda>c. fst c = j \<longrightarrow> \<not> is_mutation (snd c))
            (drop (length (trace s)) (trace (run_updates env room config (Call i m1 # evs1 @ Call j m2 # evs2) s)))
       \<and> ghost (run_updates env room config (Call i m1 # evs1 @ Call j m2 # evs2) s)
           = ghost (run_updates env room config (Call i m1 # evs1 @ evs2) s)
       \<and> users (run_updates env room config (Call i m1 # evs1 @ Call j m2 # evs2) s)
           = users (run_updates env room config (Call i m1 # evs1 @ evs2) s)
       \<and> suspended (run_updates env room config (Call i m1 # evs1 @ Call j m2 # evs2) s)
           = suspended (run_updates env room config (Call i m1 # evs1 @ evs2) s)
       \<and> started (run_updates env room config (Call i m1 # evs1 @ Call j m2 # evs2) s)
           = started (run_updates env room config (Call i m1 # evs1 @ evs2) s)
       \<and> filter (\<lambda>c. fst c \<noteq> j) (trace (run_updates env room config (Call i m1 # evs1 @ Call j m2 # evs2) s))
           = filter (\<lambda>c. fst c \<noteq> j) (trace (run_updates env room config (Call i m1 # evs1 @ evs2) s))
       \<and> (suspended s = [] \<and> started s = [] \<and> \<not> SlackClient room
          \<and> or_else (username m1) (user_name m1) = Some n \<and> n \<noteq> []
          \<and> displayname (ghost s) \<noteq> Some (n @ interpolate (display_name_suffix config))
          \<and> setDisplayName env (n @ interpolate (display_name_suffix config)) = Inr ()
          \<and> datastore_rejects env
               \<lparr> avatar_url = avatarHash (ghost s), display_name = Some (n @ interpolate (display_name_suffix config)),
                        id = userId (ghost s), slack_id = slackId (ghost s), team_id = teamId (ghost s) \<rparr> = None
          \<longrightarrow>
            trace (update_step env room config (Call i m1) s)
              = trace s @ [(i, GLog ''Updating user information''),
                           (i, GLog ''Updating displayname''),
                           (i, CallSetDisplayName (n @ interpolate (display_name_suffix config)))]
          \<and> trace (run_updates env room config [Call i m1, Call j m2, Resume i OpDisplayname, Resume i OpDisplayname, Complete i] s)
              = trace s @ [(i, GLog ''Updating user information''),
                           (i, GLog ''Updating displayname''),
                           (i, CallSetDisplayName (n @ interpolate (display_name_suffix config))),
                           (j, GLog ''Not updating: Update in progress.''),
                           (i, CallUpsertUser
                                \<lparr> avatar_url = avatarHash (ghost s), display_name = Some (n @ interpolate (display_name_suffix config)),
                        id = userId (ghost s), slack_id = slackId (ghost s), team_id = teamId (ghost s) \<rparr>),
                           (i, GLog ''Completed update'')]
          \<and> displayname (ghost (run_updates env room config [Call i m1, Call j m2, Resume i OpDisplayname, Resume i OpDisplayname, Complete i] s)) = Some (n @ interpolate (display_name_suffix config))
          \<and> \<not> updateInProgress (ghost (run_updates env room config [Call i m1, Call j m2, Resume i OpDisplayname, Resume i OpDisplayname, Complete i] s)))
       \<and> (suspended s = [] \<and> started s = [] \<and> SlackClient room
          \<and> \<not> truthy_str (bot_id m1) \<and> truthy_str (user_id m1)
          \<and> userInfoCache (ghost s) = None \<and> userInfoLoading (ghost s) = None
          \<and> users_info env (slackId (ghost s)) = Inr \<lparr> resp_user = Some u \<rparr>
          \<and> profile u = Some p
          \<and> or_else (display_name_p p) (real_name p) = Some n \<and> n \<noteq> []
          \<and> displayname (ghost s) \<noteq> Some (n @ interpolate (display_name_suffix config))
          \<and> first_truthy (images p) = Some url \<and> url \<noteq> []
          \<and> avatar_hash p = Some h \<and> 2 \<le> length h \<and> avatarHash (ghost s) \<noteq> Some h
          \<and> setDisplayName env (n @ interpolate (display_name_suffix config)) = Inr ()
          \<and> rp env url = Inr (mimetype, body)
          \<and> uploadContent env mimetype h body = Inr contentUri
          \<and> setAvatarUrl env contentUri = Inr ()
          \<and> (\<forall>e. datastore_rejects env e = None)
          \<longrightarrow>
            trace (run_updates env room config
                [Call i m1, Call j m2,
                 Resume i OpDisplayname, Resume i OpAvatar,
                 Resume i OpDisplayname, Resume i OpAvatar,
                 Resume i OpDisplayname, Resume i OpAvatar,
                 Resume i OpAvatar, Resume i OpAvatar, Complete i] s)
              = trace s @ [(i, GLog ''Updating user information''),
                           (i, GLog ''Using fresh userInfo''),
                           (i, CallUsersInfo (slackId (ghost s))),
                           (j, GLog ''Not updating: Update in progress.''),
                           (i, GLog ''Updating displayname''),
                           (i, CallSetDisplayName (n @ interpolate (display_name_suffix config))),
                           (i, GLog ''Updating avatar''),
                           (i, CallFetch url),
                           (i, CallUpsertUser
                                \<lparr> avatar_url = avatarHash (ghost s), display_name = Some (n @ interpolate (display_name_suffix config)),
                        id = userId (ghost s), slack_id = slackId (ghost s), team_id = teamId (ghost s) \<rparr>),
                           (i, CallUploadContent mimetype h),
                           (i, GLog ''Media uploaded''),
                           (i, CallSetAvatarUrl contentUri),
                           (i, CallUpsertUser
                                \<lparr> avatar_url = Some h, display_name = Some (n @ interpolate (display_name_suffix config)),
                        id = userId (ghost s), slack_id = slackId (ghost s), team_id = teamId (ghost s) \<rparr>),
                           (i, GLog ''Completed update'')]
          \<and> displayname (ghost (run_updates env room config
                [Call i m1, Call j m2,
                 Resume i OpDisplayname, Resume i OpAvatar,
                 Resume i OpDisplayname, Resume i OpAvatar,
                 Resume i OpDisplayname, Resume i OpAvatar,
                 Resume i OpAvatar, Resume i OpAvatar, Complete i] s)) = Some (n @ interpolate (display_name_suffix config))
          \<and> avatarHash (ghost (run_updates env room config
                [Call i m1, Call j m2,
                 Resume i OpDisplayname, Resume i OpAvatar,
                 Resume i OpDisplayname, Resume i OpAvatar,
                 Resume i OpDisplayname, Resume i OpAvatar,
                 Resume i OpAvatar, Resume i OpAvatar, Complete i] s)) = Some h
          \<and> \<not> updateInProgress (ghost (run_updates env room config
                [Call i m1, Call j m2,
                 Resume i OpDisplayname, Resume i OpAvatar,
                 Resume i OpDisplayname, Resume i OpAvatar,
                 Resume i OpDisplayname, Resume i OpAvatar,
                 Resume i OpAvatar, Resume i OpAvatar, Complete i] s)))"
proof -
  have a: "\<forall>s'. updateInProgress (ghost s') \<longrightarrow>
            update_step env room config (Call j m2) s'
              = s'\<lparr> trace := trace s' @ [(j, GLog ''Not updating: Update in progress.'')] \<rparr>"
    by simp
  note b = second_call_dropped(1) [OF assms, where env = env and room = room and config = config and ?m1.0 = m1]
  note c = second_call_dropped(2) [OF assms, where env = env and room = room and config = config and ?m1.0 = m1 and ?m2.0 = m2]
  note d = second_call_dropped(3) [OF assms, where env = env and room = room and config = config and ?m1.0 = m1 and ?m2.0 = m2]
  note e = second_call_dropped(4) [OF assms, where env = env and room = room and config = config and ?m1.0 = m1 and ?m2.0 = m2]
  have f: "suspended s = [] \<and> started s = [] \<and> \<not> SlackClient room
          \<and> or_else (username m1) (user_name m1) = Some n \<and> n \<noteq> []
          \<and> displayname (ghost s) \<noteq> Some (n @ interpolate (display_name_suffix config))
          \<and> setDisplayName env (n @ interpolate (display_name_suffix config)) = Inr ()
          \<and> datastore_rejects env
               \<lparr> avatar_url = avatarHash (ghost s), display_name = Some (n @ interpolate (display_name_suffix config)),
                        id = userId (ghost s), slack_id = slackId (ghost s), team_id = teamId (ghost s) \<rparr> = None
          \<longrightarrow>
            trace (update_step env room config (Call i m1) s)
              = trace s @ [(i, GLog ''Updating user information''),
                           (i, GLog ''Updating displayname''),
                           (i, CallSetDisplayName (n @ interpolate (display_name_suffix config)))]
          \<and> trace (run_updates env room config [Call i m1, Call j m2, Resume i OpDisplayname, Resume i OpDisplayname, Complete i] s)
              = trace s @ [(i, GLog ''Updating user information''),
                           (i, GLog ''Updating displayname''),
                           (i, CallSetDisplayName (n @ interpolate (display_name_suffix config))),
                           (j, GLog ''Not updating: Update in progress.''),
                           (i, CallUpsertUser
                                \<lparr> avatar_url = avatarHash (ghost s), display_name = Some (n @ interpolate (display_name_suffix config)),
                        id = userId (ghost s), slack_id = slackId (ghost s), team_id = teamId (ghost s) \<rparr>),
                           (i, GLog ''Completed update'')]
          \<and> displayname (ghost (run_updates env room config [Call i m1, Call j m2, Resume i OpDisplayname, Resume i OpDisplayname, Complete i] s)) = Some (n @ interpolate (display_name_suffix config))
          \<and> \<not> updateInProgress (ghost (run_updates env room config [Call i m1, Call j m2, Resume i OpDisplayname, Resume i OpDisplayname, Complete i] s))"
  proof
    assume h: "suspended s = [] \<and> started s = [] \<and> \<not> SlackClient room
          \<and> or_else (username m1) (user_name m1) = Some n \<and> n \<noteq> []
          \<and> displayname (ghost s) \<noteq> Some (n @ interpolate (display_name_suffix config))
          \<and> setDisplayName env (n @ interpolate (display_name_suffix config)) = Inr ()
          \<and> datastore_rejects env
               \<lparr> avatar_url = avatarHash (ghost s), display_name = Some (n @ interpolate (display_name_suffix config)),
                        id = userId (ghost s), slack_id = slackId (ghost s), team_id = teamId (ghost s) \<rparr> = None"
    from h have h1: "suspended s = []" and h2: "started s = []" and h3: "\<not> SlackClient room"
      and h4: "or_else (username m1) (user_name m1) = Some n" and h5: "n \<noteq> []"
      and h6: "displayname (ghost s) \<noteq> Some (n @ interpolate (display_name_suffix config))"
      and h7: "setDisplayName env (n @ interpolate (display_name_suffix config)) = Inr ()"
      and h8: "datastore_rejects env
               \<lparr> avatar_url = avatarHash (ghost s), display_name = Some (n @ interpolate (display_name_suffix config)),
                        id = userId (ghost s), slack_id = slackId (ghost s), team_id = teamId (ghost s) \<rparr> = None"
      by blast+
    from scenario_no_client [OF assms(1) h1 h2 assms(3) h3 h4 h5 h6 h7 h8]
    show "trace (update_step env room config (Call i m1) s)
              = trace s @ [(i, GLog ''Updating user information''),
                           (i, GLog ''Updating displayname''),
                           (i, CallSetDisplayName (n @ interpolate (display_name_suffix config)))]
          \<and> trace (run_updates env room config [Call i m1, Call j m2, Resume i OpDisplayname, Resume i OpDisplayname, Complete i] s)
              = trace s @ [(i, GLog ''Updating user information''),
                           (i, GLog ''Updating displayname''),
                           (i, CallSetDisplayName (n @ interpolate (display_name_suffix config))),
                           (j, GLog ''Not updating: Update in progress.''),
                           (i, CallUpsertUser
                                \<lparr> avatar_url = avatarHash (ghost s), display_name = Some (n @ interpolate (display_name_suffix config)),
                        id = userId (ghost s), slack_id = slackId (ghost s), team_id = teamId (ghost s) \<rparr>),
                           (i, GLog ''Completed update'')]
          \<and> displayname (ghost (run_updates env room config [Call i m1, Call j m2, Resume i OpDisplayname, Resume i OpDisplayname, Complete i] s)) = Some (n @ interpolate (display_name_suffix config))
          \<and> \<not> updateInProgress (ghost (run_updates env room config [Call i m1, Call j m2, Resume i OpDisplayname, Resume i OpDisplayname, Complete i] s))"
      by blast
  qed
  have g: "suspended s = [] \<and> started s = [] \<and> SlackClient room
          \<and> \<not> truthy_str (bot_id m1) \<and> truthy_str (user_id m1)
          \<and> userInfoCache (ghost s) = None \<and> userInfoLoading (ghost s) = None
          \<and> users_info env (slackId (ghost s)) = Inr \<lparr> resp_user = Some u \<rparr>
          \<and> profile u = Some p
          \<and> or_else (display_name_p p) (real_name p) = Some n \<and> n \<noteq> []
          \<and> displayname (ghost s) \<noteq> Some (n @ interpolate (display_name_suffix config))
          \<and> first_truthy (images p) = Some url \<and> url \<noteq> []
          \<and> avatar_hash p = Some h \<and> 2 \<le> length h \<and> avatarHash (ghost s) \<noteq> Some h
          \<and> setDisplayName env (n @ interpolate (display_name_suffix config)) = Inr ()
          \<and> rp env url = Inr (mimetype, body)
          \<and> uploadContent env mimetype h body = Inr contentUri
          \<and> setAvatarUrl env contentUri = Inr ()
          \<and> (\<forall>e. datastore_rejects env e = None)
          \<longrightarrow>
            trace (run_updates env room config
                [Call i m1, Call j m2,
                 Resume i OpDisplayname, Resume i OpAvatar,
                 Resume i OpDisplayname, Resume i OpAvatar,
                 Resume i OpDisplayname, Resume i OpAvatar,
                 Resume i OpAvatar, Resume i OpAvatar, Complete i] s)
              = trace s @ [(i, GLog ''Updating user information''),
                           (i, GLog ''Using fresh userInfo''),
                           (i, CallUsersInfo (slackId (ghost s))),
                           (j, GLog ''Not updating: Update in progress.''),
                           (i, GLog ''Updating displayname''),
                           (i, CallSetDisplayName (n @ interpolate (display_name_suffix config))),
                           (i, GLog ''Updating avatar''),
                           (i, CallFetch url),
                           (i, CallUpsertUser
                                \<lparr> avatar_url = avatarHash (ghost s), display_name = Some (n @ interpolate (display_name_suffix config)),
                        id = userId (ghost s), slack_id = slackId (ghost s), team_id = teamId (ghost s) \<rparr>),
                           (i, CallUploadContent mimetype h),
                           (i, GLog ''Media uploaded''),
                           (i, CallSetAvatarUrl contentUri),
                           (i, CallUpsertUser
                                \<lparr> avatar_url = Some h, display_name = Some (n @ interpolate (display_name_suffix config)),
                        id = userId (ghost s), slack_id = slackId (ghost s), team_id = teamId (ghost s) \<rparr>),
                           (i, GLog ''Completed update'')]
          \<and> displayname (ghost (run_updates env room config
                [Call i m1, Call j m2,
                 Resume i OpDisplayname, Resume i OpAvatar,
                 Resume i OpDisplayname, Resume i OpAvatar,
                 Resume i OpDisplayname, Resume i OpAvatar,
                 Resume i OpAvatar, Resume i OpAvatar, Complete i] s)) = Some (n @ interpolate (display_name_suffix config))
          \<and> avatarHash (ghost (run_updates env room config
                [Call i m1, Call j m2,
                 Resume i OpDisplayname, Resume i OpAvatar,
                 Resume i OpDisplayname, Resume i OpAvatar,
                 Resume i OpDisplayname, Resume i OpAvatar,
                 Resume i OpAvatar, Resume i OpAvatar, Complete i] s)) = Some h
          \<and> \<not> updateInProgress (ghost (run_updates env room config
                [Call i m1, Call j m2,
                 Resume i OpDisplayname, Resume i OpAvatar,
                 Resume i OpDisplayname, Resume i OpAvatar,
                 Resume i OpDisplayname, Resume i OpAvatar,
                 Resume i OpAvatar, Resume i OpAvatar, Complete i] s))"
  proof
    assume h: "suspended s = [] \<and> started s = [] \<and> SlackClient room
          \<and> \<not> truthy_str (bot_id m1) \<and> truthy_str (user_id m1)
          \<and> userInfoCache (ghost s) = None \<and> userInfoLoading (ghost s) = None
          \<and> users_info env (slackId (ghost s)) = Inr \<lparr> resp_user = Some u \<rparr>
          \<and> profile u = Some p
          \<and> or_else (display_name_p p) (real_name p) = Some n \<and> n \<noteq> []
          \<and> displayname (ghost s) \<noteq> Some (n @ interpolate (display_name_suffix config))
          \<and> first_truthy (images p) = Some url \<and> url \<noteq> []
          \<and> avatar_hash p = Some h \<and> 2 \<le> length h \<and> avatarHash (ghost s) \<noteq> Some h
          \<and> setDisplayName env (n @ interpolate (display_name_suffix config)) = Inr ()
          \<and> rp env url = Inr (mimetype, body)
          \<and> uploadContent env mimetype h body = Inr contentUri
          \<and> setAvatarUrl env contentUri = Inr ()
          \<and> (\<forall>e. datastore_rejects env e = None)"
    from h have h1: "suspended s = []" and h2: "started s = []" and h3: "SlackClient room"
      and h4: "\<not> truthy_str (bot_id m1)" and h5: "truthy_str (user_id m1)"
      and h6: "userInfoCache (ghost s) = None" and h7: "userInfoLoading (ghost s) = None"
      and h8: "users_info env (slackId (ghost s)) = Inr \<lparr> resp_user = Some u \<rparr>"
      and h9: "profile u = Some p"
      and h10: "or_else (display_name_p p) (real_name p) = Some n" and h11: "n \<noteq> []"
      and h12: "displayname (ghost s) \<noteq> Some (n @ interpolate (display_name_suffix config))"
      and h13: "first_truthy (images p) = Some url" and h14: "url \<noteq> []"
      and h15: "avatar_hash p = Some h" and h16: "2 \<le> length h" and h17: "avatarHash (ghost s) \<noteq> Some h"
      and h18: "setDisplayName env (n @ interpolate (display_name_suffix config)) = Inr ()"
      and h19: "rp env url = Inr (mimetype, body)"
      and h20: "uploadContent env mimetype h body = Inr contentUri"
      and h21: "setAvatarUrl env contentUri = Inr ()"
      and h22: "\<forall>e. datastore_rejects env e = None"
      by blast+
    from scenario_user_profile [OF assms(1) h1 h2 assms(3) h3 h4 h5 h6 h7 h8 h9 h10 h11 h12 h13 h14
        h15 h16 h17 h18 h19 h20 h21 h22]
    show "trace (run_updates env room config
                [Call i m1, Call j m2,
                 Resume i OpDisplayname, Resume i OpAvatar,
                 Resume i OpDisplayname, Resume i OpAvatar,
                 Resume i OpDisplayname, Resume i OpAvatar,
                 Resume i OpAvatar, Resume i OpAvatar, Complete i] s)
              = trace s @ [(i, GLog ''Updating user information''),
                           (i, GLog ''Using fresh userInfo''),
                           (i, CallUsersInfo (slackId (ghost s))),
                           (j, GLog ''Not updating: Update in progress.''),
                           (i, GLog ''Updating displayname''),
                           (i, CallSetDisplayName (n @ interpolate (display_name_suffix config))),
                           (i, GLog ''Updating avatar''),
                           (i, CallFetch url),
                           (i, CallUpsertUser
                                \<lparr> avatar_url = avatarHash (ghost s), display_name = Some (n @ interpolate (display_name_suffix config)),
                        id = userId (ghost s), slack_id = slackId (ghost s), team_id = teamId (ghost s) \<rparr>),
                           (i, CallUploadContent mimetype h),
                           (i, GLog ''Media uploaded''),
                           (i, CallSetAvatarUrl contentUri),
                           (i, CallUpsertUser
                                \<lparr> avatar_url = Some h, display_name = Some (n @ interpolate (display_name_suffix config)),
                        id = userId (ghost s), slack_id = slackId (ghost s), team_id = teamId (ghost s) \<rparr>),
                           (i, GLog ''Completed update'')]
          \<and> displayname (ghost (run_updates env room config
                [Call i m1, Call j m2,
                 Resume i OpDisplayname, Resume i OpAvatar,
                 Resume i OpDisplayname, Resume i OpAvatar,
                 Resume i OpDisplayname, Resume i OpAvatar,
                 Resume i OpAvatar, Resume i OpAvatar, Complete i] s)) = Some (n @ interpolate (display_name_suffix config))
          \<and> avatarHash (ghost (run_updates env room config
                [Call i m1, Call j m2,
                 Resume i OpDisplayname, Resume i OpAvatar,
                 Resume i OpDisplayname, Resume i OpAvatar,
                 Resume i OpDisplayname, Resume i OpAvatar,
                 Resume i OpAvatar, Resume i OpAvatar, Complete i] s)) = Some h
          \<and> \<not> updateInProgress (ghost (run_updates env room config
                [Call i m1, Call j m2,
                 Resume i OpDisplayname, Resume i OpAvatar,
                 Resume i OpDisplayname, Resume i OpAvatar,
                 Resume i OpDisplayname, Resume i OpAvatar,
                 Resume i OpAvatar, Resume i OpAvatar, Complete i] s))"
      by blast
  qed
  from a b c d e f g show ?thesis by blast
qed

theorem update_in_progress_drops_witness:
  "trace (run_updates
      \<lparr> bots_info = (\<lambda>b. Inl TypeError),
        users_info = (\<lambda>x. Inr \<lparr> resp_user = Some \<lparr> profile = Some
          \<lparr> display_name_p = Some ''alice'', real_name = None, avatar_hash = Some ''ab12'',
            images = [Some ''https://a/ab12.png'', None, None, None, None, None] \<rparr> \<rparr> \<rparr>),
        setDisplayName = (\<lambda>n. Inr ()), setAvatarUrl = (\<lambda>x. Inr ()),
        rp = (\<lambda>x. Inr (Some ''image/png'', ''PNG'')),
        uploadContent = (\<lambda>m t b. Inr ''mxc://hs/1''),
        datastore_rejects = (\<lambda>e. None) \<rparr>
      \<lparr> InboundId = ''x'', SlackChannelName = None, isDirty = False, SlackClient = True \<rparr>
      \<lparr> display_name_suffix = Some '' (Slack)'' \<rparr>
      [Call 1 \<lparr> user_id = Some ''U1'', user = None, username = None, user_name = None, bot_id = None \<rparr>,
       Call 2 \<lparr> user_id = Some ''U1'', user = None, username = Some ''bob'', user_name = None, bot_id = None \<rparr>,
       Resume 1 OpDisplayname, Resume 1 OpAvatar, Resume 1 OpDisplayname, Resume 1 OpAvatar,
       Resume 1 OpDisplayname, Resume 1 OpAvatar, Resume 1 OpAvatar, Resume 1 OpAvatar, Complete 1]
      \<lparr> ghost = new_SlackGhost ''u1'' None ''@slack_u1:hs'' None None, users = Map.empty,
        suspended = [], started = [], trace = [] \<rparr>)
   = [(1, GLog ''Updating user information''),
      (1, GLog ''Using fresh userInfo''),
      (1, CallUsersInfo (toUpperCase ''u1'')),
      (2, GLog ''Not updating: Update in progress.''),
      (1, GLog ''Updating displayname''),
      (1, CallSetDisplayName ''alice (Slack)''),
      (1, GLog ''Updating avatar''),
      (1, CallFetch ''https://a/ab12.png''),
      (1, CallUpsertUser \<lparr> avatar_url = None, display_name = Some ''alice (Slack)'',
                           id = ''@slack_u1:hs'', slack_id = toUpperCase ''u1'', team_id = None \<rparr>),
      (1, CallUploadContent (Some ''image/png'') ''ab12''),
      (1, GLog ''Media uploaded''),
      (1, CallSetAvatarUrl ''mxc://hs/1''),
      (1, CallUpsertUser \<lparr> avatar_url = Some ''ab12'', display_name = Some ''alice (Slack)'',
                           id = ''@slack_u1:hs'', slack_id = toUpperCase ''u1'', team_id = None \<rparr>),
      (1, GLog ''Completed update'')]
   \<and> filter (\<lambda>c. fst c = 2) (trace (run_updates
      \<lparr> bots_info = (\<lambda>b. Inl TypeError),
        users_info = (\<lambda>x. Inr \<lparr> resp_user = Some \<lparr> profile = Some
          \<lparr> display_name_p = Some ''alice'', real_name = None, avatar_hash = Some ''ab12'',
            images = [Some ''https://a/ab12.png'', None, None, None, None, None] \<rparr> \<rparr> \<rparr>),
        setDisplayName = (\<lambda>n. Inr ()), setAvatarUrl = (\<lambda>x. Inr ()),
        rp = (\<lambda>x. Inr (Some ''image/png'', ''PNG'')),
        uploadContent = (\<lambda>m t b. Inr ''mxc://hs/1''),
        datastore_rejects = (\<lambda>e. None) \<rparr>
      \<lparr> InboundId = ''x'', SlackChannelName = None, isDirty = False, SlackClient = True \<rparr>
      \<lparr> display_name_suffix = Some '' (Slack)'' \<rparr>
      [Call 1 \<lparr> user_id = Some ''U1'', user = None, username = None, user_name = None, bot_id = None \<rparr>,
       Call 2 \<lparr> user_id = Some ''U1'', user = None, username = Some ''bob'', user_name = None, bot_id = None \<rparr>,
       Resume 1 OpDisplayname, Resume 1 OpAvatar, Resume 1 OpDisplayname, Resume 1 OpAvatar,
       Resume 1 OpDisplayname, Resume 1 OpAvatar, Resume 1 OpAvatar, Resume 1 OpAvatar, Complete 1]
      \<lparr> ghost = new_SlackGhost ''u1'' None ''@slack_u1:hs'' None None, users = Map.empty,
        suspended = [], started = [], trace = [] \<rparr>))
   = [(2, GLog ''Not updating: Update in progress.'')]
   \<and> avatarHash (ghost (run_updates
      \<lparr> bots_info = (\<lambda>b. Inl TypeError),
        users_info = (\<lambda>x. Inr \<lparr> resp_user = Some \<lparr> profile = Some
          \<lparr> display_name_p = Some ''alice'', real_name = None, avatar_hash = Some ''ab12'',
            images = [Some ''https://a/ab12.png'', None, None, None, None, None] \<rparr> \<rparr> \<rparr>),
        setDisplayName = (\<lambda>n. Inr ()), setAvatarUrl = (\<lambda>x. Inr ()),
        rp = (\<lambda>x. Inr (Some ''image/png'', ''PNG'')),
        uploadContent = (\<lambda>m t b. Inr ''mxc://hs/1''),
        datastore_rejects = (\<lambda>e. None) \<rparr>
      \<lparr> InboundId = ''x'', SlackChannelName = None, isDirty = False, SlackClient = True \<rparr>
      \<lparr> display_name_suffix = Some '' (Slack)'' \<rparr>
      [Call 1 \<lparr> user_id = Some ''U1'', user = None, username = None, user_name = None, bot_id = None \<rparr>,
       Call 2 \<lparr> user_id = Some ''U1'', user = None, username = Some ''bob'', user_name = None, bot_id = None \<rparr>,
       Resume 1 OpDisplayname, Resume 1 OpAvatar, Resume 1 OpDisplayname, Resume 1 OpAvatar,
       Resume 1 OpDisplayname, Resume 1 OpAvatar, Resume 1 OpAvatar, Resume 1 OpAvatar, Complete 1]
      \<lparr> ghost = new_SlackGhost ''u1'' None ''@slack_u1:hs'' None None, users = Map.empty,
        suspended = [], started = [], trace = [] \<rparr>)) = Some ''ab12''
   \<and> trace (run_updates
      \<lparr> bots_info = (\<lambda>b. Inl TypeError),
        users_info = (\<lambda>x. Inr \<lparr> resp_user = Some \<lparr> profile = Some
          \<lparr> display_name_p = Some ''alice'', real_name = None, avatar_hash = Some ''ab12'',
            images = [Some ''https://a/ab12.png'', None, None, None, None, None] \<rparr> \<rparr> \<rparr>),
        setDisplayName = (\<lambda>n. Inr ()), setAvatarUrl = (\<lambda>x. Inr ()),
        rp = (\<lambda>x. Inr (Some ''image/png'', ''PNG'')),
        uploadContent = (\<lambda>m t b. Inr ''mxc://hs/1''),
        datastore_rejects = (\<lambda>e. None) \<rparr>
      \<lparr> InboundId = ''x'', SlackChannelName = None, isDirty = False, SlackClient = False \<rparr>
      \<lparr> display_name_suffix = Some '' (Slack)'' \<rparr>
      [Call 1 \<lparr> user_id = Some ''U1'', user = None, username = Some ''carol'', user_name = None, bot_id = None \<rparr>,
       Call 2 \<lparr> user_id = Some ''U1'', user = None, username = Some ''bob'', user_name = None, bot_id = None \<rparr>,
       Resume 1 OpDisplayname, Resume 1 OpDisplayname, Complete 1]
      \<lparr> ghost = new_SlackGhost ''u1'' None ''@slack_u1:hs'' None None, users = Map.empty,
        suspended = [], started = [], trace = [] \<rparr>)
   = [(1, GLog ''Updating user information''),
      (1, GLog ''Updating displayname''),
      (1, CallSetDisplayName ''carol (Slack)''),
      (2, GLog ''Not updating: Update in progress.''),
      (1, CallUpsertUser \<lparr> avatar_url = None, display_name = Some ''carol (Slack)'',
                           id = ''@slack_u1:hs'', slack_id = toUpperCase ''u1'', team_id = None \<rparr>),
      (1, GLog ''Completed update'')]"
proof -
  let ?s = "\<lparr> ghost = new_SlackGhost ''u1'' None ''@slack_u1:hs'' None None, users = Map.empty,
        suspended = [], started = [], trace = [] \<rparr>"
  let ?env = "\<lparr> bots_info = (\<lambda>b. Inl TypeError),
        users_info = (\<lambda>x. Inr \<lparr> resp_user = Some \<lparr> profile = Some
          \<lparr> display_name_p = Some ''alice'', real_name = None, avatar_hash = Some ''ab12'',
            images = [Some ''https://a/ab12.png'', None, None, None, None, None] \<rparr> \<rparr> \<rparr>),
        setDisplayName = (\<lambda>n. Inr ()), setAvatarUrl = (\<lambda>x. Inr ()),
        rp = (\<lambda>x. Inr (Some ''image/png'', ''PNG'')),
        uploadContent = (\<lambda>m t b. Inr ''mxc://hs/1''),
        datastore_rejects = (\<lambda>e. None) \<rparr>"
  let ?m1 = "\<lparr> user_id = Some ''U1'', user = None, username = None, user_name = None, bot_id = None \<rparr>"
  let ?m2 = "\<lparr> user_id = Some ''U1'', user = None, username = Some ''bob'', user_name = None, bot_id = None \<rparr>"
  let ?p = "\<lparr> display_name_p = Some ''alice'', real_name = None, avatar_hash = Some ''ab12'',
            images = [Some ''https://a/ab12.png'', None, None, None, None, None] \<rparr>"
  let ?u = "\<lparr> profile = Some ?p \<rparr>"
  let ?rest = "[Resume 1 OpDisplayname, Resume 1 OpAvatar, Resume 1 OpDisplayname, Resume 1 OpAvatar,
       Resume 1 OpDisplayname, Resume 1 OpAvatar, Resume 1 OpAvatar, Resume 1 OpAvatar, Complete 1]"
  have h1: "\<not> updateInProgress (ghost ?s)" by (simp add: new_SlackGhost_def)
  have h2: "inactive 2 ?s" by (simp add: inactive_def)
  have h3: "(1::nat) \<noteq> 2" by simp
  have h4: "list_all is_resume []" by simp
  have h5: "list_all (\<lambda>ev. \<not> is_call_of 2 ev) ?rest" by simp
  note T = update_in_progress_drops [OF h1 h2 h3 h4 h5,
      where env = ?env
      and room = "\<lparr> InboundId = ''x'', SlackChannelName = None, isDirty = False, SlackClient = True \<rparr>"
      and config = "\<lparr> display_name_suffix = Some '' (Slack)'' \<rparr>"
      and ?m1.0 = ?m1 and ?m2.0 = ?m2
      and u = "\<lparr> profile = Some
          \<lparr> display_name_p = Some ''alice'', real_name = None, avatar_hash = Some ''ab12'',
            images = [Some ''https://a/ab12.png'', None, None, None, None, None] \<rparr> \<rparr>"
      and p = "\<lparr> display_name_p = Some ''alice'', real_name = None, avatar_hash = Some ''ab12'',
            images = [Some ''https://a/ab12.png'', None, None, None, None, None] \<rparr>"
      and n = "''alice''" and url = "''https://a/ab12.png''" and h = "''ab12''"
      and mimetype = "Some ''image/png''" and body = "''PNG''" and contentUri = "''mxc://hs/1''"]
  have g: "slackId (ghost ?s) = toUpperCase ''u1''" "teamId (ghost ?s) = None"
    "userId (ghost ?s) = ''@slack_u1:hs''" "avatarHash (ghost ?s) = None" "trace ?s = []"
    "interpolate (display_name_suffix \<lparr> display_name_suffix = Some '' (Slack)'' \<rparr>) = '' (Slack)''"
    by (simp_all add: new_SlackGhost_def interpolate_def)
  have hyp: "suspended ?s = [] \<and> started ?s = []
      \<and> SlackClient \<lparr> InboundId = ''x'', SlackChannelName = None, isDirty = False, SlackClient = True \<rparr>
      \<and> \<not> truthy_str (bot_id ?m1) \<and> truthy_str (user_id ?m1)
      \<and> userInfoCache (ghost ?s) = None \<and> userInfoLoading (ghost ?s) = None
      \<and> users_info ?env (slackId (ghost ?s)) = Inr \<lparr> resp_user = Some ?u \<rparr>
      \<and> profile ?u = Some ?p
      \<and> or_else (display_name_p ?p) (real_name ?p) = Some ''alice'' \<and> ''alice'' \<noteq> []
      \<and> displayname (ghost ?s)
          \<noteq> Some (''alice'' @ interpolate (display_name_suffix \<lparr> display_name_suffix = Some '' (Slack)'' \<rparr>))
      \<and> first_truthy (images ?p) = Some ''https://a/ab12.png'' \<and> ''https://a/ab12.png'' \<noteq> []
      \<and> avatar_hash ?p = Some ''ab12'' \<and> 2 \<le> length ''ab12'' \<and> avatarHash (ghost ?s) \<noteq> Some ''ab12''
      \<and> setDisplayName ?env (''alice'' @ interpolate (display_name_suffix \<lparr> display_name_suffix = Some '' (Slack)'' \<rparr>)) = Inr ()
      \<and> rp ?env ''https://a/ab12.png'' = Inr (Some ''image/png'', ''PNG'')
      \<and> uploadContent ?env (Some ''image/png'') ''ab12'' ''PNG'' = Inr ''mxc://hs/1''
      \<and> setAvatarUrl ?env ''mxc://hs/1'' = Inr ()
      \<and> (\<forall>e. datastore_rejects ?env e = None)"
    by (simp add: new_SlackGhost_def or_else_def)
  note dropped = T [THEN conjunct2, THEN conjunct2, THEN conjunct1]
  note B = T [THEN conjunct2, THEN conjunct2, THEN conjunct2, THEN conjunct2, THEN conjunct2,
      THEN conjunct2, THEN conjunct2, THEN conjunct2, THEN conjunct2, THEN conjunct2, THEN mp, OF hyp]
  note B1 = B [THEN conjunct1]
  note B3 = B [THEN conjunct2, THEN conjunct2, THEN conjunct1]
  note B1' = B1 [unfolded g append_Nil append_Cons]
  note d' = dropped [unfolded g append_Nil filter.simps]
  let ?m3 = "\<lparr> user_id = Some ''U1'', user = None, username = Some ''carol'', user_name = None, bot_id = None \<rparr>"
  have h6: "list_all (\<lambda>ev. \<not> is_call_of 2 ev) [Resume 1 OpDisplayname, Resume 1 OpDisplayname, Complete 1]"
    by simp
  note U = update_in_progress_drops [OF h1 h2 h3 h4 h6,
      where env = ?env
      and room = "\<lparr> InboundId = ''x'', SlackChannelName = None, isDirty = False, SlackClient = False \<rparr>"
      and config = "\<lparr> display_name_suffix = Some '' (Slack)'' \<rparr>"
      and ?m1.0 = ?m3 and ?m2.0 = ?m2 and n = "''carol''"]
  have hyp2: "suspended ?s = [] \<and> started ?s = []
      \<and> \<not> SlackClient \<lparr> InboundId = ''x'', SlackChannelName = None, isDirty = False, SlackClient = False \<rparr>
      \<and> or_else (username ?m3) (user_name ?m3) = Some ''carol'' \<and> ''carol'' \<noteq> []
      \<and> displayname (ghost ?s)
          \<noteq> Some (''carol'' @ interpolate (display_name_suffix \<lparr> display_name_suffix = Some '' (Slack)'' \<rparr>))
      \<and> setDisplayName ?env (''carol'' @ interpolate (display_name_suffix \<lparr> display_name_suffix = Some '' (Slack)'' \<rparr>)) = Inr ()
      \<and> datastore_rejects ?env
           \<lparr> avatar_url = avatarHash (ghost ?s),
             display_name = Some (''carol'' @ interpolate (display_name_suffix \<lparr> display_name_suffix = Some '' (Slack)'' \<rparr>)),
             id = userId (ghost ?s), slack_id = slackId (ghost ?s), team_id = teamId (ghost ?s) \<rparr> = None"
    by (simp add: new_SlackGhost_def or_else_def)
  note A = U [THEN conjunct2, THEN conjunct2, THEN conjunct2, THEN conjunct2, THEN conjunct2,
      THEN conjunct2, THEN conjunct2, THEN conjunct2, THEN conjunct2, THEN conjunct1, THEN mp, OF hyp2]
  note A2 = A [THEN conjunct2, THEN conjunct1, unfolded g append_Nil append_Cons]
  show ?thesis
    apply (intro conjI)
       apply (rule B1')
      apply (rule d')
     apply (rule B3)
    apply (rule A2)
    done
qed


end
